(* ===== verification/Prelude.thy ===== *)
theory Prelude
  imports Main "HOL-Library.Word" "HOL-Library.Char_ord" "HOL-Library.List_Lexorder"
begin

text \<open>
  Shared vocabulary of the development: Go's byte slices, the named theorem
  collections every component adds to, and the generic facts on lists and
  orders that several components need.
  A Go \<open>string\<close> is a sequence of bytes; it is modelled by HOL's \<open>string\<close>
  (a list of 8-bit characters).  A \<open>[]byte\<close> is a list of 8-bit words.
\<close>

unbundle bit_operations_syntax

type_synonym byte = "8 word"
type_synonym bytes = "byte list"

named_theorems prog_simps \<open>equations that run an effect program\<close>
named_theorems db_simps \<open>equations of the table operations\<close>
named_theorems http_simps \<open>equations of requests, headers and responses\<close>

section \<open>Strings and byte slices\<close>

text \<open>The conversions \<open>[]byte(s)\<close> and \<open>string(b)\<close>.\<close>

definition to_bytes :: "string \<Rightarrow> bytes" where
  "to_bytes s = map of_char s"

definition of_bytes :: "bytes \<Rightarrow> string" where
  "of_bytes b = map (\<lambda>x. char_of (unat x)) b"

lemma unat_of_char [simp]: "unat (of_char c :: byte) = of_char c"
proof -
  have "(of_char c :: byte) = of_nat (of_char c)"
    by (simp add: of_char_def)
  moreover have "(of_char c :: nat) < 256" by simp
  ultimately show ?thesis by (simp add: unat_of_nat)
qed

lemma of_bytes_to_bytes [simp]: "of_bytes (to_bytes s) = s"
  by (simp add: of_bytes_def to_bytes_def comp_def)

lemma to_bytes_of_bytes [simp]: "to_bytes (of_bytes b) = b"
proof -
  have "(of_char (char_of (unat x) :: char) :: byte) = x" for x
  proof (rule word_unat_eq_iff [THEN iffD2])
    have "unat x < 256" using unsigned_less [of x] by simp
    then show "unat (of_char (char_of (unat x) :: char) :: byte) = unat x"
      by (simp add: of_char_of)
  qed
  then show ?thesis by (simp add: of_bytes_def to_bytes_def comp_def)
qed

lemma to_bytes_inj [simp]: "to_bytes s = to_bytes t \<longleftrightarrow> s = t"
  by (metis of_bytes_to_bytes)

lemma length_to_bytes [simp]: "length (to_bytes s) = length s"
  by (simp add: to_bytes_def)

lemma length_of_bytes [simp]: "length (of_bytes b) = length b"
  by (simp add: of_bytes_def)

lemma to_bytes_append [simp]: "to_bytes (s @ t) = to_bytes s @ to_bytes t"
  by (simp add: to_bytes_def)

section \<open>Lexicographic order on lists\<close>

text \<open>
  The order on \<open>string\<close> is the byte-wise lexicographic one: Go's \<open><\<close> on strings
  and SQLite's \<open>BINARY\<close> collation of TEXT columns.
\<close>

lemma append_less_append_iff:
  fixes a b x y :: "'a::linorder list"
  assumes "length a = length b"
  shows "a @ x < b @ y \<longleftrightarrow> a < b \<or> a = b \<and> x < y"
  using assms by (induction a b rule: list_induct2) auto

lemma less_append_same [simp]:
  fixes a x y :: "'a::linorder list"
  shows "a @ x < a @ y \<longleftrightarrow> x < y"
  by (induction a) auto

lemma Nil_less_iff [simp]: "([] :: 'a::linorder list) < xs \<longleftrightarrow> xs \<noteq> []"
  by (cases xs) auto

lemma char_less_iff: "(c :: char) < d \<longleftrightarrow> (of_char c :: nat) < of_char d"
  by (simp add: less_char_def)

section \<open>Lists\<close>

lemma take_eq_append_drop: "take (length p) s = p \<Longrightarrow> s = p @ drop (length p) s"
  by (metis append_take_drop_id)

lemma filter_filter_comm: "filter P (filter Q xs) = filter Q (filter P xs)"
  by (simp add: conj_commute)

lemma distinct_map_inj: "distinct (map f xs) \<Longrightarrow> x \<in> set xs \<Longrightarrow> y \<in> set xs \<Longrightarrow> f x = f y \<Longrightarrow> x = y"
  by (auto simp: distinct_map inj_on_def)

lemma distinct_map_filter' [intro]: "distinct (map f xs) \<Longrightarrow> distinct (map f (filter P xs))"
  by (simp add: distinct_map_filter)

lemma filter_key_unique:
  assumes "distinct (map f xs)" and "x \<in> set xs"
  shows "filter (\<lambda>y. f y = f x) xs = [x]"
  using assms by (induction xs) (auto simp: filter_empty_conv image_iff)

lemma find_Some_mem: "find P xs = Some x \<Longrightarrow> x \<in> set xs \<and> P x"
  by (induction xs) (auto split: if_splits)

lemma find_None_all: "find P xs = None \<longleftrightarrow> (\<forall>x \<in> set xs. \<not> P x)"
  by (induction xs) auto

end
