(* ===== verification/GoText.thy ===== *)
theory GoText
  imports Prelude
begin

text \<open>
  The functions of Go's \<open>strings\<close> package that the program calls, on byte
  strings: prefixes, splitting, trimming, joining and case folding.
\<close>

section \<open>Prefixes and suffixes\<close>

definition HasPrefix :: "string \<Rightarrow> string \<Rightarrow> bool" where
  "HasPrefix s p \<longleftrightarrow> take (length p) s = p"

definition TrimPrefix :: "string \<Rightarrow> string \<Rightarrow> string" where
  "TrimPrefix s p = (if HasPrefix s p then drop (length p) s else s)"

definition HasSuffix :: "string \<Rightarrow> string \<Rightarrow> bool" where
  "HasSuffix s p \<longleftrightarrow> length p \<le> length s \<and> drop (length s - length p) s = p"

lemma HasPrefix_append [simp]: "HasPrefix (p @ s) p"
  by (simp add: HasPrefix_def)

lemma HasPrefix_iff: "HasPrefix s p \<longleftrightarrow> (\<exists>r. s = p @ r)"
  unfolding HasPrefix_def by (metis append_eq_conv_conj append_take_drop_id)

lemma TrimPrefix_append [simp]: "TrimPrefix (p @ s) p = s"
  by (simp add: TrimPrefix_def)

lemma TrimPrefix_eq_self_iff: "TrimPrefix s p = s \<longleftrightarrow> \<not> HasPrefix s p \<or> p = []"
proof (cases "HasPrefix s p")
  case True
  then obtain r where "s = p @ r" by (auto simp: HasPrefix_iff)
  then show ?thesis by simp
qed (simp add: TrimPrefix_def)

section \<open>Splitting and joining\<close>

text \<open>\<open>strings.Split\<close> on a one-byte separator: never empty, empty pieces kept.\<close>

fun Split :: "char \<Rightarrow> string \<Rightarrow> string list" where
  "Split d [] = [[]]"
| "Split d (c # cs) =
     (if c = d then [] # Split d cs
      else (case Split d cs of [] \<Rightarrow> [[c]] | p # ps \<Rightarrow> (c # p) # ps))"

fun Join :: "string list \<Rightarrow> string \<Rightarrow> string" where
  "Join [] sep = []"
| "Join [s] sep = s"
| "Join (s # t # ss) sep = s @ sep @ Join (t # ss) sep"

text \<open>\<open>strings.Cut\<close> at the first separator byte.\<close>

fun Cut :: "char \<Rightarrow> string \<Rightarrow> (string \<times> string) option" where
  "Cut d [] = None"
| "Cut d (c # cs) =
     (if c = d then Some ([], cs)
      else (case Cut d cs of None \<Rightarrow> None | Some (a, b) \<Rightarrow> Some (c # a, b)))"

text \<open>\<open>strings.IndexByte\<close>; None for -1.\<close>

fun IndexByte :: "string \<Rightarrow> char \<Rightarrow> nat option" where
  "IndexByte [] d = None"
| "IndexByte (c # cs) d = (if c = d then Some 0 else map_option Suc (IndexByte cs d))"

text \<open>\<open>strings.Contains\<close>.\<close>

fun Contains :: "string \<Rightarrow> string \<Rightarrow> bool" where
  "Contains [] t = (t = [])"
| "Contains (c # cs) t = (HasPrefix (c # cs) t \<or> Contains cs t)"

lemma Split_not_Nil [simp]: "Split d s \<noteq> []"
  by (induction s) (auto split: list.splits)

lemma Split_no_sep: "d \<notin> set s \<Longrightarrow> Split d s = [s]"
  by (induction s) auto

lemma Split_append_sep: "d \<notin> set s \<Longrightarrow> Split d (s @ d # t) = s # Split d t"
  by (induction s) auto

lemma length_Split: "length (Split d s) = Suc (count_list s d)"
  by (induction s) (auto split: list.splits)

lemma Join_Split: "Join (Split d s) [d] = s"
proof (induction s)
  case (Cons c cs)
  then show ?case
    by (cases "Split d cs"; cases "tl (Split d cs)") auto
qed simp

lemma Split_pieces_no_sep: "p \<in> set (Split d s) \<Longrightarrow> d \<notin> set p"
  by (induction s arbitrary: p) (auto split: list.splits if_splits)

lemma count_list_Join:
  "ss \<noteq> [] \<Longrightarrow> count_list (Join ss [d]) d + 1 = sum_list (map (\<lambda>s. count_list s d) ss) + length ss"
  by (induction ss "[d]" rule: Join.induct) (auto simp: count_list_append)

lemma Split_Join:
  "ss \<noteq> [] \<Longrightarrow> \<forall>s \<in> set ss. d \<notin> set s \<Longrightarrow> Split d (Join ss [d]) = ss"
  by (induction ss "[d]" rule: Join.induct) (auto simp: Split_no_sep Split_append_sep)

text \<open>
  A joined text determines its pieces as soon as one of two equally long piece
  lists is free of the separator: the other one then has to be free of it too.
\<close>

lemma Join_inj:
  assumes eq: "Join ss [d] = Join ts [d]" and len: "length ss = length ts"
    and free: "\<forall>s \<in> set ss. d \<notin> set s"
  shows "ss = ts"
proof (cases "ss = []")
  case False
  then have ne: "ts \<noteq> []" using len by auto
  have "sum_list (map (\<lambda>s. count_list s d) ss) = 0"
    using free by (simp add: count_notin)
  with count_list_Join [OF False, of d] count_list_Join [OF ne, of d] eq len
  have z: "sum_list (map (\<lambda>s. count_list s d) ts) = 0" by simp
  then have "\<forall>t \<in> set ts. d \<notin> set t"
    by (simp add: count_list_0_iff)
  then show ?thesis using Split_Join [OF False free] Split_Join [OF ne] eq by simp
qed (use len in simp)

lemma Contains_append: "Contains (a @ t @ b) t"
proof (induction a)
  case Nil
  have "HasPrefix (t @ b) t" by simp
  then show ?case by (cases "t @ b") (simp_all del: HasPrefix_append)
qed simp

lemma Cut_Some_iff: "Cut d s = Some (a, b) \<longleftrightarrow> s = a @ d # b \<and> d \<notin> set a"
proof (induction s arbitrary: a)
  case (Cons c cs)
  note IH = Cons.IH
  show ?case
  proof (cases a)
    case Nil
    then show ?thesis by (auto split: option.splits)
  next
    case (Cons x xs)
    have "Cut d (c # cs) = Some (x # xs, b) \<longleftrightarrow> c \<noteq> d \<and> x = c \<and> Cut d cs = Some (xs, b)"
      by (auto split: option.splits)
    with IH [of xs] Cons show ?thesis by auto
  qed
qed simp

section \<open>Trimming\<close>

text \<open>
  \<open>strings.TrimSpace\<close> removes leading and trailing Unicode white space.  On UTF-8
  text the white space code points are the six ASCII ones and the multi-byte
  sequences listed here (U+0085, U+00A0, U+1680, U+2000 to U+200A, U+2028,
  U+2029, U+202F, U+205F and U+3000).
\<close>

definition ascii_space :: "char \<Rightarrow> bool" where
  "ascii_space c \<longleftrightarrow> (let n = (of_char c :: nat) in (9 \<le> n \<and> n \<le> 13) \<or> n = 32)"

definition space2 :: "char \<Rightarrow> char \<Rightarrow> bool" where
  "space2 a b \<longleftrightarrow> of_char a = (0xC2 :: nat) \<and> (of_char b = (0x85 :: nat) \<or> of_char b = (0xA0 :: nat))"

definition space3 :: "char \<Rightarrow> char \<Rightarrow> char \<Rightarrow> bool" where
  "space3 a b c \<longleftrightarrow>
     (let x = (of_char a :: nat); y = (of_char b :: nat); z = (of_char c :: nat) in
      x = 0xE1 \<and> y = 0x9A \<and> z = 0x80 \<or>
      x = 0xE2 \<and> y = 0x80 \<and> (0x80 \<le> z \<and> z \<le> 0x8A \<or> z = 0xA8 \<or> z = 0xA9 \<or> z = 0xAF) \<or>
      x = 0xE2 \<and> y = 0x81 \<and> z = 0x9F \<or>
      x = 0xE3 \<and> y = 0x80 \<and> z = 0x80)"

text \<open>\<open>trim_front f2 f3\<close> drops leading space; the order of the multi-byte tests is a
  parameter, so that the reversed string can be trimmed by the same function.\<close>

fun trim_front :: "(char \<Rightarrow> char \<Rightarrow> bool) \<Rightarrow> (char \<Rightarrow> char \<Rightarrow> char \<Rightarrow> bool) \<Rightarrow> string \<Rightarrow> string" where
  "trim_front f2 f3 (a # b # c # s) =
     (if ascii_space a then trim_front f2 f3 (b # c # s)
      else if f2 a b then trim_front f2 f3 (c # s)
      else if f3 a b c then trim_front f2 f3 s
      else a # b # c # s)"
| "trim_front f2 f3 [a, b] =
     (if ascii_space a then trim_front f2 f3 [b] else if f2 a b then [] else [a, b])"
| "trim_front f2 f3 [a] = (if ascii_space a then [] else [a])"
| "trim_front f2 f3 [] = []"

definition TrimSpace :: "string \<Rightarrow> string" where
  "TrimSpace s =
     rev (trim_front (\<lambda>b a. space2 a b) (\<lambda>c b a. space3 a b c) (rev (trim_front space2 space3 s)))"

text \<open>\<open>strings.TrimRight(s, c)\<close> for a one-byte cutset.\<close>

definition TrimRight :: "char \<Rightarrow> string \<Rightarrow> string" where
  "TrimRight c s = rev (dropWhile (\<lambda>x. x = c) (rev s))"

lemma TrimRight_idem [simp]: "TrimRight c (TrimRight c s) = TrimRight c s"
  by (simp add: TrimRight_def)

lemma TrimRight_last: "TrimRight c s \<noteq> [] \<Longrightarrow> last (TrimRight c s) \<noteq> c"
  using hd_dropWhile [of "\<lambda>x. x = c" "rev s"] by (simp add: TrimRight_def last_rev)

lemma TrimRight_snoc: "TrimRight c (s @ [x]) = (if x = c then TrimRight c s else s @ [x])"
  by (simp add: TrimRight_def)

section \<open>ASCII case\<close>

definition lower_char :: "char \<Rightarrow> char" where
  "lower_char c = (let n = (of_char c :: nat) in if 65 \<le> n \<and> n \<le> 90 then char_of (n + 32) else c)"

definition upper_char :: "char \<Rightarrow> char" where
  "upper_char c = (let n = (of_char c :: nat) in if 97 \<le> n \<and> n \<le> 122 then char_of (n - 32) else c)"

definition ToLower :: "string \<Rightarrow> string" where
  "ToLower s = map lower_char s"

text \<open>
  \<open>strings.EqualFold(s, t)\<close> for an ASCII \<open>t\<close> without the letters k and s, the only
  ones with a non-ASCII case partner: there simple folding is ASCII folding.
\<close>

definition EqualFold_ascii :: "string \<Rightarrow> string \<Rightarrow> bool" where
  "EqualFold_ascii s t \<longleftrightarrow> ToLower s = ToLower t"

end
