(* ===== verification/Codec.thy ===== *)
theory Codec
  imports GoText
begin

text \<open>
  Hexadecimal and base64url (packages \<open>encoding/hex\<close> and \<open>encoding/base64\<close>),
  with the lenient decoder of the program on top, and the round trips.
\<close>

section \<open>Hexadecimal\<close>

definition hex_digit :: "nat \<Rightarrow> char" where
  "hex_digit n = char_of (if n < 10 then 48 + n else 87 + n)"

definition hex_byte :: "byte \<Rightarrow> string" where
  "hex_byte b = [hex_digit (unat b div 16), hex_digit (unat b mod 16)]"

definition hex_EncodeToString :: "bytes \<Rightarrow> string" where
  "hex_EncodeToString bs = concat (map hex_byte bs)"

definition hex_char :: "char \<Rightarrow> bool" where
  "hex_char c \<longleftrightarrow> (let n = (of_char c :: nat) in 48 \<le> n \<and> n \<le> 57 \<or> 97 \<le> n \<and> n \<le> 102)"

lemma hex_char_digit [simp]: "n < 16 \<Longrightarrow> hex_char (hex_digit n)"
  by (simp add: hex_char_def hex_digit_def Let_def)

lemma unat_byte_less: "unat (b :: byte) < 256"
  using unsigned_less [of b] by simp

lemma length_hex [simp]: "length (hex_EncodeToString bs) = 2 * length bs"
  by (induction bs) (simp_all add: hex_EncodeToString_def hex_byte_def)

lemma hex_chars: "list_all hex_char (hex_EncodeToString bs)"
proof (induction bs)
  case (Cons b bs)
  have "unat b div 16 < 16" using unat_byte_less [of b] by (simp add: div_less_iff_less_mult)
  with Cons show ?case by (simp add: hex_EncodeToString_def hex_byte_def)
qed (simp add: hex_EncodeToString_def)

lemma hex_append: "hex_EncodeToString (a @ b) = hex_EncodeToString a @ hex_EncodeToString b"
  by (simp add: hex_EncodeToString_def)

lemma hex_digit_inj: "m < 16 \<Longrightarrow> n < 16 \<Longrightarrow> hex_digit m = hex_digit n \<longleftrightarrow> m = n"
proof
  assume a: "m < 16" "n < 16" "hex_digit m = hex_digit n"
  have "(of_char (hex_digit k) :: nat) = (if k < 10 then 48 + k else 87 + k)" if "k < 16" for k
    using that by (simp add: hex_digit_def)
  moreover have "(of_char (hex_digit m) :: nat) = of_char (hex_digit n)" by (simp only: a(3))
  ultimately show "m = n" using a(1,2) by (simp split: if_splits)
qed simp

lemma hex_byte_inj: "hex_byte a = hex_byte b \<longleftrightarrow> a = b"
proof
  assume h: "hex_byte a = hex_byte b"
  have q: "unat x div 16 < 16" for x :: byte
    using unat_byte_less [of x] by (simp add: div_less_iff_less_mult)
  have "unat a div 16 = unat b div 16 \<and> unat a mod 16 = unat b mod 16"
    using h q by (simp add: hex_byte_def hex_digit_inj)
  then have "unat a = unat b" by (metis div_mult_mod_eq)
  then show "a = b" by (simp add: word_unat_eq_iff)
qed simp

lemma hex_inj: "hex_EncodeToString a = hex_EncodeToString b \<longleftrightarrow> a = b"
proof
  show "hex_EncodeToString a = hex_EncodeToString b \<Longrightarrow> a = b"
  proof (induction a arbitrary: b)
    case Nil
    then show ?case by (cases b) (simp_all add: hex_EncodeToString_def hex_byte_def)
  next
    case (Cons x xs)
    then obtain y ys where b: "b = y # ys"
      by (cases b) (auto simp: hex_EncodeToString_def hex_byte_def)
    with Cons.prems have "hex_byte x = hex_byte y" "hex_EncodeToString xs = hex_EncodeToString ys"
      by (auto simp: hex_EncodeToString_def hex_byte_def)
    with Cons.IH b show ?case by (simp add: hex_byte_inj)
  qed
qed simp

section \<open>Base64url\<close>

text \<open>The URL-safe alphabet.\<close>

definition b64_digit :: "nat \<Rightarrow> char" where
  "b64_digit n =
     (if n < 26 then char_of (65 + n) else if n < 52 then char_of (71 + n)
      else if n < 62 then char_of (n - 4) else if n = 62 then CHR ''-'' else CHR ''_'')"

definition b64_val :: "char \<Rightarrow> nat option" where
  "b64_val c =
     (let n = (of_char c :: nat) in
      if 65 \<le> n \<and> n \<le> 90 then Some (n - 65)
      else if 97 \<le> n \<and> n \<le> 122 then Some (n - 71)
      else if 48 \<le> n \<and> n \<le> 57 then Some (n + 4)
      else if n = 45 then Some 62
      else if n = 95 then Some 63 else None)"

definition b64_char :: "char \<Rightarrow> bool" where
  "b64_char c \<longleftrightarrow> b64_val c \<noteq> None"

text \<open>\<open>base64.RawURLEncoding.EncodeToString\<close>: groups of three bytes, no padding.\<close>

fun RawURLEncode :: "bytes \<Rightarrow> string" where
  "RawURLEncode [] = []"
| "RawURLEncode [a] =
     [b64_digit (unat a div 4), b64_digit (unat a mod 4 * 16)]"
| "RawURLEncode [a, b] =
     [b64_digit (unat a div 4), b64_digit (unat a mod 4 * 16 + unat b div 16),
      b64_digit (unat b mod 16 * 4)]"
| "RawURLEncode (a # b # c # r) =
     b64_digit (unat a div 4) # b64_digit (unat a mod 4 * 16 + unat b div 16) #
     b64_digit (unat b mod 16 * 4 + unat c div 64) # b64_digit (unat c mod 64) # RawURLEncode r"

text \<open>
  \<open>base64.URLEncoding.DecodeString\<close>: carriage returns and line feeds are skipped
  anywhere, groups of four symbols, padding only at the very end, and the unused
  low bits of the last symbol are not checked.
\<close>

fun decode_quanta :: "string \<Rightarrow> bytes option" where
  "decode_quanta [] = Some []"
| "decode_quanta (a # b # c # d # r) =
     (case (b64_val a, b64_val b) of
        (Some w, Some x) \<Rightarrow>
          (let b1 = word_of_nat (w * 4 + x div 16) in
           if c = CHR ''='' then (if d = CHR ''='' \<and> r = [] then Some [b1] else None)
           else (case b64_val c of None \<Rightarrow> None
             | Some y \<Rightarrow>
                 (let b2 = word_of_nat (x mod 16 * 16 + y div 4) in
                  if d = CHR ''='' then (if r = [] then Some [b1, b2] else None)
                  else (case b64_val d of None \<Rightarrow> None
                    | Some z \<Rightarrow> map_option (\<lambda>bs. b1 # b2 # word_of_nat (y mod 4 * 64 + z) # bs)
                                  (decode_quanta r)))))
      | _ \<Rightarrow> None)"
| "decode_quanta _ = None"

definition newline :: "char \<Rightarrow> bool" where
  "newline c \<longleftrightarrow> of_char c = (10 :: nat) \<or> of_char c = (13 :: nat)"

definition URLDecodeString :: "string \<Rightarrow> bytes option" where
  "URLDecodeString s = decode_quanta (filter (\<lambda>c. \<not> newline c) s)"

text \<open>The padding both decoders of the program add before decoding.\<close>

definition pad_b64 :: "string \<Rightarrow> string" where
  "pad_b64 s = (let p = length s mod 4 in if p \<noteq> 0 then s @ replicate (4 - p) CHR ''='' else s)"

lemma b64_val_digit [simp]: "n < 64 \<Longrightarrow> b64_val (b64_digit n) = Some n"
proof -
  assume n: "n < 64"
  consider "n < 26" | "26 \<le> n" "n < 52" | "52 \<le> n" "n < 62" | "n = 62" | "n = 63"
    using n by linarith
  then show ?thesis
    by cases (simp_all add: b64_digit_def b64_val_def Let_def, linarith)
qed

lemma b64_digit_char [simp]: "n < 64 \<Longrightarrow> b64_char (b64_digit n)"
  by (simp add: b64_char_def)

lemma b64_val_bound: "b64_val c = Some n \<Longrightarrow> n < 64"
  by (auto simp: b64_val_def Let_def split: if_splits)

lemma b64_char_not_eq [simp]: "b64_char c \<Longrightarrow> c \<noteq> CHR ''=''"
  by (auto simp: b64_char_def b64_val_def)

lemma b64_char_not_newline [simp]: "b64_char c \<Longrightarrow> \<not> newline c"
  by (auto simp: b64_char_def b64_val_def newline_def Let_def split: if_splits)

lemma b64_digit_neq_pad: "n < 64 \<Longrightarrow> b64_digit n \<noteq> CHR ''=''"
  using b64_char_not_eq [OF b64_digit_char] .

lemma byte_parts:
  "unat (a :: byte) div 4 < 64" "unat (a :: byte) div 16 < 16" "unat (a :: byte) div 64 < 4"
  using unat_byte_less [of a] by (simp_all add: div_less_iff_less_mult)

lemma byte_digits:
  "unat (a :: byte) mod 4 * 16 < 64"
  "unat (a :: byte) mod 4 * 16 + unat (b :: byte) div 16 < 64"
  "unat (a :: byte) mod 16 * 4 < 64"
  "unat (a :: byte) mod 16 * 4 + unat (b :: byte) div 64 < 64"
  using byte_parts [of b] mod_less_divisor [of 4 "unat a"] mod_less_divisor [of 16 "unat a"]
  by linarith+

lemma RawURLEncode_chars: "list_all b64_char (RawURLEncode bs)"
  by (induction bs rule: RawURLEncode.induct) (simp_all add: byte_parts byte_digits)

lemma length_RawURLEncode: "length (RawURLEncode bs) = (4 * length bs + 2) div 3"
  by (induction bs rule: RawURLEncode.induct) simp_all

lemma byte_join:
  "word_of_nat (unat (a :: byte) div 4 * 4 + (unat a mod 4 * 16 + k) div 16) = a"
  if "k < 16"
proof -
  have "(unat a mod 4 * 16 + k) div 16 = unat a mod 4" using that by simp
  then show ?thesis by simp
qed

lemma replicate_two: "replicate 2 c = [c, c]"
  by (simp add: numeral_2_eq_2)

lemma decode_RawURLEncode:
  "decode_quanta (pad_b64 (RawURLEncode bs)) = Some bs"
proof (induction bs rule: RawURLEncode.induct)
  case 1
  show ?case by (simp add: pad_b64_def)
next
  case (2 a)
  show ?case using byte_join [of 0 a]
    by (simp add: pad_b64_def byte_parts byte_digits Let_def replicate_two)
next
  case (3 a b)
  have b: "unat b mod 16 * 4 div 4 = unat b mod 16"
    "(unat a mod 4 * 16 + unat b div 16) mod 16 = unat b div 16"
    using byte_parts [of b] by simp_all
  show ?case using byte_join [of "unat b div 16" a] byte_parts [of b]
    by (simp add: pad_b64_def byte_parts byte_digits Let_def b)
next
  case (4 a b c r)
  have p: "pad_b64 (w # x # y # z # s) = w # x # y # z # pad_b64 s" for w x y z s
    by (simp add: pad_b64_def Let_def)
  have "(unat a mod 4 * 16 + unat b div 16) mod 16 = unat b div 16"
    "(unat b mod 16 * 4 + unat c div 64) div 4 = unat b mod 16"
    "(unat b mod 16 * 4 + unat c div 64) mod 4 = unat c div 64"
    using byte_parts [of b] byte_parts [of c] by simp_all
  then show ?case
    using 4 byte_join [of "unat b div 16" a] byte_parts [of a] byte_parts [of b] byte_parts [of c]
    by (simp add: p byte_digits Let_def b64_digit_neq_pad)
qed


lemma newline_pad [simp]: "\<not> newline CHR ''=''"
  by (simp add: newline_def)

lemma filter_b64: "list_all b64_char s \<Longrightarrow> filter (\<lambda>c. \<not> newline c) s = s"
  by (induction s) auto

theorem URLDecode_RawURLEncode:
  "URLDecodeString (pad_b64 (RawURLEncode bs)) = Some bs"
proof -
  have "filter (\<lambda>c. \<not> newline c) (pad_b64 (RawURLEncode bs)) = pad_b64 (RawURLEncode bs)"
    using filter_b64 [OF RawURLEncode_chars [of bs]] by (simp add: pad_b64_def Let_def)
  then show ?thesis by (simp add: URLDecodeString_def decode_RawURLEncode)
qed

end
