(* ===== verification/Json.thy ===== *)
theory Json
  imports Codec
begin

text \<open>
  JSON as package \<open>encoding/json\<close> reads and writes it: the scanner as a
  character machine, the parser as a shift-reduce machine over tokens (both
  structurally recursive, so no fuel), string quoting and unquoting on UTF-8
  text, and the decoding of an object into the string fields of a struct.
\<close>

section \<open>UTF-8\<close>

definition byte_in :: "char \<Rightarrow> nat \<Rightarrow> nat \<Rightarrow> bool" where
  "byte_in c lo hi \<longleftrightarrow> lo \<le> of_char c \<and> of_char c \<le> hi"

abbreviation cont_byte :: "char \<Rightarrow> bool" where
  "cont_byte c \<equiv> byte_in c 0x80 0xBF"

text \<open>Length of the well-formed rune a text starts with; 0 when there is none.\<close>

definition rune_len :: "string \<Rightarrow> nat" where
  "rune_len s =
     (case s of [] \<Rightarrow> 0
      | a # r \<Rightarrow>
         if byte_in a 0 0x7F then 1
         else if byte_in a 0xC2 0xDF then (case r of b # _ \<Rightarrow> if cont_byte b then 2 else 0 | [] \<Rightarrow> 0)
         else if byte_in a 0xE0 0xEF then
           (case r of b # c # _ \<Rightarrow>
              if byte_in b (if byte_in a 0xE0 0xE0 then 0xA0 else 0x80)
                           (if byte_in a 0xED 0xED then 0x9F else 0xBF) \<and> cont_byte c
              then 3 else 0
            | _ \<Rightarrow> 0)
         else if byte_in a 0xF0 0xF4 then
           (case r of b # c # d # _ \<Rightarrow>
              if byte_in b (if byte_in a 0xF0 0xF0 then 0x90 else 0x80)
                           (if byte_in a 0xF4 0xF4 then 0x8F else 0xBF) \<and> cont_byte c \<and> cont_byte d
              then 4 else 0
            | _ \<Rightarrow> 0)
         else 0)"

text \<open>The replacement character U+FFFD in UTF-8, put for every ill-formed byte.\<close>

definition rune_error :: string where
  "rune_error = [CHR 0xEF, CHR 0xBF, CHR 0xBD]"

fun utf8_fix :: "string \<Rightarrow> string" where
  "utf8_fix [] = []"
| "utf8_fix (c # cs) =
     (let n = rune_len (c # cs) in
      if n = 0 then rune_error @ utf8_fix cs
      else take n (c # cs) @ utf8_fix (drop (n - 1) cs))"

fun valid_utf8 :: "string \<Rightarrow> bool" where
  "valid_utf8 [] = True"
| "valid_utf8 (c # cs) =
     (let n = rune_len (c # cs) in n \<noteq> 0 \<and> valid_utf8 (drop (n - 1) cs))"

definition utf8_enc :: "nat \<Rightarrow> string" where
  "utf8_enc r =
     (if r < 0x80 then [char_of r]
      else if r < 0x800 then [char_of (0xC0 + r div 64), char_of (0x80 + r mod 64)]
      else if r < 0x10000 then
        [char_of (0xE0 + r div 4096), char_of (0x80 + r div 64 mod 64), char_of (0x80 + r mod 64)]
      else [char_of (0xF0 + r div 262144), char_of (0x80 + r div 4096 mod 64),
            char_of (0x80 + r div 64 mod 64), char_of (0x80 + r mod 64)])"

section \<open>String literals\<close>

definition hex_val :: "char \<Rightarrow> nat option" where
  "hex_val c =
     (let n = (of_char c :: nat) in
      if 48 \<le> n \<and> n \<le> 57 then Some (n - 48)
      else if 97 \<le> n \<and> n \<le> 102 then Some (n - 87)
      else if 65 \<le> n \<and> n \<le> 70 then Some (n - 55) else None)"

fun hex4 :: "string \<Rightarrow> nat option" where
  "hex4 (a # b # c # d # _) =
     (case (hex_val a, hex_val b, hex_val c, hex_val d) of
        (Some w, Some x, Some y, Some z) \<Rightarrow> Some (4096 * w + 256 * x + 16 * y + z)
      | _ \<Rightarrow> None)"
| "hex4 _ = None"

definition getu4 :: "string \<Rightarrow> nat option" where
  "getu4 s = (case s of a # b # r \<Rightarrow> if a = CHR 0x5C \<and> b = CHR ''u'' then hex4 r else None | _ \<Rightarrow> None)"

definition simple_escape :: "char \<Rightarrow> char" where
  "simple_escape e =
     (if e = CHR ''b'' then CHR 0x08 else if e = CHR ''f'' then CHR 0x0C
      else if e = CHR ''n'' then CHR 0x0A else if e = CHR ''r'' then CHR 0x0D
      else if e = CHR ''t'' then CHR 0x09 else e)"

definition high_surrogate :: "nat \<Rightarrow> bool" where
  "high_surrogate r \<longleftrightarrow> 0xD800 \<le> r \<and> r < 0xDC00"

definition low_surrogate :: "nat \<Rightarrow> bool" where
  "low_surrogate r \<longleftrightarrow> 0xDC00 \<le> r \<and> r < 0xE000"

text \<open>\<open>unquoteBytes\<close> on a scanned literal without its quotes.\<close>

fun unquote :: "string \<Rightarrow> string" where
  "unquote [] = []"
| "unquote (c # cs) =
     (if c = CHR 0x5C then
        (case cs of [] \<Rightarrow> []
         | e # r \<Rightarrow>
            if e \<noteq> CHR ''u'' then simple_escape e # unquote r
            else (case hex4 r of None \<Rightarrow> []
              | Some u \<Rightarrow>
                 if high_surrogate u \<or> low_surrogate u then
                   (case getu4 (drop 4 r) of
                      Some v \<Rightarrow>
                        if high_surrogate u \<and> low_surrogate v
                        then utf8_enc (0x10000 + (u - 0xD800) * 1024 + (v - 0xDC00)) @ unquote (drop 10 r)
                        else rune_error @ unquote (drop 4 r)
                    | None \<Rightarrow> rune_error @ unquote (drop 4 r))
                 else utf8_enc u @ unquote (drop 4 r)))
      else (let n = rune_len (c # cs) in
            if n = 0 then rune_error @ unquote cs
            else take n (c # cs) @ unquote (drop (n - 1) cs)))"

text \<open>\<open>appendString(s, escapeHTML)\<close>, without the quotes.\<close>

definition hex_lower :: "nat \<Rightarrow> string" where
  "hex_lower n = [hex_digit (n div 16), hex_digit (n mod 16)]"

definition escape_ascii :: "bool \<Rightarrow> char \<Rightarrow> string" where
  "escape_ascii html c =
     (let n = (of_char c :: nat) in
      if c = CHR 0x22 \<or> c = CHR 0x5C then [CHR 0x5C, c]
      else if n = 8 then [CHR 0x5C, CHR ''b''] else if n = 12 then [CHR 0x5C, CHR ''f'']
      else if n = 10 then [CHR 0x5C, CHR ''n''] else if n = 13 then [CHR 0x5C, CHR ''r'']
      else if n = 9 then [CHR 0x5C, CHR ''t'']
      else if n < 32 \<or> html \<and> (c = CHR ''<'' \<or> c = CHR ''>'' \<or> c = CHR ''&'')
        then [CHR 0x5C, CHR ''u'', CHR ''0'', CHR ''0''] @ hex_lower n
      else [c])"

fun escape :: "bool \<Rightarrow> string \<Rightarrow> string" where
  "escape html [] = []"
| "escape html (c # cs) =
     (let n = rune_len (c # cs) in
      if n = 1 then escape_ascii html c @ escape html cs
      else if n = 0 then [CHR 0x5C, CHR ''u'', CHR ''f'', CHR ''f'', CHR ''f'', CHR ''d''] @ escape html cs
      else if take n (c # cs) = [CHR 0xE2, CHR 0x80, CHR 0xA8]
        then [CHR 0x5C, CHR ''u'', CHR ''2'', CHR ''0'', CHR ''2'', CHR ''8''] @ escape html (drop (n - 1) cs)
      else if take n (c # cs) = [CHR 0xE2, CHR 0x80, CHR 0xA9]
        then [CHR 0x5C, CHR ''u'', CHR ''2'', CHR ''0'', CHR ''2'', CHR ''9''] @ escape html (drop (n - 1) cs)
      else take n (c # cs) @ escape html (drop (n - 1) cs))"

definition quote :: "bool \<Rightarrow> string \<Rightarrow> string" where
  "quote html s = CHR 0x22 # escape html s @ [CHR 0x22]"

section \<open>Values, tokens and the scanner\<close>

text \<open>\<open>JRaw\<close> is a \<open>json.RawMessage\<close> put into a response; the parser never makes one.\<close>

datatype json =
    JNull
  | JBool bool
  | JNum string
  | JStr string
  | JArr "json list"
  | JObj "(string \<times> json) list"
  | JRaw string

datatype tok = TLBrace | TRBrace | TLBrack | TRBrack | TColon | TComma
  | TStr string | TNum string | TTrue | TFalse | TNull

datatype lexmode =
    LN
  | LS string
  | LE string
  | LU nat string
  | LNum string
  | LLit string

definition json_space :: "char \<Rightarrow> bool" where
  "json_space c \<longleftrightarrow> (let n = (of_char c :: nat) in n = 32 \<or> n = 9 \<or> n = 10 \<or> n = 13)"

definition dig :: "char \<Rightarrow> bool" where
  "dig c \<longleftrightarrow> byte_in c 48 57"

definition num_char :: "char \<Rightarrow> bool" where
  "num_char c \<longleftrightarrow> dig c \<or> c = CHR ''-'' \<or> c = CHR ''+'' \<or> c = CHR ''.'' \<or> c = CHR ''e'' \<or> c = CHR ''E''"

definition digits1 :: "string \<Rightarrow> string option" where
  "digits1 s = (case s of c # r \<Rightarrow> if dig c then Some (dropWhile dig r) else None | [] \<Rightarrow> None)"

definition num_exponent :: "string \<Rightarrow> bool" where
  "num_exponent s =
     (case s of [] \<Rightarrow> True
      | c # r \<Rightarrow> (c = CHR ''e'' \<or> c = CHR ''E'') \<and>
          digits1 (case r of d # r' \<Rightarrow> if d = CHR ''+'' \<or> d = CHR ''-'' then r' else r | [] \<Rightarrow> r) = Some [])"

definition num_fraction :: "string \<Rightarrow> bool" where
  "num_fraction s =
     (case s of c # r \<Rightarrow>
        if c = CHR ''.'' then (case digits1 r of None \<Rightarrow> False | Some r' \<Rightarrow> num_exponent r')
        else num_exponent s
      | [] \<Rightarrow> True)"

text \<open>The number grammar: an optional minus, an integer without leading zeros, a fraction, an exponent.\<close>

definition valid_number :: "string \<Rightarrow> bool" where
  "valid_number s =
     (let r = (case s of c # r \<Rightarrow> if c = CHR ''-'' then r else s | [] \<Rightarrow> s) in
      case r of [] \<Rightarrow> False
      | c # r' \<Rightarrow> if c = CHR ''0'' then num_fraction r'
                  else dig c \<and> num_fraction (dropWhile dig r'))"

definition num_tok :: "string \<Rightarrow> tok option" where
  "num_tok acc = (if valid_number (rev acc) then Some (TNum (rev acc)) else None)"

definition lit_tok :: "string \<Rightarrow> tok option" where
  "lit_tok acc =
     (if rev acc = ''true'' then Some TTrue else if rev acc = ''false'' then Some TFalse
      else if rev acc = ''null'' then Some TNull else None)"

definition lower_letter :: "char \<Rightarrow> bool" where
  "lower_letter c \<longleftrightarrow> byte_in c 97 122"

text \<open>One character between tokens: the tokens it completes and the next mode.\<close>

definition lex_start :: "char \<Rightarrow> (tok list \<times> lexmode) option" where
  "lex_start c =
     (if json_space c then Some ([], LN)
      else if c = CHR ''{'' then Some ([TLBrace], LN) else if c = CHR ''}'' then Some ([TRBrace], LN)
      else if c = CHR ''['' then Some ([TLBrack], LN) else if c = CHR '']'' then Some ([TRBrack], LN)
      else if c = CHR '':'' then Some ([TColon], LN) else if c = CHR '','' then Some ([TComma], LN)
      else if c = CHR 0x22 then Some ([], LS [])
      else if dig c \<or> c = CHR ''-'' then Some ([], LNum [c])
      else if lower_letter c then Some ([], LLit [c])
      else None)"

definition lex_step :: "lexmode \<Rightarrow> char \<Rightarrow> (tok list \<times> lexmode) option" where
  "lex_step m c =
     (case m of
        LN \<Rightarrow> lex_start c
      | LS acc \<Rightarrow>
          if c = CHR 0x22 then Some ([TStr (unquote (rev acc))], LN)
          else if c = CHR 0x5C then Some ([], LE (c # acc))
          else if byte_in c 0 31 then None
          else Some ([], LS (c # acc))
      | LE acc \<Rightarrow>
          if c = CHR ''u'' then Some ([], LU 4 (c # acc))
          else if c \<in> {CHR ''b'', CHR ''f'', CHR ''n'', CHR ''r'', CHR ''t'', CHR 0x5C, CHR ''/'', CHR 0x22}
          then Some ([], LS (c # acc)) else None
      | LU n acc \<Rightarrow>
          if hex_val c = None then None
          else if n \<le> 1 then Some ([], LS (c # acc)) else Some ([], LU (n - 1) (c # acc))
      | LNum acc \<Rightarrow>
          if num_char c then Some ([], LNum (c # acc))
          else (case (num_tok acc, lex_start c) of
                  (Some t, Some (ts, m)) \<Rightarrow> Some (t # ts, m) | _ \<Rightarrow> None)
      | LLit acc \<Rightarrow>
          if lower_letter c then Some ([], LLit (c # acc))
          else (case (lit_tok acc, lex_start c) of
                  (Some t, Some (ts, m)) \<Rightarrow> Some (t # ts, m) | _ \<Rightarrow> None))"

definition lex_end :: "lexmode \<Rightarrow> tok list option" where
  "lex_end m =
     (case m of LN \<Rightarrow> Some [] | LNum acc \<Rightarrow> map_option (\<lambda>t. [t]) (num_tok acc)
      | LLit acc \<Rightarrow> map_option (\<lambda>t. [t]) (lit_tok acc) | _ \<Rightarrow> None)"

fun lex :: "lexmode \<Rightarrow> string \<Rightarrow> tok list option" where
  "lex m [] = lex_end m"
| "lex m (c # cs) =
     (case lex_step m c of None \<Rightarrow> None
      | Some (ts, m') \<Rightarrow> map_option ((@) ts) (lex m' cs))"

section \<open>The parser\<close>

text \<open>
  Open containers on a stack, innermost first; an object waiting for the value of
  a key is an \<open>FKey\<close>.  Nesting deeper than \<open>maxNestingDepth\<close> is an error.
\<close>

datatype frame = FArr "json list" | FObj "(string \<times> json) list" | FKey "(string \<times> json) list" string

datatype expect = PVal | PValOrEnd | PKey | PKeyOrEnd | PColon string | PAfter

definition maxNestingDepth :: nat where "maxNestingDepth = 10000"

definition scalar :: "tok \<Rightarrow> json option" where
  "scalar t = (case t of TStr s \<Rightarrow> Some (JStr s) | TNum s \<Rightarrow> Some (JNum s)
     | TTrue \<Rightarrow> Some (JBool True) | TFalse \<Rightarrow> Some (JBool False) | TNull \<Rightarrow> Some JNull | _ \<Rightarrow> None)"

text \<open>A finished value: the document's, or an element of the innermost container.\<close>

definition attach :: "json \<Rightarrow> frame list \<Rightarrow> (json + frame list) option" where
  "attach v st =
     (case st of [] \<Rightarrow> Some (Inl v)
      | FArr vs # st' \<Rightarrow> Some (Inr (FArr (vs @ [v]) # st'))
      | FKey ms k # st' \<Rightarrow> Some (Inr (FObj (ms @ [(k, v)]) # st'))
      | FObj _ # _ \<Rightarrow> None)"

definition value_start :: "tok \<Rightarrow> frame list \<Rightarrow> (json + (expect \<times> frame list)) option" where
  "value_start t st =
     (if t = TLBrace then
        (if length st < maxNestingDepth then Some (Inr (PKeyOrEnd, FObj [] # st)) else None)
      else if t = TLBrack then
        (if length st < maxNestingDepth then Some (Inr (PValOrEnd, FArr [] # st)) else None)
      else (case scalar t of None \<Rightarrow> None
        | Some v \<Rightarrow> map_option (map_sum id (\<lambda>s. (PAfter, s))) (attach v st)))"

definition close :: "json \<Rightarrow> frame list \<Rightarrow> (json + (expect \<times> frame list)) option" where
  "close v st = map_option (map_sum id (\<lambda>s. (PAfter, s))) (attach v st)"

definition parse_step :: "expect \<Rightarrow> frame list \<Rightarrow> tok \<Rightarrow> (json + (expect \<times> frame list)) option" where
  "parse_step e st t =
     (case e of
        PVal \<Rightarrow> value_start t st
      | PValOrEnd \<Rightarrow>
          if t = TRBrack then (case st of FArr vs # st' \<Rightarrow> close (JArr vs) st' | _ \<Rightarrow> None)
          else value_start t st
      | PKey \<Rightarrow>
          (case t of TStr k \<Rightarrow> Some (Inr (PColon k, st)) | _ \<Rightarrow> None)
      | PKeyOrEnd \<Rightarrow>
          (case t of TStr k \<Rightarrow> Some (Inr (PColon k, st))
           | TRBrace \<Rightarrow> (case st of FObj ms # st' \<Rightarrow> close (JObj ms) st' | _ \<Rightarrow> None)
           | _ \<Rightarrow> None)
      | PColon k \<Rightarrow>
          if t = TColon then (case st of FObj ms # st' \<Rightarrow> Some (Inr (PVal, FKey ms k # st')) | _ \<Rightarrow> None)
          else None
      | PAfter \<Rightarrow>
          (case st of
             FArr vs # st' \<Rightarrow>
               if t = TComma then Some (Inr (PVal, st))
               else if t = TRBrack then close (JArr vs) st' else None
           | FObj ms # st' \<Rightarrow>
               if t = TComma then Some (Inr (PKey, st))
               else if t = TRBrace then close (JObj ms) st' else None
           | _ \<Rightarrow> None))"

fun parse_toks :: "expect \<Rightarrow> frame list \<Rightarrow> tok list \<Rightarrow> json option" where
  "parse_toks e st [] = None"
| "parse_toks e st (t # ts) =
     (case parse_step e st t of None \<Rightarrow> None
      | Some (Inl v) \<Rightarrow> if ts = [] then Some v else None
      | Some (Inr (e', st')) \<Rightarrow> parse_toks e' st' ts)"

definition json_parse :: "string \<Rightarrow> json option" where
  "json_parse s = Option.bind (lex LN s) (parse_toks PVal [])"

section \<open>Decoding into struct fields\<close>

text \<open>
  A key selects a field by its exact name or, failing that, by its folded name.
  \<open>foldName\<close> maps ASCII letters to upper case; the only other code points that fold
  to ASCII are U+017F (to S) and U+212A (to K).
\<close>

fun foldName :: "string \<Rightarrow> string" where
  "foldName [] = []"
| "foldName (c # cs) =
     (if take 2 (c # cs) = [CHR 0xC5, CHR 0xBF] then CHR ''S'' # foldName (drop 1 cs)
      else if take 3 (c # cs) = [CHR 0xE2, CHR 0x84, CHR 0xAA] then CHR ''K'' # foldName (drop 2 cs)
      else upper_char c # foldName cs)"

definition match_field :: "string list \<Rightarrow> string \<Rightarrow> string option" where
  "match_field names key =
     (case find (\<lambda>n. n = key) names of Some n \<Rightarrow> Some n
      | None \<Rightarrow> find (\<lambda>n. foldName n = foldName key) names)"

text \<open>
  The fields of a struct are a map from names to values; a missing one is the empty
  string.  \<open>null\<close> leaves a field alone, a value of another type is an error that
  does not stop the decoding, the last of several equal keys wins.
\<close>

type_synonym fields = "string \<Rightarrow> string"

fun assign_strings :: "string list \<Rightarrow> (string \<times> json) list \<Rightarrow> fields \<times> bool \<Rightarrow> fields \<times> bool" where
  "assign_strings names [] st = st"
| "assign_strings names ((k, v) # ms) (env, err) =
     (case match_field names k of None \<Rightarrow> assign_strings names ms (env, err)
      | Some n \<Rightarrow>
         (case v of JStr s \<Rightarrow> assign_strings names ms (env(n := s), err)
          | JNull \<Rightarrow> assign_strings names ms (env, err)
          | _ \<Rightarrow> assign_strings names ms (env, True)))"

definition no_fields :: fields where
  "no_fields = (\<lambda>_. [])"

text \<open>\<open>json.Unmarshal\<close> into a struct whose fields are all strings; None is an error.\<close>

definition unmarshal_strings :: "string list \<Rightarrow> string \<Rightarrow> fields option" where
  "unmarshal_strings names text =
     (case json_parse text of
        Some (JObj ms) \<Rightarrow>
          (let (env, err) = assign_strings names ms (no_fields, False) in if err then None else Some env)
      | Some JNull \<Rightarrow> Some no_fields
      | _ \<Rightarrow> None)"

section \<open>Encoding string fields\<close>

text \<open>The members of an object whose values are strings, keys being plain ASCII names.\<close>

fun render_members :: "bool \<Rightarrow> (string \<times> string) list \<Rightarrow> string" where
  "render_members html [] = []"
| "render_members html [(k, v)] = quote html k @ CHR '':'' # quote html v"
| "render_members html ((k, v) # m # ms) =
     quote html k @ CHR '':'' # quote html v @ CHR '','' # render_members html (m # ms)"

definition render_strings :: "bool \<Rightarrow> (string \<times> string) list \<Rightarrow> string" where
  "render_strings html ms = CHR ''{'' # render_members html ms @ ''}''"

end
