(* ===== verification/Http.thy ===== *)
theory Http
  imports Json
begin

text \<open>
  The part of \<open>net/http\<close> and \<open>net/url\<close> the handlers use: header maps with
  canonical keys, requests with a body that may break off, query strings, JSON
  and plain responses.  The model's requests and responses are the values a
  handler sees and produces; sockets and the HTTP grammar are not modelled.
\<close>

section \<open>Headers\<close>

text \<open>
  A header maps a key to its values; an absent key has none.  \<open>canonicalKey\<close> is
  \<open>textproto.CanonicalMIMEHeaderKey\<close>: a key that is not a token is left as it is.
\<close>

type_synonym header = "string \<Rightarrow> string list"

definition token_char :: "char \<Rightarrow> bool" where
  "token_char c \<longleftrightarrow>
     (let n = (of_char c :: nat) in
      48 \<le> n \<and> n \<le> 57 \<or> 65 \<le> n \<and> n \<le> 90 \<or> 97 \<le> n \<and> n \<le> 122 \<or> c \<in> set ''!#$%&*+-.^_`|~'' \<or> n = 39)"

fun canon_case :: "bool \<Rightarrow> string \<Rightarrow> string" where
  "canon_case up [] = []"
| "canon_case up (c # cs) = (if up then upper_char c else lower_char c) # canon_case (c = CHR ''-'') cs"

definition canonicalKey :: "string \<Rightarrow> string" where
  "canonicalKey k = (if list_all token_char k then canon_case True k else k)"

definition no_header :: header where
  "no_header = (\<lambda>_. [])"

definition Get :: "header \<Rightarrow> string \<Rightarrow> string" where
  "Get h k = (case h (canonicalKey k) of [] \<Rightarrow> [] | v # _ \<Rightarrow> v)"

definition Set :: "header \<Rightarrow> string \<Rightarrow> string \<Rightarrow> header" where
  "Set h k v = h(canonicalKey k := [v])"

definition Del :: "header \<Rightarrow> string \<Rightarrow> header" where
  "Del h k = h(canonicalKey k := [])"

lemma Get_Set: "Get (Set h k v) l = (if canonicalKey k = canonicalKey l then v else Get h l)"
  by (auto simp: Get_def Set_def)

lemma Get_Del: "Get (Del h k) l = (if canonicalKey k = canonicalKey l then [] else Get h l)"
  by (auto simp: Get_def Del_def)

lemma length_canon_case [simp]: "length (canon_case b s) = length s"
  by (induction b s rule: canon_case.induct) auto

lemma length_canonicalKey [simp]: "length (canonicalKey k) = length k"
  by (simp add: canonicalKey_def)

section \<open>Requests\<close>

text \<open>
  \<open>body\<close> is what can be read of the body before it ends or, when \<open>bodyBroken\<close>, before
  reading fails.
\<close>

record request =
  meth :: string
  path :: string
  rawQuery :: string
  hdr :: header
  body :: string
  bodyBroken :: bool
  RemoteAddr :: string

text \<open>\<open>io.ReadAll(io.LimitReader(r.Body, n))\<close>; None is a read error.\<close>

definition readLimited :: "nat \<Rightarrow> request \<Rightarrow> string option" where
  "readLimited n r = (if bodyBroken r \<and> length (body r) < n then None else Some (take n (body r)))"

lemma readLimited_bound: "readLimited n r = Some s \<Longrightarrow> length s \<le> n"
  by (auto simp: readLimited_def split: if_splits)

section \<open>Query strings\<close>

text \<open>\<open>url.QueryUnescape\<close>: \<open>+\<close> is a space, \<open>%XX\<close> a byte, a bad escape an error.\<close>

fun QueryUnescape :: "string \<Rightarrow> string option" where
  "QueryUnescape [] = Some []"
| "QueryUnescape (c # cs) =
     (if c = CHR ''%'' then
        (case cs of a # b # r \<Rightarrow>
           (case (hex_val a, hex_val b) of
              (Some x, Some y) \<Rightarrow> map_option ((#) (char_of (16 * x + y))) (QueryUnescape r)
            | _ \<Rightarrow> None)
         | _ \<Rightarrow> None)
      else map_option ((#) (if c = CHR ''+'' then CHR '' '' else c)) (QueryUnescape cs))"

text \<open>
  \<open>url.ParseQuery\<close> as \<open>URL.Query\<close> uses it: the pairs that parse, in order; a
  piece with a semicolon or a bad escape is dropped.
\<close>

definition query_pair :: "string \<Rightarrow> (string \<times> string) option" where
  "query_pair piece =
     (if piece = [] \<or> CHR '';'' \<in> set piece then None
      else let (k, v) = (case Cut CHR ''='' piece of None \<Rightarrow> (piece, []) | Some kv \<Rightarrow> kv) in
           case (QueryUnescape k, QueryUnescape v) of
             (Some k', Some v') \<Rightarrow> Some (k', v') | _ \<Rightarrow> None)"

definition ParseQuery :: "string \<Rightarrow> (string \<times> string) list" where
  "ParseQuery q = List.map_filter query_pair (Split CHR ''&'' q)"

definition QueryGet :: "request \<Rightarrow> string \<Rightarrow> string" where
  "QueryGet r k = (case map_of (ParseQuery (rawQuery r)) k of None \<Rightarrow> [] | Some v \<Rightarrow> v)"

section \<open>Responses\<close>

datatype payload = Text string | Json json

record response =
  status :: nat
  headers :: "(string \<times> string) list"
  payload :: payload

definition json_type :: "string \<times> string" where
  "json_type = (''Content-Type'', ''application/json; charset=utf-8'')"

definition writeJSON :: "nat \<Rightarrow> json \<Rightarrow> response" where
  "writeJSON st b = \<lparr>status = st, headers = [json_type], payload = Json b\<rparr>"

definition errorJSON :: "nat \<Rightarrow> string \<Rightarrow> response" where
  "errorJSON st code = writeJSON st (JObj [(''error'', JStr code)])"

text \<open>\<open>http.Error\<close>: plain text, with a newline.\<close>

definition httpError :: "nat \<Rightarrow> string \<Rightarrow> response" where
  "httpError st msg =
     \<lparr>status = st,
      headers = [(''Content-Type'', ''text/plain; charset=utf-8''), (''X-Content-Type-Options'', ''nosniff'')],
      payload = Text (msg @ [CHR 0x0A])\<rparr>"

definition NotFound :: response where
  "NotFound = httpError 404 ''404 page not found''"

lemma response_simps [simp, http_simps]:
  "status (writeJSON st b) = st" "payload (writeJSON st b) = Json b"
  "status (errorJSON st c) = st" "status (httpError st m) = st" "status NotFound = 404"
  by (simp_all add: writeJSON_def errorJSON_def httpError_def NotFound_def)

section \<open>Identifier syntax\<close>

text \<open>The regular expressions of the handlers, as the predicates they denote.\<close>

definition lower_hex :: "char \<Rightarrow> bool" where
  "lower_hex c \<longleftrightarrow> c \<in> set ''0123456789abcdef''"

text \<open>\<open>^nxc_[A-Za-z0-9_-]{43}$\<close>\<close>

definition pathIDRegex :: "string \<Rightarrow> bool" where
  "pathIDRegex s \<longleftrightarrow> take 4 s = ''nxc_'' \<and> length s = 47 \<and> list_all b64_char (drop 4 s)"

definition dashes_at :: "nat list \<Rightarrow> string \<Rightarrow> bool" where
  "dashes_at ps s \<longleftrightarrow> list_all (\<lambda>i. (s ! i = CHR ''-'') = (i \<in> set ps) \<and> (i \<in> set ps \<or> lower_hex (s ! i))) [0..<length s]"

text \<open>\<open>^[0-9a-f]{8}-[0-9a-f]{4}-[0-9a-f]{4}-[0-9a-f]{4}-[0-9a-f]{12}$\<close>\<close>

definition uuidRegex :: "string \<Rightarrow> bool" where
  "uuidRegex s \<longleftrightarrow> length s = 36 \<and> dashes_at [8, 13, 18, 23] s"

text \<open>\<open>^[0-9a-f]{8}-[0-9a-f]{4}-7[0-9a-f]{3}-[89ab][0-9a-f]{3}-[0-9a-f]{12}$\<close>\<close>

definition uuidv7Regex :: "string \<Rightarrow> bool" where
  "uuidv7Regex s \<longleftrightarrow> uuidRegex s \<and> s ! 14 = CHR ''7'' \<and> s ! 19 \<in> set ''89ab''"

lemma uuidv7_not_Nil: "uuidv7Regex s \<Longrightarrow> s \<noteq> []"
  by (auto simp: uuidv7Regex_def uuidRegex_def)

lemma pathID_no_slash: "pathIDRegex s \<Longrightarrow> CHR ''/'' \<notin> set s"
proof
  assume p: "pathIDRegex s" and "CHR ''/'' \<in> set s"
  then have "CHR ''/'' \<in> set (take 4 s) \<or> CHR ''/'' \<in> set (drop 4 s)"
    by (metis Un_iff append_take_drop_id set_append)
  moreover have "\<not> b64_char CHR ''/''" by (simp add: b64_char_def b64_val_def)
  ultimately show False using p by (auto simp: pathIDRegex_def list_all_iff)
qed

end
