(* ===== verification/GoTime.thy ===== *)
theory GoTime
  imports GoText
begin

text \<open>
  Go's \<open>time\<close> package as the program uses it.  An instant (\<open>time.Time\<close>) is the
  number of nanoseconds since the Unix epoch, a \<open>time.Duration\<close> a signed 64-bit
  count of nanoseconds whose saturation and wrap-around are written out.  The
  canonical wire format \<open>2006-01-02T15:04:05Z\<close> is printed and parsed over the
  proleptic Gregorian calendar, as the library does.
\<close>

type_synonym time = int
type_synonym duration = int

abbreviation nanosecond_per_second :: int where
  "nanosecond_per_second \<equiv> 1000000000"

definition Second :: duration where "Second = 1000000000"
definition Minute :: duration where "Minute = 60 * Second"
definition Hour :: duration where "Hour = 60 * Minute"

lemmas duration_defs = Second_def Minute_def Hour_def

section \<open>The calendar\<close>

definition is_leap :: "int \<Rightarrow> bool" where
  "is_leap y \<longleftrightarrow> y mod 4 = 0 \<and> (y mod 100 \<noteq> 0 \<or> y mod 400 = 0)"

text \<open>Days from January 1 of year 1 to January 1 of year \<open>y\<close>.\<close>

definition days_before :: "int \<Rightarrow> int" where
  "days_before y = 365 * (y - 1) + (y - 1) div 4 - (y - 1) div 100 + (y - 1) div 400"

definition year_length :: "int \<Rightarrow> int" where
  "year_length y = (if is_leap y then 366 else 365)"

definition month_lengths :: "bool \<Rightarrow> nat list" where
  "month_lengths leap = [31, if leap then 29 else 28, 31, 30, 31, 30, 31, 31, 30, 31, 30, 31]"

definition daysIn :: "nat \<Rightarrow> int \<Rightarrow> nat" where
  "daysIn m y = month_lengths (is_leap y) ! (m - 1)"

definition days_before_month :: "bool \<Rightarrow> nat \<Rightarrow> nat" where
  "days_before_month leap m = sum_list (take (m - 1) (month_lengths leap))"

text \<open>The year and the day of the year (from 0) of a day counted from January 1 of year 1.\<close>

definition year_day :: "int \<Rightarrow> int \<times> int" where
  "year_day D =
     (let n400 = D div 146097; d1 = D mod 146097;
          n100 = min 3 (d1 div 36524); d2 = d1 - n100 * 36524;
          n4 = d2 div 1461; d3 = d2 mod 1461;
          n1 = min 3 (d3 div 365)
      in (400 * n400 + 100 * n100 + 4 * n4 + n1 + 1, d3 - 365 * n1))"

text \<open>The month (from 1) and the day (from 0) of a day of the year.\<close>

fun month_day :: "nat list \<Rightarrow> nat \<Rightarrow> nat \<times> nat" where
  "month_day [] d = (1, d)"
| "month_day (l # ls) d =
     (if d < l then (1, d) else (let (m, d') = month_day ls (d - l) in (Suc m, d')))"

definition unix_epoch_days :: int where
  "unix_epoch_days = 719162"

record civil =
  c_year :: int
  c_month :: nat
  c_day :: nat
  c_hour :: nat
  c_min :: nat
  c_sec :: nat

definition civil_of_unix :: "int \<Rightarrow> civil" where
  "civil_of_unix s =
     (let (y, yd) = year_day (s div 86400 + unix_epoch_days);
          (m, d) = month_day (month_lengths (is_leap y)) (nat yd);
          sod = nat (s mod 86400)
      in \<lparr>c_year = y, c_month = m, c_day = Suc d,
          c_hour = sod div 3600, c_min = sod div 60 mod 60, c_sec = sod mod 60\<rparr>)"

definition days_of_date :: "int \<Rightarrow> nat \<Rightarrow> nat \<Rightarrow> int" where
  "days_of_date y m d = days_before y + int (days_before_month (is_leap y) m) + int d - 1"

definition unix_of_civil :: "civil \<Rightarrow> int" where
  "unix_of_civil c =
     (days_of_date (c_year c) (c_month c) (c_day c) - unix_epoch_days) * 86400
       + int (c_hour c) * 3600 + int (c_min c) * 60 + int (c_sec c)"

definition valid_date :: "int \<Rightarrow> nat \<Rightarrow> nat \<Rightarrow> bool" where
  "valid_date y m d \<longleftrightarrow> 1 \<le> m \<and> m \<le> 12 \<and> 1 \<le> d \<and> d \<le> daysIn m y"

definition valid_civil :: "civil \<Rightarrow> bool" where
  "valid_civil c \<longleftrightarrow>
     valid_date (c_year c) (c_month c) (c_day c) \<and> c_hour c < 24 \<and> c_min c < 60 \<and> c_sec c < 60"

lemma div_plus_one:
  fixes x k :: int
  assumes "0 < k"
  shows "(x + 1) div k = x div k + (if (x + 1) mod k = 0 then 1 else 0)"
proof -
  define q r where "q = x div k" and "r = x mod k"
  have x: "x = k * q + r" "0 \<le> r" "r < k" using assms by (simp_all add: q_def r_def)
  show ?thesis
  proof (cases "r + 1 = k")
    case True
    then have e: "x + 1 = k * (q + 1) + 0" using x by (simp add: algebra_simps)
    have "(x + 1) div k = q + 1"
      by (rule int_div_pos_eq [OF e]) (use assms in auto)
    moreover have "(x + 1) mod k = 0"
      by (rule int_mod_pos_eq [OF e]) (use assms in auto)
    ultimately show ?thesis unfolding q_def by simp
  next
    case False
    then have e: "x + 1 = k * q + (r + 1)" "0 \<le> r + 1" "r + 1 < k" using x by simp_all
    have "(x + 1) div k = q" by (rule int_div_pos_eq [OF e])
    moreover have "(x + 1) mod k = r + 1" by (rule int_mod_pos_eq [OF e])
    ultimately show ?thesis using x(2) unfolding q_def by simp
  qed
qed

lemma days_before_Suc: "days_before (y + 1) = days_before y + year_length y"
proof -
  have s: "y div k = (y - 1) div k + (if y mod k = 0 then 1 else 0)" if "0 < k" for k :: int
    using div_plus_one [OF that, of "y - 1"] by simp
  have h: "y mod 100 = 0" if "y mod 400 = 0"
    using that dvd_trans [of 100 400 y] by (simp add: mod_eq_0_iff_dvd)
  have c: "y mod 4 = 0" if "y mod 100 = 0"
    using that dvd_trans [of 4 100 y] by (simp add: mod_eq_0_iff_dvd)
  define A B C where "A = (y - 1) div 4" and "B = (y - 1) div 100" and "C = (y - 1) div 400"
  have "days_before (y + 1) =
      365 * y + (A + (if y mod 4 = 0 then 1 else 0)) - (B + (if y mod 100 = 0 then 1 else 0))
        + (C + (if y mod 400 = 0 then 1 else 0))"
  proof -
    have "y div 4 = A + (if y mod 4 = 0 then 1 else 0)" unfolding A_def by (rule s) simp
    moreover have "y div 100 = B + (if y mod 100 = 0 then 1 else 0)" unfolding B_def by (rule s) simp
    moreover have "y div 400 = C + (if y mod 400 = 0 then 1 else 0)" unfolding C_def by (rule s) simp
    ultimately show ?thesis by (simp only: days_before_def add_diff_cancel_right')
  qed
  moreover have "days_before y = 365 * (y - 1) + A - B + C"
    by (simp add: days_before_def A_def B_def C_def)
  ultimately show ?thesis
    using h c by (cases "y mod 400 = 0"; cases "y mod 100 = 0"; cases "y mod 4 = 0")
      (simp_all add: year_length_def is_leap_def)
qed

lemma year_length_bounds: "365 \<le> year_length y" "year_length y \<le> 366"
  by (simp_all add: year_length_def)

lemma days_before_mono: "y \<le> z \<Longrightarrow> days_before y \<le> days_before z"
proof (induction z rule: int_ge_induct)
  case (step z)
  then show ?case using days_before_Suc [of z] year_length_bounds [of z] by simp
qed simp

lemma year_day_fields:
  assumes "year_day D = (y, yd)"
  obtains a b c e where "y = 400 * a + 100 * b + 4 * c + e + 1"
    and "D = 146097 * a + 36524 * b + 1461 * c + 365 * e + yd"
    and "0 \<le> b" "b \<le> 3" "0 \<le> c" "c \<le> 24" "0 \<le> e" "e \<le> 3" "0 \<le> yd"
    and "yd \<le> 365" "yd = 365 \<longrightarrow> e = 3 \<and> (c = 24 \<longrightarrow> b = 3)"
proof -
  define a d1 where "a = D div 146097" and "d1 = D mod 146097"
  define q r where "q = d1 div 36524" and "r = d1 mod 36524"
  define b where "b = min 3 q"
  define d2 where "d2 = d1 - b * 36524"
  define c d3 where "c = d2 div 1461" and "d3 = d2 mod 1461"
  define q1 r1 where "q1 = d3 div 365" and "r1 = d3 mod 365"
  define e where "e = min 3 q1"
  have D: "D = 146097 * a + d1" "0 \<le> d1" "d1 < 146097"
    by (simp_all add: a_def d1_def)
  have q: "d1 = 36524 * q + r" "0 \<le> r" "r < 36524"
    by (simp_all add: q_def r_def)
  have b: "0 \<le> b" "b \<le> 3" "0 \<le> d2" "d2 \<le> 36524" "d2 = 36524 \<longrightarrow> b = 3"
    using D q unfolding b_def d2_def min_def by (auto split: if_splits)
  have c: "d2 = 1461 * c + d3" "0 \<le> d3" "d3 < 1461"
    by (simp_all add: c_def d3_def)
  have c24: "0 \<le> c" "c \<le> 24" using b c by linarith+
  have q1: "d3 = 365 * q1 + r1" "0 \<le> r1" "r1 < 365"
    by (simp_all add: q1_def r1_def)
  have e: "0 \<le> e" "e \<le> 3" "0 \<le> d3 - 365 * e" "d3 - 365 * e \<le> 365" "d3 - 365 * e = 365 \<longrightarrow> e = 3"
    using c q1 unfolding e_def min_def by (auto split: if_splits)
  have y: "y = 400 * a + 100 * b + 4 * c + e + 1" and yd: "yd = d3 - 365 * e"
  proof -
    have "year_day D = (400 * a + 100 * b + 4 * c + e + 1, d3 - 365 * e)"
      unfolding year_day_def Let_def e_def q1_def d3_def c_def d2_def b_def q_def d1_def a_def
      by (rule refl)
    with assms show "y = 400 * a + 100 * b + 4 * c + e + 1" and "yd = d3 - 365 * e"
      by (simp_all del: diff_diff_eq)
  qed
  show ?thesis
  proof (rule that [of a b c e])
    show "D = 146097 * a + 36524 * b + 1461 * c + 365 * e + yd"
      using D c d2_def yd by linarith
    have "d2 = 36524" if "c = 24" "d3 = 1460" using that c by simp
    then show "yd = 365 \<longrightarrow> e = 3 \<and> (c = 24 \<longrightarrow> b = 3)"
      using e b yd by auto
  qed (use y b c24 e yd in auto)
qed

lemma year_day_correct:
  assumes "year_day D = (y, yd)"
  shows "days_before y + yd = D" and "0 \<le> yd" and "yd < year_length y"
proof -
  from assms obtain a b c e where f: "y = 400 * a + 100 * b + 4 * c + e + 1"
    "D = 146097 * a + 36524 * b + 1461 * c + 365 * e + yd"
    "0 \<le> b" "b \<le> 3" "0 \<le> c" "c \<le> 24" "0 \<le> e" "e \<le> 3" "0 \<le> yd"
    "yd \<le> 365" "yd = 365 \<longrightarrow> e = 3 \<and> (c = 24 \<longrightarrow> b = 3)"
    by (rule year_day_fields)
  have "(y - 1) div 4 = 100 * a + 25 * b + c"
    by (rule int_div_pos_eq [of _ _ _ e]) (use f in auto)
  moreover have "(y - 1) div 100 = 4 * a + b"
    by (rule int_div_pos_eq [of _ _ _ "4 * c + e"]) (use f in auto)
  moreover have "(y - 1) div 400 = a"
    by (rule int_div_pos_eq [of _ _ _ "100 * b + 4 * c + e"]) (use f in auto)
  ultimately show "days_before y + yd = D"
    using f by (simp add: days_before_def)
  show "0 \<le> yd" by fact
  have "is_leap y" if "e = 3" "c = 24 \<longrightarrow> b = 3"
  proof -
    have "y mod 4 = 0"
      by (rule int_mod_pos_eq [of _ _ "100 * a + 25 * b + c + 1"]) (use f that in auto)
    moreover have "y mod 400 = 0" if "c = 24"
      by (rule int_mod_pos_eq [of _ _ "a + 1"]) (use f that \<open>c = 24 \<longrightarrow> b = 3\<close> \<open>e = 3\<close> in auto)
    moreover have "y mod 100 = 4 * c + 4" if "c \<noteq> 24"
      by (rule int_mod_pos_eq [of _ _ "4 * a + b"]) (use f that \<open>e = 3\<close> in auto)
    ultimately show ?thesis using f(5) by (cases "c = 24") (auto simp: is_leap_def)
  qed
  then show "yd < year_length y" using f by (auto simp: year_length_def)
qed

text \<open>Months: the table search finds the month whose days contain the day of the year.\<close>

lemma month_day_correct:
  "month_day ls d = (m, d') \<Longrightarrow> d < sum_list ls \<Longrightarrow>
     1 \<le> m \<and> m \<le> length ls \<and> d' < ls ! (m - 1) \<and> sum_list (take (m - 1) ls) + d' = d"
proof (induction ls d arbitrary: m d' rule: month_day.induct)
  case (2 l ls d)
  show ?case
  proof (cases "d < l")
    case False
    then obtain k where k: "month_day ls (d - l) = (k, d')" "m = Suc k"
      using 2(2) by (auto split: prod.splits)
    with 2(1) [OF False] 2(3) False
    have "1 \<le> k \<and> k \<le> length ls \<and> d' < ls ! (k - 1) \<and> sum_list (take (k - 1) ls) + d' = d - l"
      by simp
    then show ?thesis using k(2) False by (cases k) auto
  qed (use 2 in auto)
qed simp

lemma sum_month_lengths: "int (sum_list (month_lengths (is_leap y))) = year_length y"
  by (simp add: month_lengths_def year_length_def)

lemma length_month_lengths [simp]: "length (month_lengths b) = 12"
  by (simp add: month_lengths_def)

lemma days_before_month_Suc:
  "1 \<le> m \<Longrightarrow> m \<le> 12 \<Longrightarrow>
     days_before_month (is_leap y) (Suc m) = days_before_month (is_leap y) m + daysIn m y"
  by (cases m) (simp_all add: days_before_month_def daysIn_def take_Suc_conv_app_nth)

lemma sum_list_take_mono: "i \<le> j \<Longrightarrow> sum_list (take i xs) \<le> sum_list (take j (xs :: nat list))"
proof -
  assume "i \<le> j"
  then have "take j xs = take i xs @ take (j - i) (drop i xs)"
    by (metis le_add_diff_inverse take_add)
  then show ?thesis by simp
qed

lemma days_before_month_mono: "m \<le> n \<Longrightarrow> days_before_month l m \<le> days_before_month l n"
  unfolding days_before_month_def by (rule sum_list_take_mono) simp

lemma days_before_month_le: "days_before_month (is_leap y) m \<le> sum_list (month_lengths (is_leap y))"
  using sum_list_take_mono [of "m - 1" "max (m - 1) 12" "month_lengths (is_leap y)"]
  by (simp add: days_before_month_def)


section \<open>Civil time and Unix seconds\<close>

lemma civil_of_unix_correct:
  shows "valid_civil (civil_of_unix s)" and "unix_of_civil (civil_of_unix s) = s"
proof -
  obtain y yd where y: "year_day (s div 86400 + unix_epoch_days) = (y, yd)" by fastforce
  obtain m d where m: "month_day (month_lengths (is_leap y)) (nat yd) = (m, d)" by fastforce
  define sod where "sod = nat (s mod 86400)"
  note yd = year_day_correct [OF y]
  have "nat yd < sum_list (month_lengths (is_leap y))"
    using yd(2,3) sum_month_lengths [of y] by linarith
  from month_day_correct [OF m this]
  have md: "1 \<le> m" "m \<le> 12" "d < daysIn m y" "int (days_before_month (is_leap y) m) + int d = yd"
    using yd(2) by (auto simp: daysIn_def days_before_month_def)
  have c: "civil_of_unix s = \<lparr>c_year = y, c_month = m, c_day = Suc d,
      c_hour = sod div 3600, c_min = sod div 60 mod 60, c_sec = sod mod 60\<rparr>"
    by (simp add: civil_of_unix_def y m sod_def Let_def)
  have sod: "sod < 86400" "int sod = s mod 86400" by (simp_all add: sod_def)
  have split: "sod = sod div 3600 * 3600 + sod div 60 mod 60 * 60 + sod mod 60"
  proof -
    have "sod div 3600 = sod div 60 div 60" by (simp add: div_mult2_eq [symmetric])
    then show ?thesis
      using div_mult_mod_eq [of sod 60] div_mult_mod_eq [of "sod div 60" 60] by linarith
  qed
  have "sod div 3600 < 24" using sod(1) by (simp add: div_less_iff_less_mult)
  then show "valid_civil (civil_of_unix s)"
    using md by (simp add: c valid_civil_def valid_date_def)
  have "unix_of_civil (civil_of_unix s) = s div 86400 * 86400 + int sod"
    using md(4) yd(1) arg_cong [OF split, of int]
    by (simp add: c unix_of_civil_def days_of_date_def algebra_simps)
  then show "unix_of_civil (civil_of_unix s) = s" by (simp add: sod)
qed

lemma days_of_date_bounds:
  assumes "valid_date y m d"
  shows "days_before y \<le> days_of_date y m d" and "days_of_date y m d < days_before (y + 1)"
    and "days_of_date y m d < days_before y + int (days_before_month (is_leap y) (Suc m))"
proof -
  have v: "1 \<le> m" "m \<le> 12" "1 \<le> d" "d \<le> daysIn m y"
    using assms by (auto simp: valid_date_def)
  show "days_before y \<le> days_of_date y m d" using v by (simp add: days_of_date_def)
  show lt: "days_of_date y m d < days_before y + int (days_before_month (is_leap y) (Suc m))"
    using v days_before_month_Suc [of m y] by (simp add: days_of_date_def)
  have "int (days_before_month (is_leap y) (Suc m)) \<le> year_length y"
    using days_before_month_le [of y "Suc m"] sum_month_lengths [of y] by linarith
  with lt show "days_of_date y m d < days_before (y + 1)" by (simp add: days_before_Suc)
qed

text \<open>The lexicographic order of dates and of civil times.\<close>

definition date_less :: "int \<times> nat \<times> nat \<Rightarrow> int \<times> nat \<times> nat \<Rightarrow> bool" where
  "date_less = (\<lambda>(y, m, d) (y', m', d'). y < y' \<or> y = y' \<and> (m < m' \<or> m = m' \<and> d < d'))"

definition civil_less :: "civil \<Rightarrow> civil \<Rightarrow> bool" where
  "civil_less a b \<longleftrightarrow>
     c_year a < c_year b \<or> c_year a = c_year b \<and>
    (c_month a < c_month b \<or> c_month a = c_month b \<and>
    (c_day a < c_day b \<or> c_day a = c_day b \<and>
    (c_hour a < c_hour b \<or> c_hour a = c_hour b \<and>
    (c_min a < c_min b \<or> c_min a = c_min b \<and> c_sec a < c_sec b))))"

lemma date_less_imp:
  assumes "valid_date y m d" "valid_date y' m' d'" "date_less (y, m, d) (y', m', d')"
  shows "days_of_date y m d < days_of_date y' m' d'"
proof -
  consider "y < y'" | "y = y'" "m < m'" | "y = y'" "m = m'" "d < d'"
    using assms(3) by (auto simp: date_less_def)
  then show ?thesis
  proof cases
    case 1
    then show ?thesis
      using days_of_date_bounds(2) [OF assms(1)] days_of_date_bounds(1) [OF assms(2)]
        days_before_mono [of "y + 1" y'] by linarith
  next
    case 2
    then have "days_before_month (is_leap y) (Suc m) \<le> days_before_month (is_leap y) m'"
      by (intro days_before_month_mono) simp
    with 2 assms(2) show ?thesis
      using days_of_date_bounds(3) [OF assms(1)] by (simp add: days_of_date_def valid_date_def)
  next
    case 3
    then show ?thesis by (simp add: days_of_date_def)
  qed
qed

lemma civil_less_imp:
  assumes va: "valid_civil a" and vb: "valid_civil b" and less: "civil_less a b"
  shows "unix_of_civil a < unix_of_civil b"
proof -
  let ?D = "\<lambda>c. days_of_date (c_year c) (c_month c) (c_day c)"
  let ?s = "\<lambda>c. int (c_hour c) * 3600 + int (c_min c) * 60 + int (c_sec c)"
  have sod: "0 \<le> ?s c \<and> ?s c < 86400" if "valid_civil c" for c
    using that by (auto simp: valid_civil_def)
  have u: "unix_of_civil c = (?D c - unix_epoch_days) * 86400 + ?s c" for c
    by (simp add: unix_of_civil_def)
  consider "date_less (c_year a, c_month a, c_day a) (c_year b, c_month b, c_day b)"
    | "?D a = ?D b" "?s a < ?s b"
    using less va vb by (auto simp: civil_less_def date_less_def valid_civil_def)
  then show ?thesis
  proof cases
    case 1
    then have "?D a < ?D b" using va vb by (intro date_less_imp) (auto simp: valid_civil_def)
    then have "(?D a + 1 - unix_epoch_days) * 86400 \<le> (?D b - unix_epoch_days) * 86400" by simp
    then show ?thesis using sod [OF va] sod [OF vb] by (simp add: u algebra_simps)
  next
    case 2
    then show ?thesis by (simp add: u)
  qed
qed

lemma civil_less_total: "civil_less a b \<or> a = b \<or> civil_less b a"
proof -
  have "a = b"
    if "c_year a = c_year b" "c_month a = c_month b" "c_day a = c_day b"
      "c_hour a = c_hour b" "c_min a = c_min b" "c_sec a = c_sec b"
    using that by (intro civil.equality) simp_all
  then show ?thesis unfolding civil_less_def by (metis linorder_less_linear)
qed

lemma unix_of_civil_inj:
  assumes "valid_civil a" "valid_civil b" "unix_of_civil a = unix_of_civil b"
  shows "a = b"
  using civil_less_total [of a b] civil_less_imp assms by fastforce

lemma civil_of_unix_inverse: "valid_civil c \<Longrightarrow> civil_of_unix (unix_of_civil c) = c"
  using unix_of_civil_inj civil_of_unix_correct by blast

lemma civil_less_iff: "civil_less (civil_of_unix s) (civil_of_unix t) \<longleftrightarrow> s < t"
proof
  assume "civil_less (civil_of_unix s) (civil_of_unix t)"
  from civil_less_imp [OF _ _ this] show "s < t" by (simp add: civil_of_unix_correct)
next
  assume "s < t"
  then show "civil_less (civil_of_unix s) (civil_of_unix t)"
    using civil_less_total [of "civil_of_unix s" "civil_of_unix t"]
      civil_less_imp [of "civil_of_unix t" "civil_of_unix s"] civil_of_unix_correct
    by (metis less_asym)
qed

section \<open>Decimal digits\<close>

definition digit_char :: "nat \<Rightarrow> char" where
  "digit_char n = char_of (48 + n)"

definition digit_val :: "char \<Rightarrow> nat option" where
  "digit_val c = (let n = (of_char c :: nat) in if 48 \<le> n \<and> n \<le> 57 then Some (n - 48) else None)"

text \<open>\<open>pad w n\<close>: the last \<open>w\<close> decimal digits of \<open>n\<close>; \<open>dec n\<close>: all of them.\<close>

fun pad :: "nat \<Rightarrow> nat \<Rightarrow> string" where
  "pad 0 n = []"
| "pad (Suc w) n = pad w (n div 10) @ [digit_char (n mod 10)]"

fun dec :: "nat \<Rightarrow> string" where
  "dec n = (if n < 10 then [digit_char n] else dec (n div 10) @ [digit_char (n mod 10)])"

declare dec.simps [simp del]

text \<open>\<open>appendInt(b, x, width)\<close> of package time.\<close>

definition appendInt :: "nat \<Rightarrow> int \<Rightarrow> string" where
  "appendInt w x =
     (if x < 0 then ''-'' else []) @
     (let n = nat \<bar>x\<bar> in if n < 10 ^ w then pad w n else dec n)"

lemma of_char_digit [simp]: "n < 10 \<Longrightarrow> of_char (digit_char n) = 48 + n"
  by (simp add: digit_char_def)

lemma digit_val_digit [simp]: "n < 10 \<Longrightarrow> digit_val (digit_char n) = Some n"
  by (simp add: digit_val_def)

lemma digit_char_less: "m < 10 \<Longrightarrow> n < 10 \<Longrightarrow> digit_char m < digit_char n \<longleftrightarrow> m < n"
  by (simp add: char_less_iff)

lemma digit_char_inj: "m < 10 \<Longrightarrow> n < 10 \<Longrightarrow> digit_char m = digit_char n \<longleftrightarrow> m = n"
  by (metis digit_val_digit option.inject)

lemma length_pad [simp]: "length (pad w n) = w"
  by (induction w arbitrary: n) auto

lemma pad_less_aux:
  "m < 10 ^ w \<Longrightarrow> n < 10 ^ w \<Longrightarrow>
     (pad w m < pad w n \<longleftrightarrow> m < n) \<and> (pad w m = pad w n \<longleftrightarrow> m = n)"
proof (induction w arbitrary: m n)
  case (Suc w)
  have q: "m div 10 < 10 ^ w" "n div 10 < 10 ^ w" using Suc.prems by simp_all
  have lex: "m < n \<longleftrightarrow> m div 10 < n div 10 \<or> m div 10 = n div 10 \<and> m mod 10 < n mod 10"
  proof (cases "m div 10 = n div 10")
    case True
    then show ?thesis by (metis div_mult_mod_eq nat_add_left_cancel_less nat_neq_iff)
  next
    case False
    then show ?thesis using div_le_mono [of m n 10] div_le_mono [of n m 10] by linarith
  qed
  have eq: "m = n \<longleftrightarrow> m div 10 = n div 10 \<and> m mod 10 = n mod 10"
    by (metis div_mult_mod_eq)
  have "pad (Suc w) m < pad (Suc w) n \<longleftrightarrow> m div 10 < n div 10 \<or> m div 10 = n div 10 \<and> m mod 10 < n mod 10"
    using Suc.IH [OF q] by (simp add: append_less_append_iff digit_char_less)
  moreover have "pad (Suc w) m = pad (Suc w) n \<longleftrightarrow> m div 10 = n div 10 \<and> m mod 10 = n mod 10"
    using Suc.IH [OF q] by (simp add: digit_char_inj)
  ultimately show ?case by (simp only: lex [symmetric] eq [symmetric])
qed simp

lemma pad_append_less:
  "m < 10 ^ w \<Longrightarrow> n < 10 ^ w \<Longrightarrow>
     pad w m @ s < pad w n @ t \<longleftrightarrow> m < n \<or> m = n \<and> s < t"
  using pad_less_aux [of m w n] by (simp add: append_less_append_iff)

section \<open>Printing\<close>

text \<open>
  \<open>t.UTC().Format("2006-01-02T15:04:05Z")\<close>; on a UTC instant the layout
  \<open>time.RFC3339\<close> prints the same text.
\<close>

definition format_civil :: "civil \<Rightarrow> string" where
  "format_civil c =
     appendInt 4 (c_year c) @ ''-'' @ pad 2 (c_month c) @ ''-'' @ pad 2 (c_day c) @ ''T'' @
     pad 2 (c_hour c) @ '':'' @ pad 2 (c_min c) @ '':'' @ pad 2 (c_sec c) @ ''Z''"

definition Format_wire :: "time \<Rightarrow> string" where
  "Format_wire t = format_civil (civil_of_unix (t div nanosecond_per_second))"

text \<open>Instants whose year has four digits: from year 0 to year 9999.\<close>

definition wire_range :: "time \<Rightarrow> bool" where
  "wire_range t \<longleftrightarrow>
     -62167219200 * nanosecond_per_second \<le> t \<and> t < 253402300800 * nanosecond_per_second"

lemma wire_range_year:
  assumes "wire_range t"
  shows "0 \<le> c_year (civil_of_unix (t div nanosecond_per_second))"
    and "c_year (civil_of_unix (t div nanosecond_per_second)) \<le> 9999"
proof -
  let ?s = "t div nanosecond_per_second" and ?c = "civil_of_unix (t div nanosecond_per_second)"
  let ?D = "days_of_date (c_year ?c) (c_month ?c) (c_day ?c)"
  have s: "-62167219200 \<le> ?s" "?s < 253402300800"
    using assms by (auto simp: wire_range_def)
  have v: "valid_date (c_year ?c) (c_month ?c) (c_day ?c)"
    "c_hour ?c < 24" "c_min ?c < 60" "c_sec ?c < 60"
    using civil_of_unix_correct(1) [of ?s] by (auto simp: valid_civil_def)
  have u: "(?D - unix_epoch_days) * 86400 + int (c_hour ?c) * 3600 + int (c_min ?c) * 60 + int (c_sec ?c) = ?s"
    using civil_of_unix_correct(2) [of ?s] by (simp add: unix_of_civil_def)
  have "?D < days_before 10000" "days_before 0 \<le> ?D"
    using u v s by (simp_all add: unix_epoch_days_def days_before_def)
  with days_of_date_bounds(1,2) [OF v(1)] days_before_mono [of 10000 "c_year ?c"]
    days_before_mono [of "c_year ?c + 1" 0]
  show "0 \<le> c_year ?c" and "c_year ?c \<le> 9999" by linarith+
qed

lemma valid_civil_digits:
  "valid_civil c \<Longrightarrow> c_month c < 10\<^sup>2 \<and> c_day c < 10\<^sup>2 \<and> c_hour c < 10\<^sup>2 \<and> c_min c < 10\<^sup>2 \<and> c_sec c < 10\<^sup>2"
proof -
  assume v: "valid_civil c"
  have "daysIn m y \<le> 31" if "1 \<le> m" "m \<le> 12" for m y
  proof -
    have "m - 1 < 12" using that by simp
    then have "month_lengths (is_leap y) ! (m - 1) \<in> set (month_lengths (is_leap y))"
      by (intro nth_mem) simp
    then show ?thesis by (auto simp: daysIn_def month_lengths_def split: if_splits)
  qed
  from this [of "c_month c" "c_year c"] v have "c_day c \<le> 31"
    by (simp add: valid_civil_def valid_date_def)
  with v show ?thesis by (simp add: valid_civil_def valid_date_def)
qed

lemma appendInt_year:
  assumes "0 \<le> y" "y \<le> 9999"
  shows "appendInt 4 y = pad 4 (nat y)" and "nat y < 10 ^ 4"
proof -
  show "nat y < 10 ^ 4" using assms by (simp add: nat_less_iff)
  then show "appendInt 4 y = pad 4 (nat y)" using assms by (simp add: appendInt_def Let_def)
qed

lemma format_civil_less_iff:
  assumes a: "valid_civil a" "0 \<le> c_year a" "c_year a \<le> 9999"
    and b: "valid_civil b" "0 \<le> c_year b" "c_year b \<le> 9999"
  shows "format_civil a < format_civil b \<longleftrightarrow> civil_less a b"
proof -
  note d = valid_civil_digits [OF a(1)] valid_civil_digits [OF b(1)]
  show ?thesis
    using d appendInt_year [OF a(2,3)] appendInt_year [OF b(2,3)] a b
    by (simp add: format_civil_def civil_less_def pad_append_less nat_less_eq_zless eq_nat_nat_iff
        del: append.simps append_Cons power2_eq_square) linarith
qed

text \<open>
  In the four-digit years the printed text is ordered as the instants are, up to
  the second: the ground of every comparison of TEXT time columns.
\<close>

theorem Format_wire_less_iff:
  assumes "wire_range t" "wire_range u"
  shows "Format_wire t < Format_wire u
    \<longleftrightarrow> t div nanosecond_per_second < u div nanosecond_per_second"
  using format_civil_less_iff wire_range_year [OF assms(1)] wire_range_year [OF assms(2)]
  by (simp add: Format_wire_def civil_of_unix_correct civil_less_iff)

section \<open>Parsing\<close>

text \<open>
  \<open>time.Parse\<close> for the two layouts the program uses: the wire format, whose zone
  is the literal Z, and \<open>time.RFC3339\<close> / \<open>time.RFC3339Nano\<close>, whose zone is Z or an
  offset.  Both accept a fractional second after the seconds.
\<close>

text \<open>\<open>getnum\<close>: one or two digits, exactly two when \<open>fixed\<close>.\<close>

fun getnum :: "bool \<Rightarrow> string \<Rightarrow> (nat \<times> string) option" where
  "getnum fixed [] = None"
| "getnum fixed [a] = (if fixed then None else map_option (\<lambda>x. (x, [])) (digit_val a))"
| "getnum fixed (a # b # r) =
     (case digit_val a of None \<Rightarrow> None
      | Some x \<Rightarrow> (case digit_val b of
            None \<Rightarrow> if fixed then None else Some (x, b # r)
          | Some y \<Rightarrow> Some (10 * x + y, r)))"

fun digits_val :: "string \<Rightarrow> nat \<Rightarrow> nat option" where
  "digits_val [] acc = Some acc"
| "digits_val (c # cs) acc = (case digit_val c of None \<Rightarrow> None | Some d \<Rightarrow> digits_val cs (10 * acc + d))"

text \<open>The year: exactly four digits.\<close>

definition getyear :: "string \<Rightarrow> (nat \<times> string) option" where
  "getyear s = (if length s < 4 then None
     else map_option (\<lambda>y. (y, drop 4 s)) (digits_val (take 4 s) 0))"

definition skip :: "char \<Rightarrow> string \<Rightarrow> string option" where
  "skip c s = (case s of [] \<Rightarrow> None | x # r \<Rightarrow> if x = c then Some r else None)"

text \<open>An optional fraction: nanoseconds from the first nine digits, the rest dropped.\<close>

definition is_digit :: "char \<Rightarrow> bool" where
  "is_digit c \<longleftrightarrow> digit_val c \<noteq> None"

definition fraction :: "string \<Rightarrow> nat \<times> string" where
  "fraction s =
     (case s of
        p # d # r \<Rightarrow>
          if (p = CHR ''.'' \<or> p = CHR '','') \<and> is_digit d then
            (let ds = takeWhile is_digit (d # r); k = min 9 (length ds)
             in (the (digits_val (take k ds) 0) * 10 ^ (9 - k), dropWhile is_digit (d # r)))
          else (0, s)
      | _ \<Rightarrow> (0, s))"

text \<open>The zone, in seconds east of UTC.\<close>

definition zone :: "bool \<Rightarrow> string \<Rightarrow> (int \<times> string) option" where
  "zone offsets s =
     (case skip CHR ''Z'' s of
        Some r \<Rightarrow> Some (0, r)
      | None \<Rightarrow>
          if \<not> offsets \<or> length s < 6 \<or> s ! 3 \<noteq> CHR '':'' then None
          else (case getnum True (take 2 (drop 1 s)) of None \<Rightarrow> None
            | Some (hh, _) \<Rightarrow> (case getnum True (take 2 (drop 4 s)) of None \<Rightarrow> None
                | Some (mm, _) \<Rightarrow>
                    if 24 < hh \<or> 60 < mm then None
                    else if s ! 0 = CHR ''+'' then Some (int (hh * 60 + mm) * 60, drop 6 s)
                    else if s ! 0 = CHR ''-'' then Some (- int (hh * 60 + mm) * 60, drop 6 s)
                    else None)))"

text \<open>The whole layout: the fields in order, range checks, no trailing text.\<close>

definition Parse_clock :: "string \<Rightarrow> (civil \<times> nat \<times> string) option" where
  "Parse_clock s =
     Option.bind (getyear s) (\<lambda>(y, s).
     Option.bind (skip CHR ''-'' s) (\<lambda>s.
     Option.bind (getnum True s) (\<lambda>(mo, s).
     if mo < 1 \<or> 12 < mo then None else
     Option.bind (skip CHR ''-'' s) (\<lambda>s.
     Option.bind (getnum True s) (\<lambda>(d, s).
     Option.bind (skip CHR ''T'' s) (\<lambda>s.
     Option.bind (getnum False s) (\<lambda>(h, s).
     if 24 \<le> h then None else
     Option.bind (skip CHR '':'' s) (\<lambda>s.
     Option.bind (getnum True s) (\<lambda>(mi, s).
     if 60 \<le> mi then None else
     Option.bind (skip CHR '':'' s) (\<lambda>s.
     Option.bind (getnum True s) (\<lambda>(se, s).
     if 60 \<le> se then None else
     (let (ns, s) = fraction s in
      Some (\<lparr>c_year = int y, c_month = mo, c_day = d,
              c_hour = h, c_min = mi, c_sec = se\<rparr>, ns, s)))))))))))))"

definition Parse_layout :: "bool \<Rightarrow> string \<Rightarrow> time option" where
  "Parse_layout offsets s =
     Option.bind (Parse_clock s) (\<lambda>(c, ns, s).
     Option.bind (zone offsets s) (\<lambda>(off, s).
     if s \<noteq> [] \<or> c_day c < 1 \<or> daysIn (c_month c) (c_year c) < c_day c then None
     else Some ((unix_of_civil c - off) * nanosecond_per_second + int ns)))"

abbreviation Parse_wire :: "string \<Rightarrow> time option" where
  "Parse_wire \<equiv> Parse_layout False"

abbreviation Parse_RFC3339 :: "string \<Rightarrow> time option" where
  "Parse_RFC3339 \<equiv> Parse_layout True"

text \<open>Parsing what was printed.\<close>

lemma digits_val_pad:
  "n < 10 ^ w \<Longrightarrow> digits_val (pad w n @ s) acc = digits_val s (acc * 10 ^ w + n)"
proof (induction w arbitrary: n acc s)
  case (Suc w)
  have "n div 10 < 10 ^ w" using Suc.prems by simp
  from Suc.IH [OF this, of "digit_char (n mod 10) # s" acc] show ?case
    by (simp add: algebra_simps)
qed simp

lemma pad_2: "n < 100 \<Longrightarrow> pad 2 n = [digit_char (n div 10), digit_char (n mod 10)]"
  by (simp add: numeral_2_eq_2)

lemma getnum_pad [simp]: "n < 100 \<Longrightarrow> getnum fixed (pad 2 n @ s) = Some (n, s)"
  by (simp add: pad_2)

lemma getyear_pad [simp]: "y < 10000 \<Longrightarrow> getyear (pad 4 y @ s) = Some (y, s)"
  using digits_val_pad [of y 4 "[]" 0] by (simp add: getyear_def)

lemma skip_Cons [simp]: "skip c (c # s) = Some s"
  by (simp add: skip_def)

lemma zone_Z [simp]: "zone b ''Z'' = Some (0, [])"
  by (simp add: zone_def)

lemma fraction_Z [simp]: "fraction ''Z'' = (0, ''Z'')"
  by (simp add: fraction_def)

lemma Parse_format_civil:
  assumes v: "valid_civil c" and y: "0 \<le> c_year c" "c_year c \<le> 9999"
  shows "Parse_layout b (format_civil c) = Some (unix_of_civil c * nanosecond_per_second)"
proof -
  have "Parse_clock (format_civil c) = Some (c, 0, ''Z'')"
    using valid_civil_digits [OF v] v y appendInt_year [OF y]
    by (simp add: format_civil_def Parse_clock_def valid_civil_def valid_date_def)
  then show ?thesis
    using v by (simp add: Parse_layout_def valid_civil_def valid_date_def)
qed

theorem Parse_Format_wire:
  assumes "wire_range t"
  shows "Parse_layout b (Format_wire t)
    = Some (t div nanosecond_per_second * nanosecond_per_second)"
  using wire_range_year [OF assms]
  by (simp add: Format_wire_def Parse_format_civil civil_of_unix_correct)

lemma zone_mono: "zone False s = Some z \<Longrightarrow> zone True s = Some z"
  by (auto simp: zone_def split: option.splits)

lemma Parse_wire_RFC3339: "Parse_wire s = Some t \<Longrightarrow> Parse_RFC3339 s = Some t"
  unfolding Parse_layout_def
  by (auto simp: bind_eq_Some_conv dest!: zone_mono split: if_splits)

section \<open>Differences and sums\<close>

definition minDuration :: duration where "minDuration = - (2 ^ 63)"
definition maxDuration :: duration where "maxDuration = 2 ^ 63 - 1"

text \<open>\<open>t.Sub(u)\<close> saturates; \<open>-d\<close> on \<open>int64\<close> wraps around at the least value.\<close>

definition time_Sub :: "time \<Rightarrow> time \<Rightarrow> duration" where
  "time_Sub t u =
     (if t - u < minDuration then minDuration
      else if maxDuration < t - u then maxDuration else t - u)"

definition neg64 :: "int \<Rightarrow> int" where
  "neg64 d = (if d = minDuration then minDuration else - d)"

definition time_Add :: "time \<Rightarrow> duration \<Rightarrow> time" where
  "time_Add t d = t + d"

text \<open>\<open>neg64\<close> is the negation of the 64-bit word.\<close>

lemma neg64_word:
  assumes "minDuration \<le> d" "d \<le> maxDuration"
  shows "neg64 d = sint (- word_of_int d :: 64 word)"
proof -
  have "sint (- word_of_int d :: 64 word) = signed_take_bit 63 (- d)"
    unfolding wi_hom_neg sint_sbintrunc' by simp
  also have "\<dots> = neg64 d"
  proof (cases "d = minDuration")
    case False
    then have "- (2 ^ 63) \<le> - d" "- d < 2 ^ 63"
      using assms by (auto simp: minDuration_def maxDuration_def)
    then show ?thesis using False by (simp add: neg64_def signed_take_bit_int_eq_self)
  qed (simp add: neg64_def minDuration_def signed_take_bit_int_eq_self_iff)
  finally show ?thesis by simp
qed

end
