(* ===== verification/Db.thy ===== *)
theory Db
  imports GoTime
begin

text \<open>
  The SQLite database behind \<open>internal/storage/sqlite.go\<close>: the three tables of
  \<open>schemaSQL\<close> as lists of rows in insertion order, and the effect of every SQL
  statement the adapter issues.  A statement is atomic: it fails with a message
  and changes nothing, or it does what it says.  TEXT columns compare byte by
  byte (the BINARY collation), which is the order of \<open>string\<close>.
\<close>

section \<open>Tables\<close>

record env_row =
  e_msg_id :: string
  e_path_id :: string
  e_direction :: string
  e_received_at :: string
  e_ciphertext :: string
  e_signature :: string
  e_outer_json :: string

text \<open>The nullable columns are options; \<open>None\<close> is NULL.\<close>

record req_row =
  q_request_id :: string
  q_status :: string
  q_created_at :: string
  q_expires_at :: string
  q_path_id :: "string option"
  q_requester_json :: string
  q_owner_json :: "string option"
  q_target_nexus_id :: string

record pair_row =
  p_path_id :: string
  p_requester_id :: string
  p_requester_pubkey :: string
  p_requester_dh_pubkey :: string
  p_owner_id :: string
  p_owner_pubkey :: string
  p_owner_dh_pubkey :: string
  p_sig_alg :: string
  p_dh_alg :: string
  p_activated_at :: string

record db =
  envelopes :: "env_row list"
  pair_requests :: "req_row list"
  pairs :: "pair_row list"

definition empty_db :: db where
  "empty_db = \<lparr>envelopes = [], pair_requests = [], pairs = []\<rparr>"

section \<open>Statements\<close>

datatype stmt =
    Ddl string
  | InsertEnv env_row
  | SelectEnvs string string string nat
  | DeleteEnvIds string "string list"
  | DeleteEnvBefore string
  | InsertReq req_row
  | SelectReq string
  | SelectReqsByStatus string
  | UpdateReq string "string option" "string option" string string
  | ExpireReqs string string string
  | InsertPairRow pair_row
  | SelectPair string

datatype sqlresult =
    RErr string
  | RAffected nat
  | REnvs "env_row list"
  | RReqs "req_row list"
  | RPairs "pair_row list"

text \<open>
  \<open>uv\<close> is the driver's message for a violated UNIQUE constraint on a column.
\<close>

definition coalesce :: "'a option \<Rightarrow> 'a option \<Rightarrow> 'a option" where
  "coalesce a b = (case a of None \<Rightarrow> b | Some _ \<Rightarrow> a)"

definition update_req :: "string \<Rightarrow> string option \<Rightarrow> string option \<Rightarrow> req_row \<Rightarrow> req_row" where
  "update_req to own pid r =
     r\<lparr>q_status := to, q_owner_json := coalesce own (q_owner_json r), q_path_id := coalesce pid (q_path_id r)\<rparr>"

definition req_matches :: "string \<Rightarrow> string \<Rightarrow> req_row \<Rightarrow> bool" where
  "req_matches rid st r \<longleftrightarrow> q_request_id r = rid \<and> q_status r = st"

definition req_stale :: "string \<Rightarrow> string \<Rightarrow> req_row \<Rightarrow> bool" where
  "req_stale st cutoff r \<longleftrightarrow> q_status r = st \<and> q_expires_at r < cutoff"

definition env_wanted :: "string \<Rightarrow> string \<Rightarrow> string \<Rightarrow> env_row \<Rightarrow> bool" where
  "env_wanted pid dir since e \<longleftrightarrow> e_path_id e = pid \<and> e_direction e = dir \<and> since < e_msg_id e"

definition env_acked :: "string \<Rightarrow> string list \<Rightarrow> env_row \<Rightarrow> bool" where
  "env_acked pid ids e \<longleftrightarrow> e_path_id e = pid \<and> e_msg_id e \<in> set ids"

fun exec_stmt :: "(string \<Rightarrow> string) \<Rightarrow> stmt \<Rightarrow> db \<Rightarrow> sqlresult \<times> db" where
  "exec_stmt uv (Ddl _) d = (RAffected 0, d)"
| "exec_stmt uv (InsertEnv e) d =
     (if e_msg_id e \<in> set (map e_msg_id (envelopes d)) then (RErr (uv ''envelopes.msg_id''), d)
      else (RAffected 1, d\<lparr>envelopes := envelopes d @ [e]\<rparr>))"
| "exec_stmt uv (SelectEnvs pid dir since n) d =
     (REnvs (take n (sort_key e_msg_id (filter (env_wanted pid dir since) (envelopes d)))), d)"
| "exec_stmt uv (DeleteEnvIds pid ids) d =
     (RAffected (length (filter (env_acked pid ids) (envelopes d))),
      d\<lparr>envelopes := filter (\<lambda>e. \<not> env_acked pid ids e) (envelopes d)\<rparr>)"
| "exec_stmt uv (DeleteEnvBefore cutoff) d =
     (RAffected (length (filter (\<lambda>e. e_received_at e < cutoff) (envelopes d))),
      d\<lparr>envelopes := filter (\<lambda>e. \<not> e_received_at e < cutoff) (envelopes d)\<rparr>)"
| "exec_stmt uv (InsertReq r) d =
     (if q_request_id r \<in> set (map q_request_id (pair_requests d))
      then (RErr (uv ''pair_requests.request_id''), d)
      else (RAffected 1, d\<lparr>pair_requests := pair_requests d @ [r]\<rparr>))"
| "exec_stmt uv (SelectReq rid) d = (RReqs (filter (\<lambda>r. q_request_id r = rid) (pair_requests d)), d)"
| "exec_stmt uv (SelectReqsByStatus st) d =
     (RReqs (sort_key q_created_at (filter (\<lambda>r. q_status r = st) (pair_requests d))), d)"
| "exec_stmt uv (UpdateReq to own pid rid st) d =
     (RAffected (length (filter (req_matches rid st) (pair_requests d))),
      d\<lparr>pair_requests := map (\<lambda>r. if req_matches rid st r then update_req to own pid r else r) (pair_requests d)\<rparr>)"
| "exec_stmt uv (ExpireReqs to st cutoff) d =
     (RAffected (length (filter (req_stale st cutoff) (pair_requests d))),
      d\<lparr>pair_requests := map (\<lambda>r. if req_stale st cutoff r then r\<lparr>q_status := to\<rparr> else r) (pair_requests d)\<rparr>)"
| "exec_stmt uv (InsertPairRow p) d =
     (if p_path_id p \<in> set (map p_path_id (pairs d)) then (RErr (uv ''pairs.path_id''), d)
      else (RAffected 1, d\<lparr>pairs := pairs d @ [p]\<rparr>))"
| "exec_stmt uv (SelectPair pid) d = (RPairs (filter (\<lambda>p. p_path_id p = pid) (pairs d)), d)"

section \<open>Primary keys\<close>

definition unique_keys :: "db \<Rightarrow> bool" where
  "unique_keys d \<longleftrightarrow>
     distinct (map e_msg_id (envelopes d)) \<and> distinct (map q_request_id (pair_requests d))
     \<and> distinct (map p_path_id (pairs d))"

lemma update_req_id [simp]: "q_request_id (update_req to own pid r) = q_request_id r"
  by (simp add: update_req_def)

lemma map_if_key: "(\<And>r. key (f r) = key r) \<Longrightarrow> map key (map (\<lambda>r. if P r then f r else r) rs) = map key rs"
  by simp

lemma exec_stmt_unique: "unique_keys d \<Longrightarrow> unique_keys (snd (exec_stmt uv s d))"
proof (cases s)
  case (UpdateReq to own pid rid st)
  then show "unique_keys d \<Longrightarrow> ?thesis"
    by (simp add: unique_keys_def map_if_key [of q_request_id, unfolded map_map] comp_def if_distrib cong: if_cong)
next
  case (ExpireReqs to st cutoff)
  then show "unique_keys d \<Longrightarrow> ?thesis"
    by (simp add: unique_keys_def comp_def if_distrib cong: if_cong)
qed (auto simp: unique_keys_def distinct_map_filter)

text \<open>A statement that only reads leaves the tables alone, and so does a failing one.\<close>

fun reads :: "stmt \<Rightarrow> bool" where
  "reads (Ddl _) = True"
| "reads (SelectEnvs _ _ _ _) = True"
| "reads (SelectReq _) = True"
| "reads (SelectReqsByStatus _) = True"
| "reads (SelectPair _) = True"
| "reads _ = False"

lemma exec_reads [simp]: "reads s \<Longrightarrow> snd (exec_stmt uv s d) = d"
  by (cases s) auto

lemma exec_fails: "fst (exec_stmt uv s d) = RErr m \<Longrightarrow> snd (exec_stmt uv s d) = d"
  by (cases s) (auto split: if_splits)

section \<open>The life of a pair request\<close>

text \<open>No statement deletes a request, or changes one whose status is not the one it asks for.\<close>

definition req_of :: "db \<Rightarrow> string \<Rightarrow> req_row option" where
  "req_of d rid = find (\<lambda>r. q_request_id r = rid) (pair_requests d)"

lemma find_map_same_key:
  assumes "\<And>r. key (f r) = key r"
  shows "find (\<lambda>r. key r = k) (map f rs) = map_option f (find (\<lambda>r. key r = k) rs)"
  using assms by (induction rs) auto

lemma find_key_None: "find (\<lambda>r. key r = k) rs = None \<longleftrightarrow> k \<notin> set (map key rs)"
  by (induction rs) auto

lemma find_snoc_key:
  "find (\<lambda>r. key r = k) (rs @ [x]) =
     (if k \<in> set (map key rs) then find (\<lambda>r. key r = k) rs else if key x = k then Some x else None)"
  by (induction rs) auto

lemma req_of_InsertReq:
  "req_of (snd (exec_stmt uv (InsertReq r) d)) rid =
     (if req_of d rid = None \<and> q_request_id r = rid then Some r else req_of d rid)"
  using find_key_None [of q_request_id rid "pair_requests d"]
  by (auto simp: req_of_def find_snoc_key)

lemma req_of_UpdateReq:
  "req_of (snd (exec_stmt uv (UpdateReq to own pid rid st) d)) rid' =
     map_option (\<lambda>r. if req_matches rid st r then update_req to own pid r else r) (req_of d rid')"
  by (simp add: req_of_def find_map_same_key)

lemma req_of_ExpireReqs:
  "req_of (snd (exec_stmt uv (ExpireReqs to st cutoff) d)) rid' =
     map_option (\<lambda>r. if req_stale st cutoff r then r\<lparr>q_status := to\<rparr> else r) (req_of d rid')"
  by (simp add: req_of_def find_map_same_key)

lemmas req_of_simps [db_simps] = req_of_InsertReq req_of_UpdateReq req_of_ExpireReqs

definition pair_of :: "db \<Rightarrow> string \<Rightarrow> pair_row option" where
  "pair_of d pid = find (\<lambda>p. p_path_id p = pid) (pairs d)"

lemma pair_of_InsertPairRow [db_simps]:
  "pair_of (snd (exec_stmt uv (InsertPairRow p) d)) pid =
     (if pair_of d pid = None \<and> p_path_id p = pid then Some p else pair_of d pid)"
  using find_key_None [of p_path_id pid "pairs d"]
  by (auto simp: pair_of_def find_snoc_key)

lemma hd_filter_find: "(case filter P xs of [] \<Rightarrow> None | x # _ \<Rightarrow> Some x) = find P xs"
  by (induction xs) auto

end
