(* ===== verification/Effect.thy ===== *)
theory Effect
  imports Db
begin

text \<open>
  Handlers as effect programs.  The code reaches the outside through four calls:
  a SQL statement, the clock, the random source, and a panic.  A \<open>prog\<close> is the
  tree of those calls; \<open>run\<close> executes it in a world alone, \<open>step\<close> one call at a time
  so that handlers of several requests interleave between statements.
\<close>

section \<open>Programs\<close>

datatype 'a prog =
    Ret 'a
  | Panic
  | Exec stmt "sqlresult \<Rightarrow> 'a prog"
  | Now "time \<Rightarrow> 'a prog"
  | Rand "bytes option \<Rightarrow> 'a prog"

primrec bind :: "'a prog \<Rightarrow> ('a \<Rightarrow> 'b prog) \<Rightarrow> 'b prog" where
  "bind (Ret a) f = f a"
| "bind Panic f = Panic"
| "bind (Exec s k) f = Exec s (\<lambda>r. bind (k r) f)"
| "bind (Now k) f = Now (\<lambda>t. bind (k t) f)"
| "bind (Rand k) f = Rand (\<lambda>b. bind (k b) f)"

definition exec :: "stmt \<Rightarrow> sqlresult prog" where
  "exec s = Exec s Ret"

definition now :: "time prog" where
  "now = Now Ret"

lemma bind_assoc: "bind (bind p f) g = bind p (\<lambda>x. bind (f x) g)"
  by (induction p) simp_all

lemma bind_Ret_right [simp]: "bind p Ret = p"
  by (induction p) simp_all

section \<open>Worlds\<close>

text \<open>
  \<open>faults\<close> are the driver errors of the coming statements (none once the list is
  empty); \<open>clock n\<close> is the reading \<open>n\<close> calls from now, \<open>entropy n\<close> the random bytes;
  \<open>uv\<close> is the text of the driver's error for a violated UNIQUE constraint.
\<close>

record world =
  wdb :: db
  faults :: "string option list"
  clock :: "nat \<Rightarrow> time"
  entropy :: "nat \<Rightarrow> bytes option"
  uv :: "string \<Rightarrow> string"

definition exec_world :: "stmt \<Rightarrow> world \<Rightarrow> sqlresult \<times> world" where
  "exec_world s w =
     (case faults w of
        Some m # fs \<Rightarrow> (RErr m, w\<lparr>faults := fs\<rparr>)
      | None # fs \<Rightarrow> (let (r, d) = exec_stmt (uv w) s (wdb w) in (r, w\<lparr>wdb := d, faults := fs\<rparr>))
      | [] \<Rightarrow> (let (r, d) = exec_stmt (uv w) s (wdb w) in (r, w\<lparr>wdb := d\<rparr>)))"

text \<open>The value of a finished program, or None for a panic, and the world it leaves.\<close>

primrec run :: "'a prog \<Rightarrow> world \<Rightarrow> 'a option \<times> world" where
  "run (Ret a) w = (Some a, w)"
| "run Panic w = (None, w)"
| "run (Exec s k) w = (let (r, w') = exec_world s w in run (k r) w')"
| "run (Now k) w = run (k (clock w 0)) (w\<lparr>clock := \<lambda>n. clock w (Suc n)\<rparr>)"
| "run (Rand k) w = run (k (entropy w 0)) (w\<lparr>entropy := \<lambda>n. entropy w (Suc n)\<rparr>)"

lemma run_bind:
  "run (bind p f) w = (case run p w of (None, w') \<Rightarrow> (None, w') | (Some a, w') \<Rightarrow> run (f a) w')"
  by (induction p arbitrary: w) (simp_all add: split_beta Let_def)

lemma run_bind_Some: "run p w = (Some a, w') \<Longrightarrow> run (bind p f) w = run (f a) w'"
  by (simp add: run_bind)

lemma run_now [simp, prog_simps]: "run now w = (Some (clock w 0), w\<lparr>clock := \<lambda>n. clock w (Suc n)\<rparr>)"
  by (simp add: now_def)

lemma run_bind_now [simp]: "run (bind now f) w = run (f (clock w 0)) (w\<lparr>clock := \<lambda>n. clock w (Suc n)\<rparr>)"
  by (simp add: now_def)

lemma run_exec: "run (exec s) w = (let (r, w') = exec_world s w in (Some r, w'))"
  by (simp add: exec_def)

section \<open>What every statement of a program satisfies\<close>

primrec prog_all :: "(stmt \<Rightarrow> bool) \<Rightarrow> 'a prog \<Rightarrow> bool" where
  "prog_all P (Ret a) = True"
| "prog_all P Panic = True"
| "prog_all P (Exec s k) = (P s \<and> (\<forall>r. prog_all P (k r)))"
| "prog_all P (Now k) = (\<forall>t. prog_all P (k t))"
| "prog_all P (Rand k) = (\<forall>b. prog_all P (k b))"

lemma prog_all_mono: "prog_all P p \<Longrightarrow> (\<And>s. P s \<Longrightarrow> Q s) \<Longrightarrow> prog_all Q p"
  by (induction p) auto

lemma prog_all_bind: "prog_all P p \<Longrightarrow> (\<And>a. prog_all P (f a)) \<Longrightarrow> prog_all P (bind p f)"
  by (induction p) auto

lemma prog_all_exec [simp]: "prog_all P (exec s) = P s"
  by (simp add: exec_def)

lemma prog_all_now [simp]: "prog_all P now"
  by (simp add: now_def)

text \<open>Values a program can return, whatever its calls answer.\<close>

primrec prog_ret :: "('a \<Rightarrow> bool) \<Rightarrow> 'a prog \<Rightarrow> bool" where
  "prog_ret P (Ret a) = P a"
| "prog_ret P Panic = True"
| "prog_ret P (Exec s k) = (\<forall>r. prog_ret P (k r))"
| "prog_ret P (Now k) = (\<forall>t. prog_ret P (k t))"
| "prog_ret P (Rand k) = (\<forall>b. prog_ret P (k b))"

lemma prog_ret_run: "prog_ret P p \<Longrightarrow> run p w = (Some a, w') \<Longrightarrow> P a"
  by (induction p arbitrary: w) (auto simp: Let_def split_beta)

text \<open>A property of the database that every allowed statement keeps is kept by the program.\<close>

lemma exec_world_db:
  "wdb (snd (exec_world s w)) = wdb w \<or> wdb (snd (exec_world s w)) = snd (exec_stmt (uv w) s (wdb w))"
  by (auto simp: exec_world_def split_beta Let_def split: list.splits option.splits)

lemma exec_world_uv [simp]: "uv (snd (exec_world s w)) = uv w"
  by (auto simp: exec_world_def split_beta Let_def split: list.splits option.splits)

lemma run_uv [simp]: "uv (snd (run p w)) = uv w"
  by (induction p arbitrary: w) (simp_all add: split_beta Let_def)

lemma run_invariant:
  assumes "prog_all P p" and "\<And>s d u. P s \<Longrightarrow> I d \<Longrightarrow> I (snd (exec_stmt u s d))" and "I (wdb w)"
  shows "I (wdb (snd (run p w)))"
  using assms(1,3)
proof (induction p arbitrary: w)
  case (Exec s k)
  have "I (wdb (snd (exec_world s w)))"
    using exec_world_db [of s w] Exec.prems assms(2) [of s "wdb w"] by auto
  with Exec show ?case by (auto simp: split_beta Let_def)
qed auto

lemma run_reads: "prog_all reads p \<Longrightarrow> wdb (snd (run p w)) = wdb w"
  using run_invariant [of reads p "\<lambda>d. d = wdb w" w] by auto

lemma prog_all_True [simp]: "prog_all (\<lambda>_. True) p"
  by (induction p) auto

lemma run_unique_keys: "unique_keys (wdb w) \<Longrightarrow> unique_keys (wdb (snd (run p w)))"
  using run_invariant [of "\<lambda>_. True" p unique_keys w] exec_stmt_unique by auto

section \<open>One call at a time\<close>

inductive step :: "'a prog \<times> world \<Rightarrow> 'a prog \<times> world \<Rightarrow> bool" where
  step_Exec: "exec_world s w = (r, w') \<Longrightarrow> step (Exec s k, w) (k r, w')"
| step_Now: "step (Now k, w) (k (clock w 0), w\<lparr>clock := \<lambda>n. clock w (Suc n)\<rparr>)"
| step_Rand: "step (Rand k, w) (k (entropy w 0), w\<lparr>entropy := \<lambda>n. entropy w (Suc n)\<rparr>)"

inductive_cases step_ExecE: "step (Exec s k, w) c"
inductive_cases step_NowE: "step (Now k, w) c"
inductive_cases step_RandE: "step (Rand k, w) c"
inductive_simps step_done [simp]: "step (Ret a, w) c" "step (Panic, w) c"

definition finished :: "'a prog \<Rightarrow> bool" where
  "finished p \<longleftrightarrow> (case p of Ret _ \<Rightarrow> True | Panic \<Rightarrow> True | _ \<Rightarrow> False)"

text \<open>The one-call semantics is deterministic and agrees with \<open>run\<close>.\<close>

lemma step_deterministic: "step c c1 \<Longrightarrow> step c c2 \<Longrightarrow> c1 = c2"
  by (induction rule: step.induct) (auto elim: step_ExecE step_NowE step_RandE)

lemma step_run: "step (p, w) (p', w') \<Longrightarrow> run p w = run p' w'"
  by (cases p) (auto elim: step_ExecE step_NowE step_RandE)

lemma run_steps: "\<exists>p'. step\<^sup>*\<^sup>* (p, w) (p', snd (run p w)) \<and> finished p' \<and>
    (case fst (run p w) of Some a \<Rightarrow> p' = Ret a | None \<Rightarrow> p' = Panic)"
proof (induction p arbitrary: w)
  case (Exec s k)
  obtain r w' where e: "exec_world s w = (r, w')" by fastforce
  then have "step (Exec s k, w) (k r, w')" by (rule step_Exec)
  with Exec [of "k r" w'] e show ?case by (auto intro: converse_rtranclp_into_rtranclp)
next
  case (Now k)
  show ?case using Now [OF rangeI, of "clock w 0" "w\<lparr>clock := \<lambda>n. clock w (Suc n)\<rparr>"] step_Now [of k w]
    by (auto intro: converse_rtranclp_into_rtranclp)
next
  case (Rand k)
  show ?case using Rand [OF rangeI, of "entropy w 0" "w\<lparr>entropy := \<lambda>n. entropy w (Suc n)\<rparr>"] step_Rand [of k w]
    by (auto intro: converse_rtranclp_into_rtranclp)
qed (auto simp: finished_def)

lemma step_prog_all: "step (p, w) (p', w') \<Longrightarrow> prog_all P p \<Longrightarrow> prog_all P p'"
  by (cases p) (auto elim: step_ExecE step_NowE step_RandE)

lemma step_invariant:
  assumes "step (p, w) (p', w')" "prog_all P p" "I (wdb w)"
    and "\<And>s d u. P s \<Longrightarrow> I d \<Longrightarrow> I (snd (exec_stmt u s d))"
  shows "I (wdb w')"
proof (cases p)
  case (Exec s k)
  then obtain r where "exec_world s w = (r, w')" using assms(1) by (auto elim: step_ExecE)
  then show ?thesis using exec_world_db [of s w] assms(2-4) Exec by auto
qed (use assms in \<open>auto elim: step_NowE step_RandE\<close>)

end
