(* ===== verification/Store.thy ===== *)
theory Store
  imports Effect GoText
begin

text \<open>
  \<open>internal/storage\<close>: the types and the \<open>Storage\<close> interface of \<open>storage.go\<close>, and the
  SQLite adapter of \<open>sqlite.go\<close>, every method as the program of the SQL statements
  it issues, with its error branches.
\<close>

section \<open>Types and errors (storage.go)\<close>

datatype sterr = ErrNotFound | ErrDuplicate | ErrConflict | ErrOther string

type_synonym direction = string

definition AToB :: direction where "AToB = ''A_to_B''"
definition BToA :: direction where "BToA = ''B_to_A''"

record envelope =
  MsgID :: string
  PathID :: string
  Direction :: direction
  ReceivedAt :: time
  Ciphertext :: string
  Signature :: string
  OuterJSON :: string

definition StatusPending :: string where "StatusPending = ''pending''"
definition StatusApproved :: string where "StatusApproved = ''approved''"
definition StatusDenied :: string where "StatusDenied = ''denied''"
definition StatusExpired :: string where "StatusExpired = ''expired''"

lemmas status_defs = StatusPending_def StatusApproved_def StatusDenied_def StatusExpired_def

record pair_request =
  RequestID :: string
  Status :: string
  CreatedAt :: time
  ExpiresAt :: time
  ReqPathID :: string
  RequesterJSON :: string
  OwnerJSON :: string
  TargetNexusID :: string

record pair =
  PairPathID :: string
  RequesterID :: string
  RequesterPubkey :: string
  RequesterDHPubkey :: string
  OwnerID :: string
  OwnerPubkey :: string
  OwnerDHPubkey :: string
  SigAlg :: string
  DhAlg :: string
  ActivatedAt :: time

section \<open>Helpers of the adapter\<close>

definition formatTime :: "time \<Rightarrow> string" where
  "formatTime t = Format_wire t"

definition parseTime :: "string \<Rightarrow> (sterr + time)" where
  "parseTime s =
     (case Parse_wire s of Some t \<Rightarrow> Inr t
      | None \<Rightarrow> (case Parse_RFC3339 s of Some t \<Rightarrow> Inr t
         | None \<Rightarrow> Inl (ErrOther (''storage: unrecognized time format: '' @ s))))"

definition isUniqueViolation :: "string \<Rightarrow> bool" where
  "isUniqueViolation msg \<longleftrightarrow>
     Contains msg ''UNIQUE constraint failed'' \<or> Contains msg ''constraint failed: UNIQUE''"

text \<open>\<open>line[:idx]\<close> at the first \<open>--\<close>.\<close>

fun strip_comment :: "string \<Rightarrow> string" where
  "strip_comment (a # b # cs) =
     (if a = CHR ''-'' \<and> b = CHR ''-'' then [] else a # strip_comment (b # cs))"
| "strip_comment s = s"

definition splitStatements :: "string \<Rightarrow> string list" where
  "splitStatements script =
     filter (\<lambda>s. s \<noteq> [])
       (map TrimSpace (Split CHR '';'' (concat (map (\<lambda>l. strip_comment l @ [CHR 0x0A]) (Split CHR 0x0A script)))))"

section \<open>Rows\<close>

definition env_to_row :: "envelope \<Rightarrow> env_row" where
  "env_to_row e =
     \<lparr>e_msg_id = MsgID e, e_path_id = PathID e, e_direction = Direction e,
      e_received_at = formatTime (ReceivedAt e), e_ciphertext = Ciphertext e,
      e_signature = Signature e, e_outer_json = OuterJSON e\<rparr>"

definition scanEnvelope :: "env_row \<Rightarrow> sterr + envelope" where
  "scanEnvelope r =
     (case parseTime (e_received_at r) of Inl e \<Rightarrow> Inl e
      | Inr t \<Rightarrow> Inr \<lparr>MsgID = e_msg_id r, PathID = e_path_id r, Direction = e_direction r,
          ReceivedAt = t, Ciphertext = e_ciphertext r, Signature = e_signature r, OuterJSON = e_outer_json r\<rparr>)"

text \<open>An empty Go string becomes NULL, NULL an empty string.\<close>

definition nullable :: "string \<Rightarrow> string option" where
  "nullable s = (if s = [] then None else Some s)"

definition of_null :: "string option \<Rightarrow> string" where
  "of_null o' = (case o' of None \<Rightarrow> [] | Some s \<Rightarrow> s)"

definition req_to_row :: "pair_request \<Rightarrow> req_row" where
  "req_to_row r =
     \<lparr>q_request_id = RequestID r, q_status = Status r, q_created_at = formatTime (CreatedAt r),
      q_expires_at = formatTime (ExpiresAt r), q_path_id = nullable (ReqPathID r),
      q_requester_json = RequesterJSON r, q_owner_json = nullable (OwnerJSON r),
      q_target_nexus_id = TargetNexusID r\<rparr>"

definition scanPairRequest :: "req_row \<Rightarrow> sterr + pair_request" where
  "scanPairRequest r =
     (case parseTime (q_created_at r) of Inl e \<Rightarrow> Inl e
      | Inr c \<Rightarrow> (case parseTime (q_expires_at r) of Inl e \<Rightarrow> Inl e
         | Inr x \<Rightarrow> Inr \<lparr>RequestID = q_request_id r, Status = q_status r, CreatedAt = c, ExpiresAt = x,
             ReqPathID = of_null (q_path_id r), RequesterJSON = q_requester_json r,
             OwnerJSON = of_null (q_owner_json r), TargetNexusID = q_target_nexus_id r\<rparr>))"

definition pair_to_row :: "pair \<Rightarrow> pair_row" where
  "pair_to_row p =
     \<lparr>p_path_id = PairPathID p, p_requester_id = RequesterID p, p_requester_pubkey = RequesterPubkey p,
      p_requester_dh_pubkey = RequesterDHPubkey p, p_owner_id = OwnerID p, p_owner_pubkey = OwnerPubkey p,
      p_owner_dh_pubkey = OwnerDHPubkey p, p_sig_alg = SigAlg p, p_dh_alg = DhAlg p,
      p_activated_at = formatTime (ActivatedAt p)\<rparr>"

definition scanPair :: "pair_row \<Rightarrow> sterr + pair" where
  "scanPair r =
     (case parseTime (p_activated_at r) of Inl e \<Rightarrow> Inl e
      | Inr t \<Rightarrow> Inr \<lparr>PairPathID = p_path_id r, RequesterID = p_requester_id r,
          RequesterPubkey = p_requester_pubkey r, RequesterDHPubkey = p_requester_dh_pubkey r,
          OwnerID = p_owner_id r, OwnerPubkey = p_owner_pubkey r, OwnerDHPubkey = p_owner_dh_pubkey r,
          SigAlg = p_sig_alg r, DhAlg = p_dh_alg r, ActivatedAt = t\<rparr>)"

text \<open>The scan loop over result rows: the first row that fails ends it.\<close>

fun scan_all :: "('r \<Rightarrow> sterr + 'a) \<Rightarrow> 'r list \<Rightarrow> sterr + 'a list" where
  "scan_all f [] = Inr []"
| "scan_all f (r # rs) =
     (case f r of Inl e \<Rightarrow> Inl e
      | Inr a \<Rightarrow> (case scan_all f rs of Inl e \<Rightarrow> Inl e | Inr as \<Rightarrow> Inr (a # as)))"

section \<open>The methods of SQLite\<close>

definition insert_error :: "string \<Rightarrow> string \<Rightarrow> sterr" where
  "insert_error ctx m = (if isUniqueViolation m then ErrDuplicate else ErrOther (ctx @ m))"

definition SQLite_InsertEnvelope :: "envelope \<Rightarrow> sterr option prog" where
  "SQLite_InsertEnvelope e = bind (exec (InsertEnv (env_to_row e))) (\<lambda>r.
     case r of RErr m \<Rightarrow> Ret (Some (insert_error ''storage: insert envelope: '' m)) | _ \<Rightarrow> Ret None)"

definition listLimit :: nat where "listLimit = 50"

definition SQLite_ListEnvelopes :: "string \<Rightarrow> direction \<Rightarrow> string \<Rightarrow> (sterr + envelope list) prog" where
  "SQLite_ListEnvelopes pid dir since = bind (exec (SelectEnvs pid dir since listLimit)) (\<lambda>r.
     case r of REnvs rows \<Rightarrow> Ret (scan_all scanEnvelope rows)
     | RErr m \<Rightarrow> Ret (Inl (ErrOther (''storage: list envelopes: '' @ m)))
     | _ \<Rightarrow> Ret (Inr []))"

text \<open>\<open>RowsAffected\<close> of an UPDATE or DELETE, or the wrapped error.\<close>

definition affected :: "string \<Rightarrow> sqlresult \<Rightarrow> sterr + nat" where
  "affected ctx r = (case r of RErr m \<Rightarrow> Inl (ErrOther (ctx @ m)) | RAffected n \<Rightarrow> Inr n | _ \<Rightarrow> Inr 0)"

definition SQLite_DeleteEnvelopesByMsgID :: "string \<Rightarrow> string list \<Rightarrow> (sterr + nat) prog" where
  "SQLite_DeleteEnvelopesByMsgID pid ids =
     (if ids = [] then Ret (Inr 0)
      else bind (exec (DeleteEnvIds pid ids)) (\<lambda>r. Ret (affected ''storage: delete envelopes by id: '' r)))"

definition SQLite_DeleteEnvelopesOlderThan :: "time \<Rightarrow> (sterr + nat) prog" where
  "SQLite_DeleteEnvelopesOlderThan cutoff =
     bind (exec (DeleteEnvBefore (formatTime cutoff))) (\<lambda>r. Ret (affected ''storage: retention sweep: '' r))"

definition SQLite_InsertPairRequest :: "pair_request \<Rightarrow> sterr option prog" where
  "SQLite_InsertPairRequest q = bind (exec (InsertReq (req_to_row q))) (\<lambda>r.
     case r of RErr m \<Rightarrow> Ret (Some (insert_error ''storage: insert pair request: '' m)) | _ \<Rightarrow> Ret None)"

text \<open>\<open>QueryRow(...).Scan\<close>: no row is \<open>ErrNotFound\<close>, further rows are ignored.\<close>

definition SQLite_GetPairRequest :: "string \<Rightarrow> (sterr + pair_request) prog" where
  "SQLite_GetPairRequest rid = bind (exec (SelectReq rid)) (\<lambda>r.
     case r of RReqs (q # _) \<Rightarrow> Ret (scanPairRequest q)
     | RErr m \<Rightarrow> Ret (Inl (ErrOther (''storage: scan pair request: '' @ m)))
     | _ \<Rightarrow> Ret (Inl ErrNotFound))"

definition SQLite_ListPendingPairRequests :: "(sterr + pair_request list) prog" where
  "SQLite_ListPendingPairRequests = bind (exec (SelectReqsByStatus StatusPending)) (\<lambda>r.
     case r of RReqs rows \<Rightarrow> Ret (scan_all scanPairRequest rows)
     | RErr m \<Rightarrow> Ret (Inl (ErrOther (''storage: list pending: '' @ m)))
     | _ \<Rightarrow> Ret (Inr []))"

definition SQLite_UpdatePairRequestStatus :: "string \<Rightarrow> string \<Rightarrow> string \<Rightarrow> string \<Rightarrow> sterr option prog" where
  "SQLite_UpdatePairRequestStatus rid to ownerJSON pathID =
     bind (exec (UpdateReq to (nullable ownerJSON) (nullable pathID) rid StatusPending)) (\<lambda>r.
       case affected ''storage: update pair status: '' r of
         Inl e \<Rightarrow> Ret (Some e)
       | Inr n \<Rightarrow>
           if n = 0 then
             bind (SQLite_GetPairRequest rid) (\<lambda>g.
               case g of Inl e \<Rightarrow> Ret (Some e)
               | Inr q \<Rightarrow>
                   if Status q = to then Ret None
                   else if Status q \<noteq> StatusPending then Ret (Some ErrConflict)
                   else Ret (Some (ErrOther
                     ''storage: update pair status: row exists but no rows affected'')))
           else Ret None)"

definition SQLite_ExpirePendingRequests :: "time \<Rightarrow> (sterr + nat) prog" where
  "SQLite_ExpirePendingRequests cutoff =
     bind (exec (ExpireReqs StatusExpired StatusPending (formatTime cutoff)))
       (\<lambda>r. Ret (affected ''storage: expire pending: '' r))"

definition SQLite_InsertPair :: "pair \<Rightarrow> sterr option prog" where
  "SQLite_InsertPair p = bind (exec (InsertPairRow (pair_to_row p))) (\<lambda>r.
     case r of RErr m \<Rightarrow> Ret (Some (insert_error ''storage: insert pair: '' m)) | _ \<Rightarrow> Ret None)"

definition SQLite_GetPair :: "string \<Rightarrow> (sterr + pair) prog" where
  "SQLite_GetPair pid = bind (exec (SelectPair pid)) (\<lambda>r.
     case r of RPairs (p # _) \<Rightarrow> Ret (scanPair p)
     | RErr m \<Rightarrow> Ret (Inl (ErrOther (''storage: get pair: '' @ m)))
     | _ \<Rightarrow> Ret (Inl ErrNotFound))"

text \<open>
  \<open>CreateSchema\<close> runs the statements one by one and stops at the first error;
  \<open>OpenSQLite\<close> sets the pragmas on the handle \<open>sql.Open\<close> gave.
\<close>

fun run_ddl :: "(string \<Rightarrow> string \<Rightarrow> string) \<Rightarrow> string list \<Rightarrow> sterr option prog" where
  "run_ddl wrap [] = Ret None"
| "run_ddl wrap (s # ss) = bind (exec (Ddl s)) (\<lambda>r.
     case r of RErr m \<Rightarrow> Ret (Some (ErrOther (wrap s m))) | _ \<Rightarrow> run_ddl wrap ss)"

definition SQLite_CreateSchema :: "string \<Rightarrow> sterr option prog" where
  "SQLite_CreateSchema schema =
     run_ddl (\<lambda>s m. ''storage: create schema: '' @ m @ '' (stmt='' @ s @ '')'') (splitStatements schema)"

definition pragmas :: "string list" where
  "pragmas = [''PRAGMA journal_mode = WAL'', ''PRAGMA busy_timeout = 5000'', ''PRAGMA foreign_keys = ON'']"

definition OpenSQLite :: "sterr option prog" where
  "OpenSQLite = run_ddl (\<lambda>s m. ''storage: '' @ s @ '': '' @ m) pragmas"

section \<open>The Storage interface\<close>

record storage =
  InsertEnvelope :: "envelope \<Rightarrow> sterr option prog"
  ListEnvelopes :: "string \<Rightarrow> direction \<Rightarrow> string \<Rightarrow> (sterr + envelope list) prog"
  DeleteEnvelopesByMsgID :: "string \<Rightarrow> string list \<Rightarrow> (sterr + nat) prog"
  DeleteEnvelopesOlderThan :: "time \<Rightarrow> (sterr + nat) prog"
  InsertPairRequest :: "pair_request \<Rightarrow> sterr option prog"
  GetPairRequest :: "string \<Rightarrow> (sterr + pair_request) prog"
  ListPendingPairRequests :: "(sterr + pair_request list) prog"
  UpdatePairRequestStatus :: "string \<Rightarrow> string \<Rightarrow> string \<Rightarrow> string \<Rightarrow> sterr option prog"
  ExpirePendingRequests :: "time \<Rightarrow> (sterr + nat) prog"
  InsertPair :: "pair \<Rightarrow> sterr option prog"
  GetPair :: "string \<Rightarrow> (sterr + pair) prog"

definition SQLite :: storage where
  "SQLite =
     \<lparr>InsertEnvelope = SQLite_InsertEnvelope, ListEnvelopes = SQLite_ListEnvelopes,
      DeleteEnvelopesByMsgID = SQLite_DeleteEnvelopesByMsgID,
      DeleteEnvelopesOlderThan = SQLite_DeleteEnvelopesOlderThan,
      InsertPairRequest = SQLite_InsertPairRequest, GetPairRequest = SQLite_GetPairRequest,
      ListPendingPairRequests = SQLite_ListPendingPairRequests,
      UpdatePairRequestStatus = SQLite_UpdatePairRequestStatus,
      ExpirePendingRequests = SQLite_ExpirePendingRequests,
      InsertPair = SQLite_InsertPair, GetPair = SQLite_GetPair\<rparr>"

end
