(* ===== verification/StoreFacts.thy ===== *)
theory StoreFacts
  imports Store
begin

text \<open>
  What the storage layer promises, and that the SQLite adapter keeps it.  The
  promise is an abstract store of three lists with one function per method of
  the \<open>Storage\<close> interface; the locales state that an adapter refines it, as far
  as each client relies on it.  SQLite is shown to be such an adapter, on worlds
  whose driver reports UNIQUE violations the documented way and whose
  statements do not fail.
\<close>

section \<open>The abstract store\<close>

record store_state =
  senvs :: "envelope list"
  sreqs :: "pair_request list"
  sprs :: "pair list"

text \<open>Times are kept to the second.\<close>

definition truncSec :: "time \<Rightarrow> time" where
  "truncSec t = t div nanosecond_per_second * nanosecond_per_second"

definition find_pair :: "store_state \<Rightarrow> string \<Rightarrow> pair option" where
  "find_pair s pid = find (\<lambda>p. PairPathID p = pid) (sprs s)"

definition find_req :: "store_state \<Rightarrow> string \<Rightarrow> pair_request option" where
  "find_req s rid = find (\<lambda>r. RequestID r = rid) (sreqs s)"

definition has_env :: "store_state \<Rightarrow> string \<Rightarrow> bool" where
  "has_env s m \<longleftrightarrow> m \<in> set (map MsgID (senvs s))"

definition inbox :: "store_state \<Rightarrow> string \<Rightarrow> direction \<Rightarrow> string \<Rightarrow> envelope list" where
  "inbox s pid dir since =
     sort_key MsgID (filter (\<lambda>e. PathID e = pid \<and> Direction e = dir \<and> since < MsgID e) (senvs s))"

definition acked :: "string \<Rightarrow> string list \<Rightarrow> envelope \<Rightarrow> bool" where
  "acked pid ids e \<longleftrightarrow> PathID e = pid \<and> MsgID e \<in> set ids"

definition spec_InsertEnvelope :: "envelope \<Rightarrow> store_state \<Rightarrow> sterr option \<times> store_state" where
  "spec_InsertEnvelope e s =
     (if has_env s (MsgID e) then (Some ErrDuplicate, s)
      else (None, s\<lparr>senvs := senvs s @ [e\<lparr>ReceivedAt := truncSec (ReceivedAt e)\<rparr>]\<rparr>))"

definition spec_ListEnvelopes :: "string \<Rightarrow> direction \<Rightarrow> string \<Rightarrow> store_state \<Rightarrow> (sterr + envelope list) \<times> store_state" where
  "spec_ListEnvelopes pid dir since s = (Inr (take listLimit (inbox s pid dir since)), s)"

definition spec_DeleteByMsgID :: "string \<Rightarrow> string list \<Rightarrow> store_state \<Rightarrow> (sterr + nat) \<times> store_state" where
  "spec_DeleteByMsgID pid ids s =
     (Inr (length (filter (acked pid ids) (senvs s))),
      s\<lparr>senvs := filter (\<lambda>e. \<not> acked pid ids e) (senvs s)\<rparr>)"

definition spec_DeleteOlderThan :: "time \<Rightarrow> store_state \<Rightarrow> (sterr + nat) \<times> store_state" where
  "spec_DeleteOlderThan cutoff s =
     (Inr (length (filter (\<lambda>e. ReceivedAt e < truncSec cutoff) (senvs s))),
      s\<lparr>senvs := filter (\<lambda>e. \<not> ReceivedAt e < truncSec cutoff) (senvs s)\<rparr>)"

definition spec_InsertPairRequest :: "pair_request \<Rightarrow> store_state \<Rightarrow> sterr option \<times> store_state" where
  "spec_InsertPairRequest r s =
     (if find_req s (RequestID r) \<noteq> None then (Some ErrDuplicate, s)
      else (None, s\<lparr>sreqs := sreqs s @
              [r\<lparr>CreatedAt := truncSec (CreatedAt r), ExpiresAt := truncSec (ExpiresAt r)\<rparr>]\<rparr>))"

definition spec_GetPairRequest :: "string \<Rightarrow> store_state \<Rightarrow> (sterr + pair_request) \<times> store_state" where
  "spec_GetPairRequest rid s = (case find_req s rid of None \<Rightarrow> Inl ErrNotFound | Some r \<Rightarrow> Inr r, s)"

definition spec_ListPending :: "store_state \<Rightarrow> (sterr + pair_request list) \<times> store_state" where
  "spec_ListPending s = (Inr (sort_key CreatedAt (filter (\<lambda>r. Status r = StatusPending) (sreqs s))), s)"

definition keep_or :: "string \<Rightarrow> string \<Rightarrow> string" where
  "keep_or new old = (if new = [] then old else new)"

definition spec_UpdateStatus :: "string \<Rightarrow> string \<Rightarrow> string \<Rightarrow> string \<Rightarrow> store_state \<Rightarrow> sterr option \<times> store_state" where
  "spec_UpdateStatus rid to own pid s =
     (case find_req s rid of None \<Rightarrow> (Some ErrNotFound, s)
      | Some q \<Rightarrow>
         if Status q = StatusPending then
           (None, s\<lparr>sreqs := map (\<lambda>r. if RequestID r = rid
              then r\<lparr>Status := to, OwnerJSON := keep_or own (OwnerJSON r), ReqPathID := keep_or pid (ReqPathID r)\<rparr>
              else r) (sreqs s)\<rparr>)
         else if Status q = to then (None, s) else (Some ErrConflict, s))"

definition expired_at :: "time \<Rightarrow> pair_request \<Rightarrow> bool" where
  "expired_at cutoff r \<longleftrightarrow> Status r = StatusPending \<and> ExpiresAt r < truncSec cutoff"

definition spec_ExpirePending :: "time \<Rightarrow> store_state \<Rightarrow> (sterr + nat) \<times> store_state" where
  "spec_ExpirePending cutoff s =
     (Inr (length (filter (expired_at cutoff) (sreqs s))),
      s\<lparr>sreqs := map (\<lambda>r. if expired_at cutoff r then r\<lparr>Status := StatusExpired\<rparr> else r) (sreqs s)\<rparr>)"

definition spec_InsertPair :: "pair \<Rightarrow> store_state \<Rightarrow> sterr option \<times> store_state" where
  "spec_InsertPair p s =
     (if find_pair s (PairPathID p) \<noteq> None then (Some ErrDuplicate, s)
      else (None, s\<lparr>sprs := sprs s @ [p\<lparr>ActivatedAt := truncSec (ActivatedAt p)\<rparr>]\<rparr>))"

definition spec_GetPair :: "string \<Rightarrow> store_state \<Rightarrow> (sterr + pair) \<times> store_state" where
  "spec_GetPair pid s = (case find_pair s pid of None \<Rightarrow> Inl ErrNotFound | Some p \<Rightarrow> Inr p, s)"

section \<open>Refinement\<close>

text \<open>
  Run in a good world, the program returns what the specification returns, ends
  in a good world that stands for the specification's state, and leaves the
  clock and the random source alone.
\<close>

definition refines ::
    "(world \<Rightarrow> store_state) \<Rightarrow> (world \<Rightarrow> bool) \<Rightarrow> 'a prog \<Rightarrow> (store_state \<Rightarrow> 'a \<times> store_state) \<Rightarrow> world \<Rightarrow> bool" where
  "refines view good p f w \<longleftrightarrow>
     (\<exists>w'. run p w = (Some (fst (f (view w))), w') \<and> view w' = snd (f (view w)) \<and> good w'
        \<and> clock w' = clock w \<and> entropy w' = entropy w)"

lemma refinesE:
  assumes "refines view good p f w"
  obtains w' where "run p w = (Some (fst (f (view w))), w')" "view w' = snd (f (view w))" "good w'"
    "clock w' = clock w" "entropy w' = entropy w"
  using assms by (auto simp: refines_def)

text \<open>The contracts, by client.\<close>

locale store_view =
  fixes st :: storage and view :: "world \<Rightarrow> store_state" and good :: "world \<Rightarrow> bool"
  assumes view_clock: "view (w\<lparr>clock := c\<rparr>) = view w"
    and good_clock: "good w \<Longrightarrow> good (w\<lparr>clock := c\<rparr>)"
    and view_entropy: "view (w\<lparr>entropy := f\<rparr>) = view w"
    and good_entropy: "good w \<Longrightarrow> good (w\<lparr>entropy := f\<rparr>)"
    and get_pair: "good w \<Longrightarrow> refines view good (GetPair st pid) (spec_GetPair pid) w"

locale mailbox_store = store_view +
  assumes env_ids: "good w \<Longrightarrow> distinct (map MsgID (senvs (view w)))"
    and insert_env: "good w \<Longrightarrow> wire_range (ReceivedAt e) \<Longrightarrow>
      refines view good (InsertEnvelope st e) (spec_InsertEnvelope e) w"
    and list_envs: "good w \<Longrightarrow> refines view good (ListEnvelopes st pid dir since) (spec_ListEnvelopes pid dir since) w"
    and delete_envs: "good w \<Longrightarrow> refines view good (DeleteEnvelopesByMsgID st pid ids) (spec_DeleteByMsgID pid ids) w"

locale expiry_store = store_view +
  assumes expire: "good w \<Longrightarrow> wire_range cutoff \<Longrightarrow>
      refines view good (ExpirePendingRequests st cutoff) (spec_ExpirePending cutoff) w"

locale pair_store = expiry_store +
  assumes insert_req: "good w \<Longrightarrow> wire_range (CreatedAt r) \<Longrightarrow> wire_range (ExpiresAt r) \<Longrightarrow>
      refines view good (InsertPairRequest st r) (spec_InsertPairRequest r) w"
    and get_req: "good w \<Longrightarrow> refines view good (GetPairRequest st rid) (spec_GetPairRequest rid) w"
    and list_pending: "good w \<Longrightarrow> refines view good (ListPendingPairRequests st) spec_ListPending w"
    and update_status: "good w \<Longrightarrow>
      refines view good (UpdatePairRequestStatus st rid to own pid) (spec_UpdateStatus rid to own pid) w"
    and insert_pair: "good w \<Longrightarrow> wire_range (ActivatedAt p) \<Longrightarrow>
      refines view good (InsertPair st p) (spec_InsertPair p) w"

locale retention_store = expiry_store +
  assumes delete_old: "good w \<Longrightarrow> wire_range cutoff \<Longrightarrow>
      refines view good (DeleteEnvelopesOlderThan st cutoff) (spec_DeleteOlderThan cutoff) w"

section \<open>Rows as values\<close>

definition wire_time :: "string \<Rightarrow> bool" where
  "wire_time s \<longleftrightarrow> (case Parse_wire s of Some t \<Rightarrow> wire_range t \<and> Format_wire t = s | None \<Rightarrow> False)"

definition the_time :: "string \<Rightarrow> time" where
  "the_time s = (case Parse_wire s of Some t \<Rightarrow> t | None \<Rightarrow> 0)"

definition env_of_row :: "env_row \<Rightarrow> envelope" where
  "env_of_row r = \<lparr>MsgID = e_msg_id r, PathID = e_path_id r, Direction = e_direction r,
     ReceivedAt = the_time (e_received_at r), Ciphertext = e_ciphertext r, Signature = e_signature r,
     OuterJSON = e_outer_json r\<rparr>"

definition req_of_row :: "req_row \<Rightarrow> pair_request" where
  "req_of_row r = \<lparr>RequestID = q_request_id r, Status = q_status r, CreatedAt = the_time (q_created_at r),
     ExpiresAt = the_time (q_expires_at r), ReqPathID = of_null (q_path_id r),
     RequesterJSON = q_requester_json r, OwnerJSON = of_null (q_owner_json r),
     TargetNexusID = q_target_nexus_id r\<rparr>"

definition pair_of_row :: "pair_row \<Rightarrow> pair" where
  "pair_of_row r = \<lparr>PairPathID = p_path_id r, RequesterID = p_requester_id r,
     RequesterPubkey = p_requester_pubkey r, RequesterDHPubkey = p_requester_dh_pubkey r,
     OwnerID = p_owner_id r, OwnerPubkey = p_owner_pubkey r, OwnerDHPubkey = p_owner_dh_pubkey r,
     SigAlg = p_sig_alg r, DhAlg = p_dh_alg r, ActivatedAt = the_time (p_activated_at r)\<rparr>"

definition db_view :: "world \<Rightarrow> store_state" where
  "db_view w = \<lparr>senvs = map env_of_row (envelopes (wdb w)), sreqs = map req_of_row (pair_requests (wdb w)),
     sprs = map pair_of_row (pairs (wdb w))\<rparr>"

definition times_ok :: "db \<Rightarrow> bool" where
  "times_ok d \<longleftrightarrow>
     list_all (\<lambda>e. wire_time (e_received_at e)) (envelopes d)
     \<and> list_all (\<lambda>q. wire_time (q_created_at q) \<and> wire_time (q_expires_at q)) (pair_requests d)
     \<and> list_all (\<lambda>p. wire_time (p_activated_at p)) (pairs d)"

definition healthy :: "world \<Rightarrow> bool" where
  "healthy w \<longleftrightarrow> faults w = [] \<and> (\<forall>c. isUniqueViolation (uv w c)) \<and> unique_keys (wdb w) \<and> times_ok (wdb w)"

lemma truncSec_idem [simp]: "truncSec (truncSec t) = truncSec t"
  by (simp add: truncSec_def)

lemma truncSec_le: "truncSec t \<le> t"
  using pos_mod_sign [of nanosecond_per_second t] div_mult_mod_eq [of t nanosecond_per_second]
  unfolding truncSec_def by linarith

lemma truncSec_range:
  assumes "wire_range t"
  shows "wire_range (truncSec t)"
proof -
  have "-62167219200 \<le> t div nanosecond_per_second"
    using zdiv_mono1 [of "-62167219200 * nanosecond_per_second" t nanosecond_per_second] assms
    by (simp add: wire_range_def)
  then have "-62167219200 * nanosecond_per_second \<le> truncSec t"
    unfolding truncSec_def by linarith
  then show ?thesis using truncSec_le [of t] assms unfolding wire_range_def by linarith
qed

lemma Format_truncSec: "Format_wire (truncSec t) = Format_wire t"
  by (simp add: Format_wire_def truncSec_def)

lemma the_time_format [simp]: "wire_range t \<Longrightarrow> the_time (formatTime t) = truncSec t"
  by (simp add: the_time_def formatTime_def Parse_Format_wire truncSec_def)

lemma wire_time_format [simp]: "wire_range t \<Longrightarrow> wire_time (formatTime t)"
  using truncSec_range [of t]
  by (simp add: wire_time_def formatTime_def Parse_Format_wire truncSec_def [symmetric] Format_truncSec)

lemma wire_timeE:
  assumes "wire_time s"
  obtains t where "wire_range t" "s = formatTime t" "the_time s = t" "truncSec t = t"
proof -
  obtain t where t: "Parse_wire s = Some t" "wire_range t" "Format_wire t = s"
    using assms by (auto simp: wire_time_def split: option.splits)
  then have "truncSec t = t" using Parse_Format_wire [OF t(2), of False] by (simp add: truncSec_def)
  then show ?thesis using t that by (simp add: formatTime_def the_time_def)
qed

lemma parseTime_wire [simp]: "wire_time s \<Longrightarrow> parseTime s = Inr (the_time s)"
  by (auto simp: wire_time_def parseTime_def the_time_def split: option.splits)

lemma wire_less_cutoff:
  assumes "wire_time s" "wire_range c"
  shows "s < formatTime c \<longleftrightarrow> the_time s < truncSec c"
proof -
  obtain t where t: "wire_range t" "s = formatTime t" "the_time s = t" "truncSec t = t"
    using assms(1) by (rule wire_timeE)
  have "s < formatTime c \<longleftrightarrow> t div nanosecond_per_second < c div nanosecond_per_second"
    using Format_wire_less_iff [OF t(1) assms(2)] t(2) by (simp add: formatTime_def)
  also have "\<dots> \<longleftrightarrow> truncSec t < truncSec c" by (simp add: truncSec_def)
  finally show ?thesis using t by simp
qed

lemma wire_less:
  assumes "wire_time s" "wire_time u"
  shows "s < u \<longleftrightarrow> the_time s < the_time u"
proof -
  obtain c where "wire_range c" "u = formatTime c" "the_time u = c" "truncSec c = c"
    using assms(2) by (rule wire_timeE)
  then show ?thesis using wire_less_cutoff [OF assms(1), of c] by simp
qed


section \<open>SQLite refines the abstract store\<close>

lemma scan_row:
  "wire_time (e_received_at e) \<Longrightarrow> scanEnvelope e = Inr (env_of_row e)"
  "wire_time (q_created_at q) \<Longrightarrow> wire_time (q_expires_at q) \<Longrightarrow> scanPairRequest q = Inr (req_of_row q)"
  "wire_time (p_activated_at p) \<Longrightarrow> scanPair p = Inr (pair_of_row p)"
  by (simp_all add: scanEnvelope_def env_of_row_def scanPairRequest_def req_of_row_def scanPair_def pair_of_row_def)

lemma scan_all_ok: "(\<And>r. r \<in> set rs \<Longrightarrow> f r = Inr (g r)) \<Longrightarrow> scan_all f rs = Inr (map g rs)"
  by (induction rs) auto

lemma row_keys [simp]:
  "MsgID (env_of_row e) = e_msg_id e" "PathID (env_of_row e) = e_path_id e"
  "Direction (env_of_row e) = e_direction e" "RequestID (req_of_row q) = q_request_id q"
  "Status (req_of_row q) = q_status q" "PairPathID (pair_of_row p) = p_path_id p"
  "CreatedAt (req_of_row q) = the_time (q_created_at q)" "ExpiresAt (req_of_row q) = the_time (q_expires_at q)"
  "ReceivedAt (env_of_row e) = the_time (e_received_at e)"
  by (simp_all add: env_of_row_def req_of_row_def pair_of_row_def)

lemma of_nullable [simp]: "of_null (nullable s) = s"
  by (simp add: of_null_def nullable_def)

lemma to_row_inverse [simp]:
  "wire_range (ReceivedAt e) \<Longrightarrow> env_of_row (env_to_row e) = e\<lparr>ReceivedAt := truncSec (ReceivedAt e)\<rparr>"
  "wire_range (CreatedAt r) \<Longrightarrow> wire_range (ExpiresAt r) \<Longrightarrow>
     req_of_row (req_to_row r) = r\<lparr>CreatedAt := truncSec (CreatedAt r), ExpiresAt := truncSec (ExpiresAt r)\<rparr>"
  "wire_range (ActivatedAt p) \<Longrightarrow> pair_of_row (pair_to_row p) = p\<lparr>ActivatedAt := truncSec (ActivatedAt p)\<rparr>"
  by (simp_all add: env_of_row_def env_to_row_def req_of_row_def req_to_row_def pair_of_row_def pair_to_row_def)

lemma to_row_keys [simp]:
  "e_msg_id (env_to_row e) = MsgID e" "q_request_id (req_to_row r) = RequestID r" "p_path_id (pair_to_row p) = PairPathID p"
  by (simp_all add: env_to_row_def req_to_row_def pair_to_row_def)

lemma find_map: "find P (map f xs) = map_option f (find (\<lambda>x. P (f x)) xs)"
  by (induction xs) auto

lemma filter_unique_find:
  "distinct (map f xs) \<Longrightarrow> filter (\<lambda>x. f x = k) xs = (case find (\<lambda>x. f x = k) xs of None \<Rightarrow> [] | Some x \<Rightarrow> [x])"
  by (induction xs) (auto simp: filter_empty_conv image_iff split: option.splits dest!: find_Some_mem)

lemma find_view [simp]:
  "find_pair (db_view w) pid = map_option pair_of_row (pair_of (wdb w) pid)"
  "find_req (db_view w) rid = map_option req_of_row (req_of (wdb w) rid)"
  by (simp_all add: find_pair_def find_req_def db_view_def find_map pair_of_def req_of_def)

lemma run_exec_healthy:
  "faults w = [] \<Longrightarrow> run (exec s) w
     = (Some (fst (exec_stmt (uv w) s (wdb w))), w\<lparr>wdb := snd (exec_stmt (uv w) s (wdb w))\<rparr>)"
  by (simp add: run_exec exec_world_def split_beta Let_def)

lemma healthyD:
  assumes "healthy w"
  shows "faults w = []" "isUniqueViolation (uv w c)" "unique_keys (wdb w)" "times_ok (wdb w)"
  using assms by (auto simp: healthy_def)

lemma healthy_update:
  "healthy w \<Longrightarrow> unique_keys d \<Longrightarrow> times_ok d \<Longrightarrow> healthy (w\<lparr>wdb := d\<rparr>)"
  by (simp add: healthy_def)

lemma world_wdb_same [simp]: "w\<lparr>wdb := wdb w\<rparr> = w"
  by simp

text \<open>A read: the world is unchanged, so only the value matters.\<close>

lemma refines_read:
  assumes "run p w = (Some a, w)" "healthy w" "f (db_view w) = (a, db_view w)"
  shows "refines db_view healthy p f w"
  using assms by (simp add: refines_def)

text \<open>A write: the tables it leaves are a healthy database that stands for the new state.\<close>

lemma refines_write:
  assumes "run p w = (Some a, w\<lparr>wdb := d\<rparr>)" "healthy w" "unique_keys d" "times_ok d"
    and "f (db_view w) = (a, db_view (w\<lparr>wdb := d\<rparr>))"
  shows "refines db_view healthy p f w"
  using assms by (simp add: refines_def healthy_update)

lemma SQLite_GetPair_refines:
  assumes "healthy w"
  shows "refines db_view healthy (SQLite_GetPair pid) (spec_GetPair pid) w"
proof -
  note h = healthyD [OF assms]
  have f: "filter (\<lambda>p. p_path_id p = pid) (pairs (wdb w))
      = (case pair_of (wdb w) pid of None \<Rightarrow> [] | Some p \<Rightarrow> [p])"
    using h(3) by (simp add: unique_keys_def filter_unique_find pair_of_def)
  have "wire_time (p_activated_at p)" if "pair_of (wdb w) pid = Some p" for p
    using h(4) find_Some_mem [OF that [unfolded pair_of_def]] by (auto simp: times_ok_def list_all_iff)
  then have "run (SQLite_GetPair pid) w = (Some (fst (spec_GetPair pid (db_view w))), w)"
    using h(1) by (auto simp: SQLite_GetPair_def run_bind run_exec_healthy f spec_GetPair_def scan_row split: option.splits)
  then show ?thesis using assms by (rule refines_read) (simp add: spec_GetPair_def)
qed

lemma SQLite_GetPairRequest_refines:
  assumes "healthy w"
  shows "refines db_view healthy (SQLite_GetPairRequest rid) (spec_GetPairRequest rid) w"
    and "run (SQLite_GetPairRequest rid) w = (Some (fst (spec_GetPairRequest rid (db_view w))), w)"
proof -
  note h = healthyD [OF assms]
  have f: "filter (\<lambda>p. q_request_id p = rid) (pair_requests (wdb w))
      = (case req_of (wdb w) rid of None \<Rightarrow> [] | Some p \<Rightarrow> [p])"
    using h(3) by (simp add: unique_keys_def filter_unique_find req_of_def)
  have "wire_time (q_created_at q) \<and> wire_time (q_expires_at q)" if "req_of (wdb w) rid = Some q" for q
    using h(4) find_Some_mem [OF that [unfolded req_of_def]] by (auto simp: times_ok_def list_all_iff)
  then show r: "run (SQLite_GetPairRequest rid) w = (Some (fst (spec_GetPairRequest rid (db_view w))), w)"
    using h(1) by (auto simp: SQLite_GetPairRequest_def run_bind run_exec_healthy f spec_GetPairRequest_def scan_row
        split: option.splits)
  show "refines db_view healthy (SQLite_GetPairRequest rid) (spec_GetPairRequest rid) w"
    using r assms by (rule refines_read) (simp add: spec_GetPairRequest_def)
qed

lemma has_env_view: "has_env (db_view w) m \<longleftrightarrow> m \<in> set (map e_msg_id (envelopes (wdb w)))"
  by (simp add: has_env_def db_view_def image_image)

lemma SQLite_InsertEnvelope_refines:
  assumes "healthy w" "wire_range (ReceivedAt e)"
  shows "refines db_view healthy (SQLite_InsertEnvelope e) (spec_InsertEnvelope e) w"
proof (cases "has_env (db_view w) (MsgID e)")
  case True
  then have "run (SQLite_InsertEnvelope e) w = (Some (Some ErrDuplicate), w)"
    using healthyD [OF assms(1)]
    by (auto simp: SQLite_InsertEnvelope_def run_bind run_exec_healthy has_env_view insert_error_def)
  then show ?thesis using assms(1) by (rule refines_read) (use True in \<open>simp add: spec_InsertEnvelope_def\<close>)
next
  case False
  let ?d = "(wdb w)\<lparr>envelopes := envelopes (wdb w) @ [env_to_row e]\<rparr>"
  have "run (SQLite_InsertEnvelope e) w = (Some None, w\<lparr>wdb := ?d\<rparr>)"
    using False healthyD [OF assms(1)]
    by (auto simp: SQLite_InsertEnvelope_def run_bind run_exec_healthy has_env_view)
  then show ?thesis
  proof (rule refines_write [OF _ assms(1)])
    show "unique_keys ?d" "times_ok ?d"
      using healthyD [OF assms(1)] False assms(2)
      by (auto simp: unique_keys_def times_ok_def has_env_view env_to_row_def)
  qed (use False assms(2) in \<open>simp add: spec_InsertEnvelope_def db_view_def\<close>)
qed


lemma sort_key_map: "sort_key f (map g xs) = map g (sort_key (f \<circ> g) xs)"
proof -
  have "map g (insort_key (f \<circ> g) x ys) = insort_key f (g x) (map g ys)" for x ys
    by (induction ys) auto
  then show ?thesis by (induction xs) auto
qed

lemma inbox_view:
  "inbox (db_view w) pid dir since
     = map env_of_row (sort_key e_msg_id (filter (env_wanted pid dir since) (envelopes (wdb w))))"
  by (simp add: inbox_def db_view_def filter_map comp_def sort_key_map env_wanted_def [abs_def])

lemma SQLite_ListEnvelopes_refines:
  assumes "healthy w"
  shows "refines db_view healthy (SQLite_ListEnvelopes pid dir since) (spec_ListEnvelopes pid dir since) w"
proof -
  let ?rows = "take listLimit (sort_key e_msg_id (filter (env_wanted pid dir since) (envelopes (wdb w))))"
  have "scan_all scanEnvelope ?rows = Inr (map env_of_row ?rows)"
  proof (rule scan_all_ok)
    show "scanEnvelope r = Inr (env_of_row r)" if "r \<in> set ?rows" for r
      using that healthyD(4) [OF assms] by (auto simp: times_ok_def list_all_iff scan_row dest: in_set_takeD)
  qed
  then have "run (SQLite_ListEnvelopes pid dir since) w
      = (Some (fst (spec_ListEnvelopes pid dir since (db_view w))), w)"
    using healthyD(1) [OF assms]
    by (simp add: SQLite_ListEnvelopes_def run_bind run_exec_healthy spec_ListEnvelopes_def inbox_view take_map)
  then show ?thesis using assms by (rule refines_read) (simp add: spec_ListEnvelopes_def)
qed

lemma times_ok_filter: "times_ok d \<Longrightarrow> times_ok (d\<lparr>envelopes := filter P (envelopes d)\<rparr>)"
  by (auto simp: times_ok_def list_all_iff)

lemma unique_keys_filter: "unique_keys d \<Longrightarrow> unique_keys (d\<lparr>envelopes := filter P (envelopes d)\<rparr>)"
  by (auto simp: unique_keys_def distinct_map_filter)

lemma acked_view: "filter (acked pid ids) (map env_of_row rs) = map env_of_row (filter (env_acked pid ids) rs)"
  "filter (\<lambda>e. \<not> acked pid ids e) (map env_of_row rs) = map env_of_row (filter (\<lambda>e. \<not> env_acked pid ids e) rs)"
  by (simp_all add: filter_map comp_def acked_def env_acked_def [abs_def])

lemma SQLite_DeleteByMsgID_refines:
  assumes "healthy w"
  shows "refines db_view healthy (SQLite_DeleteEnvelopesByMsgID pid ids) (spec_DeleteByMsgID pid ids) w"
proof (cases "ids = []")
  case True
  then have "run (SQLite_DeleteEnvelopesByMsgID pid ids) w = (Some (Inr 0), w)"
    by (simp add: SQLite_DeleteEnvelopesByMsgID_def)
  then show ?thesis using assms
    by (rule refines_read) (simp add: spec_DeleteByMsgID_def acked_def True)
next
  case False
  let ?d = "(wdb w)\<lparr>envelopes := filter (\<lambda>e. \<not> env_acked pid ids e) (envelopes (wdb w))\<rparr>"
  have "run (SQLite_DeleteEnvelopesByMsgID pid ids) w
      = (Some (Inr (length (filter (env_acked pid ids) (envelopes (wdb w))))), w\<lparr>wdb := ?d\<rparr>)"
    using False healthyD(1) [OF assms]
    by (simp add: SQLite_DeleteEnvelopesByMsgID_def run_bind run_exec_healthy affected_def)
  then show ?thesis
    using assms unique_keys_filter [OF healthyD(3) [OF assms]] times_ok_filter [OF healthyD(4) [OF assms]]
    by (rule refines_write) (simp add: spec_DeleteByMsgID_def db_view_def acked_view)
qed

lemma SQLite_DeleteOlderThan_refines:
  assumes "healthy w" "wire_range cutoff"
  shows "refines db_view healthy (SQLite_DeleteEnvelopesOlderThan cutoff) (spec_DeleteOlderThan cutoff) w"
proof -
  let ?es = "envelopes (wdb w)"
  let ?d = "(wdb w)\<lparr>envelopes := filter (\<lambda>e. \<not> e_received_at e < formatTime cutoff) ?es\<rparr>"
  have old: "e_received_at e < formatTime cutoff \<longleftrightarrow> the_time (e_received_at e) < truncSec cutoff"
    if "e \<in> set ?es" for e
    using that healthyD(4) [OF assms(1)] assms(2) by (simp add: wire_less_cutoff times_ok_def list_all_iff)
  have "run (SQLite_DeleteEnvelopesOlderThan cutoff) w
      = (Some (Inr (length (filter (\<lambda>e. e_received_at e < formatTime cutoff) ?es))), w\<lparr>wdb := ?d\<rparr>)"
    using healthyD(1) [OF assms(1)]
    by (simp add: SQLite_DeleteEnvelopesOlderThan_def run_bind run_exec_healthy affected_def)
  then show ?thesis
    using assms(1) unique_keys_filter [OF healthyD(3) [OF assms(1)]] times_ok_filter [OF healthyD(4) [OF assms(1)]]
  proof (rule refines_write)
    show "spec_DeleteOlderThan cutoff (db_view w)
      = (Inr (length (filter (\<lambda>e. e_received_at e < formatTime cutoff) ?es)), db_view (w\<lparr>wdb := ?d\<rparr>))"
      using old by (simp add: spec_DeleteOlderThan_def db_view_def filter_map comp_def cong: filter_cong)
  qed
qed

lemma find_req_None: "find_req (db_view w) rid = None \<longleftrightarrow> rid \<notin> set (map q_request_id (pair_requests (wdb w)))"
  by (simp add: find_key_None req_of_def)

lemma find_pair_None: "find_pair (db_view w) pid = None \<longleftrightarrow> pid \<notin> set (map p_path_id (pairs (wdb w)))"
  by (simp add: find_key_None pair_of_def)

lemma SQLite_InsertPairRequest_refines:
  assumes "healthy w" "wire_range (CreatedAt r)" "wire_range (ExpiresAt r)"
  shows "refines db_view healthy (SQLite_InsertPairRequest r) (spec_InsertPairRequest r) w"
proof (cases "find_req (db_view w) (RequestID r) = None")
  case False
  then have "run (SQLite_InsertPairRequest r) w = (Some (Some ErrDuplicate), w)"
    using healthyD [OF assms(1)] unfolding find_req_None
    by (auto simp: SQLite_InsertPairRequest_def run_bind run_exec_healthy insert_error_def)
  then show ?thesis using assms(1)
    by (rule refines_read) (use False in \<open>simp add: spec_InsertPairRequest_def\<close>)
next
  case True
  let ?d = "(wdb w)\<lparr>pair_requests := pair_requests (wdb w) @ [req_to_row r]\<rparr>"
  have new: "RequestID r \<notin> set (map q_request_id (pair_requests (wdb w)))" using True find_req_None by blast
  then have "run (SQLite_InsertPairRequest r) w = (Some None, w\<lparr>wdb := ?d\<rparr>)"
    using healthyD [OF assms(1)]
    by (auto simp: SQLite_InsertPairRequest_def run_bind run_exec_healthy)
  then show ?thesis
  proof (rule refines_write [OF _ assms(1)])
    show "unique_keys ?d" "times_ok ?d"
      using healthyD [OF assms(1)] new assms(2,3)
      by (auto simp: unique_keys_def times_ok_def req_to_row_def)
  qed (use True assms(2,3) in \<open>simp add: spec_InsertPairRequest_def db_view_def\<close>)
qed

lemma SQLite_InsertPair_refines:
  assumes "healthy w" "wire_range (ActivatedAt p)"
  shows "refines db_view healthy (SQLite_InsertPair p) (spec_InsertPair p) w"
proof (cases "find_pair (db_view w) (PairPathID p) = None")
  case False
  then have "run (SQLite_InsertPair p) w = (Some (Some ErrDuplicate), w)"
    using healthyD [OF assms(1)] unfolding find_pair_None
    by (auto simp: SQLite_InsertPair_def run_bind run_exec_healthy insert_error_def)
  then show ?thesis using assms(1)
    by (rule refines_read) (use False in \<open>simp add: spec_InsertPair_def\<close>)
next
  case True
  let ?d = "(wdb w)\<lparr>pairs := pairs (wdb w) @ [pair_to_row p]\<rparr>"
  have new: "PairPathID p \<notin> set (map p_path_id (pairs (wdb w)))" using True find_pair_None by blast
  then have "run (SQLite_InsertPair p) w = (Some None, w\<lparr>wdb := ?d\<rparr>)"
    using healthyD [OF assms(1)]
    by (auto simp: SQLite_InsertPair_def run_bind run_exec_healthy)
  then show ?thesis
  proof (rule refines_write [OF _ assms(1)])
    show "unique_keys ?d" "times_ok ?d"
      using healthyD [OF assms(1)] new assms(2)
      by (auto simp: unique_keys_def times_ok_def pair_to_row_def)
  qed (use True assms(2) in \<open>simp add: spec_InsertPair_def db_view_def\<close>)
qed


lemma insort_key_same_order:
  "(\<And>y. y \<in> set ys \<Longrightarrow> f x \<le> f y \<longleftrightarrow> g x \<le> g y) \<Longrightarrow> insort_key f x ys = insort_key g x ys"
  by (induction ys) auto

lemma sort_key_same_order:
  assumes "\<And>x y. x \<in> set xs \<Longrightarrow> y \<in> set xs \<Longrightarrow> f x \<le> f y \<longleftrightarrow> g x \<le> g y"
  shows "sort_key f xs = sort_key g xs"
  using assms
proof (induction xs)
  case (Cons x xs)
  then have "sort_key f xs = sort_key g xs" by simp
  then show ?case using Cons.prems by (auto intro!: insort_key_same_order)
qed simp

lemma SQLite_ListPending_refines:
  assumes "healthy w"
  shows "refines db_view healthy SQLite_ListPendingPairRequests spec_ListPending w"
proof -
  let ?qs = "filter (\<lambda>r. q_status r = StatusPending) (pair_requests (wdb w))"
  have t: "wire_time (q_created_at q) \<and> wire_time (q_expires_at q)" if "q \<in> set ?qs" for q
    using that healthyD(4) [OF assms] by (auto simp: times_ok_def list_all_iff)
  have "sort_key q_created_at ?qs = sort_key (CreatedAt \<circ> req_of_row) ?qs"
    by (rule sort_key_same_order) (metis (no_types, lifting) comp_apply leD not_le_imp_less row_keys(7) t wire_less)
  moreover have "scan_all scanPairRequest (sort_key q_created_at ?qs) = Inr (map req_of_row (sort_key q_created_at ?qs))"
    by (rule scan_all_ok) (use t in \<open>simp add: scan_row\<close>)
  ultimately have "run SQLite_ListPendingPairRequests w = (Some (fst (spec_ListPending (db_view w))), w)"
    using healthyD(1) [OF assms]
    by (simp add: SQLite_ListPendingPairRequests_def run_bind run_exec_healthy spec_ListPending_def db_view_def
        filter_map comp_def sort_key_map)
  then show ?thesis using assms by (rule refines_read) (simp add: spec_ListPending_def)
qed

lemma req_matches_view:
  "unique_keys d \<Longrightarrow> filter (req_matches rid st) (pair_requests d)
     = (case req_of d rid of None \<Rightarrow> [] | Some q \<Rightarrow> if q_status q = st then [q] else [])"
proof -
  assume u: "unique_keys d"
  have "filter (req_matches rid st) (pair_requests d)
      = filter (\<lambda>r. q_status r = st) (filter (\<lambda>r. q_request_id r = rid) (pair_requests d))"
    by (simp add: req_matches_def [abs_def] conj_commute)
  also have "\<dots> = (case req_of d rid of None \<Rightarrow> [] | Some q \<Rightarrow> if q_status q = st then [q] else [])"
    using u by (simp add: unique_keys_def filter_unique_find req_of_def split: option.splits)
  finally show ?thesis .
qed

lemma map_req_unchanged:
  assumes "filter (req_matches rid st) rs = []"
  shows "map (\<lambda>r. if req_matches rid st r then update_req to own pid r else r) rs = rs"
  using assms by (induction rs) (auto split: if_splits)

lemma update_view:
  assumes "unique_keys d" "req_of d rid = Some q" "q_status q = StatusPending"
  shows "map req_of_row (map (\<lambda>r. if req_matches rid StatusPending r
      then update_req to (nullable own) (nullable pid) r else r) (pair_requests d))
    = map (\<lambda>r. if RequestID r = rid
        then r\<lparr>Status := to, OwnerJSON := keep_or own (OwnerJSON r), ReqPathID := keep_or pid (ReqPathID r)\<rparr> else r)
      (map req_of_row (pair_requests d))"
proof -
  have q: "q_status r = StatusPending" if "r \<in> set (pair_requests d)" "q_request_id r = rid" for r
  proof -
    have "q \<in> set (pair_requests d)" "q_request_id q = rid"
      using find_Some_mem [OF assms(2) [unfolded req_of_def]] by auto
    then have "r = q"
      using that assms(1) by (auto simp: unique_keys_def dest: distinct_map_inj [of q_request_id _ r q])
    then show ?thesis using assms(3) by simp
  qed
  show ?thesis unfolding map_map
  proof (rule map_cong [OF refl])
    show "(req_of_row \<circ> (\<lambda>r. if req_matches rid StatusPending r then update_req to (nullable own) (nullable pid) r else r)) r
      = ((\<lambda>r. if RequestID r = rid
        then r\<lparr>Status := to, OwnerJSON := keep_or own (OwnerJSON r), ReqPathID := keep_or pid (ReqPathID r)\<rparr> else r) \<circ> req_of_row) r"
      if "r \<in> set (pair_requests d)" for r
      using q [OF that]
      by (auto simp: req_matches_def req_of_row_def update_req_def coalesce_def nullable_def keep_or_def of_null_def)
  qed
qed

lemma times_ok_map_req:
  "times_ok d \<Longrightarrow> (\<And>r. q_created_at (f r) = q_created_at r \<and> q_expires_at (f r) = q_expires_at r) \<Longrightarrow>
    times_ok (d\<lparr>pair_requests := map f (pair_requests d)\<rparr>)"
  by (simp add: times_ok_def list_all_iff)

lemma unique_keys_map_req:
  "unique_keys d \<Longrightarrow> (\<And>r. q_request_id (f r) = q_request_id r) \<Longrightarrow>
    unique_keys (d\<lparr>pair_requests := map f (pair_requests d)\<rparr>)"
  by (simp add: unique_keys_def comp_def)

lemma SQLite_UpdateStatus_refines:
  assumes "healthy w"
  shows "refines db_view healthy (SQLite_UpdatePairRequestStatus rid to own pid) (spec_UpdateStatus rid to own pid) w"
proof -
  note h = healthyD [OF assms]
  let ?f = "\<lambda>r. if req_matches rid StatusPending r then update_req to (nullable own) (nullable pid) r else r"
  let ?d = "(wdb w)\<lparr>pair_requests := map ?f (pair_requests (wdb w))\<rparr>"
  note m = req_matches_view [OF h(3), of rid StatusPending]
  show ?thesis
  proof (cases "\<exists>q. req_of (wdb w) rid = Some q \<and> q_status q = StatusPending")
    case True
    then obtain q where q: "req_of (wdb w) rid = Some q" "q_status q = StatusPending" by blast
    then have "run (SQLite_UpdatePairRequestStatus rid to own pid) w = (Some None, w\<lparr>wdb := ?d\<rparr>)"
      using h(1) m by (simp add: SQLite_UpdatePairRequestStatus_def run_bind run_exec_healthy affected_def)
    then show ?thesis
    proof (rule refines_write [OF _ assms])
      show "unique_keys ?d" using h(3) by (rule unique_keys_map_req) simp
      show "times_ok ?d" using h(4) by (rule times_ok_map_req) (simp add: update_req_def)
      show "spec_UpdateStatus rid to own pid (db_view w) = (None, db_view (w\<lparr>wdb := ?d\<rparr>))"
        using q update_view [OF h(3) q, of to own pid] by (simp add: spec_UpdateStatus_def) (simp add: db_view_def)
    qed
  next
    case False
    then have e: "filter (req_matches rid StatusPending) (pair_requests (wdb w)) = []"
      using m by (auto split: option.splits)
    then have "run (SQLite_UpdatePairRequestStatus rid to own pid) w
        = (Some (fst (spec_UpdateStatus rid to own pid (db_view w))), w)"
      using h(1) False SQLite_GetPairRequest_refines(2) [OF assms, of rid]
      by (simp add: SQLite_UpdatePairRequestStatus_def run_bind run_exec_healthy affected_def map_req_unchanged
          spec_UpdateStatus_def spec_GetPairRequest_def split: option.splits)
    then show ?thesis using assms
      by (rule refines_read) (use False in \<open>auto simp: spec_UpdateStatus_def split: option.splits\<close>)
  qed
qed

lemma SQLite_ExpirePending_refines:
  assumes "healthy w" "wire_range cutoff"
  shows "refines db_view healthy (SQLite_ExpirePendingRequests cutoff) (spec_ExpirePending cutoff) w"
proof -
  note h = healthyD [OF assms(1)]
  let ?stale = "req_stale StatusPending (formatTime cutoff)"
  let ?f = "\<lambda>r. if ?stale r then r\<lparr>q_status := StatusExpired\<rparr> else r"
  let ?d = "(wdb w)\<lparr>pair_requests := map ?f (pair_requests (wdb w))\<rparr>"
  have s: "?stale r \<longleftrightarrow> expired_at cutoff (req_of_row r)" if "r \<in> set (pair_requests (wdb w))" for r
    using that h(4) assms(2) by (simp add: req_stale_def expired_at_def wire_less_cutoff times_ok_def list_all_iff)
  have "run (SQLite_ExpirePendingRequests cutoff) w
      = (Some (Inr (length (filter ?stale (pair_requests (wdb w))))), w\<lparr>wdb := ?d\<rparr>)"
    using h(1) by (simp add: SQLite_ExpirePendingRequests_def run_bind run_exec_healthy affected_def)
  then show ?thesis
  proof (rule refines_write [OF _ assms(1)])
    show "unique_keys ?d" using h(3) by (rule unique_keys_map_req) simp
    show "times_ok ?d" using h(4) by (rule times_ok_map_req) simp
    have "map req_of_row (map ?f (pair_requests (wdb w)))
        = map (\<lambda>r. if expired_at cutoff r then r\<lparr>Status := StatusExpired\<rparr> else r) (map req_of_row (pair_requests (wdb w)))"
      using s by (auto simp: req_of_row_def)
    moreover have "length (filter (expired_at cutoff) (map req_of_row (pair_requests (wdb w))))
        = length (filter ?stale (pair_requests (wdb w)))"
      using s by (simp add: filter_map comp_def cong: filter_cong)
    ultimately show "spec_ExpirePending cutoff (db_view w)
        = (Inr (length (filter ?stale (pair_requests (wdb w)))), db_view (w\<lparr>wdb := ?d\<rparr>))"
      by (simp add: spec_ExpirePending_def db_view_def)
  qed
qed

declare find_view [simp del]

lemma db_view_ignores [simp]:
  "db_view (w\<lparr>clock := c\<rparr>) = db_view w" "db_view (w\<lparr>entropy := f\<rparr>) = db_view w"
  "healthy (w\<lparr>clock := c\<rparr>) = healthy w" "healthy (w\<lparr>entropy := f\<rparr>) = healthy w"
  by (simp_all add: db_view_def healthy_def)

lemma db_view_env_ids: "healthy w \<Longrightarrow> distinct (map MsgID (senvs (db_view w)))"
  by (simp add: db_view_def comp_def healthy_def unique_keys_def)

interpretation mail_sq: mailbox_store SQLite db_view healthy
  by unfold_locales
    (simp_all add: SQLite_def db_view_env_ids SQLite_GetPair_refines SQLite_InsertEnvelope_refines
      SQLite_ListEnvelopes_refines SQLite_DeleteByMsgID_refines)

interpretation pair_sq: pair_store SQLite db_view healthy
  by unfold_locales
    (simp_all add: SQLite_def SQLite_ExpirePending_refines SQLite_InsertPairRequest_refines
      SQLite_GetPairRequest_refines(1) SQLite_ListPending_refines SQLite_UpdateStatus_refines SQLite_InsertPair_refines)

interpretation retention_sq: retention_store SQLite db_view healthy
  by unfold_locales (simp_all add: SQLite_def SQLite_DeleteOlderThan_refines)

end
