(* ===== verification/Crypto.thy ===== *)
theory Crypto
  imports StoreFacts Codec
begin

text \<open>
  Request authentication: the \<open>Verifier\<close> interface of \<open>internal/mailbox\<close>, its
  fail-closed \<open>StubVerifier\<close>, and \<open>EdVerifier\<close> of \<open>internal/crypto\<close>.
  \<open>ed25519.Verify\<close> is the argument \<open>ed\<close> (key, message, signature); nothing is
  assumed of it.
\<close>

section \<open>The interface\<close>

text \<open>
  \<open>Identify\<close> takes the pair, the signature header and the signed text; it gives an
  error, or the public key of the caller, empty when nobody is identified.
\<close>

type_synonym verifier = "pair \<Rightarrow> string \<Rightarrow> string \<Rightarrow> string + string"

definition StubVerifier_Identify :: verifier where
  "StubVerifier_Identify p sig msg = Inr []"

section \<open>EdVerifier\<close>

definition PublicKeySize :: nat where "PublicKeySize = 32"
definition SignatureSize :: nat where "SignatureSize = 64"

definition decodeB64URL :: "string \<Rightarrow> bytes option" where
  "decodeB64URL s = URLDecodeString (pad_b64 s)"

type_synonym ed_verify = "bytes \<Rightarrow> bytes \<Rightarrow> bytes \<Rightarrow> bool"

fun try_halves :: "ed_verify \<Rightarrow> string \<Rightarrow> bytes \<Rightarrow> bytes \<Rightarrow> string list \<Rightarrow> string + string" where
  "try_halves ed pathID msg sig [] = Inr []"
| "try_halves ed pathID msg sig (k # ks) =
     (case decodeB64URL k of
        None \<Rightarrow> Inl (''crypto: stored pubkey not base64url for pair '' @ pathID)
      | Some pub \<Rightarrow>
          if length pub \<noteq> PublicKeySize then Inl (''crypto: stored pubkey wrong size for pair '' @ pathID)
          else if ed pub msg sig then Inr k
          else try_halves ed pathID msg sig ks)"

definition EdVerifier_Identify :: "ed_verify \<Rightarrow> verifier" where
  "EdVerifier_Identify ed p sigB64 msg =
     (if SigAlg p \<noteq> ''ed25519'' then Inl (''crypto: unsupported sig_alg: '' @ SigAlg p)
      else if sigB64 = [] then Inr []
      else (case decodeB64URL sigB64 of
              None \<Rightarrow> Inr []
            | Some sig \<Rightarrow>
                if length sig \<noteq> SignatureSize then Inr []
                else try_halves ed (PairPathID p) (to_bytes msg) sig [RequesterPubkey p, OwnerPubkey p]))"

section \<open>The contract\<close>

text \<open>A caller a verifier identifies is one of the pair's halves.\<close>

locale verifier =
  fixes identify :: verifier
  assumes in_pair: "identify p sig msg = Inr k \<Longrightarrow> k \<noteq> [] \<Longrightarrow> k = RequesterPubkey p \<or> k = OwnerPubkey p"

interpretation stub_verifier: verifier StubVerifier_Identify
  by unfold_locales (simp add: StubVerifier_Identify_def)

text \<open>A signature by a key: the decoded key and signature have their sizes and the check succeeds.\<close>

definition signed_by :: "ed_verify \<Rightarrow> string \<Rightarrow> string \<Rightarrow> string \<Rightarrow> bool" where
  "signed_by ed k sigB64 msg \<longleftrightarrow>
     (case (decodeB64URL k, decodeB64URL sigB64) of
        (Some pub, Some sig) \<Rightarrow>
          length pub = PublicKeySize \<and> length sig = SignatureSize \<and> ed pub (to_bytes msg) sig
      | _ \<Rightarrow> False)"

lemma try_halves_Inr:
  assumes "try_halves ed pid msg sig ks = Inr k" "k \<noteq> []"
  shows "k \<in> set ks \<and> (\<exists>pub. decodeB64URL k = Some pub \<and> length pub = PublicKeySize \<and> ed pub msg sig)"
  using assms by (induction ks) (auto split: option.splits if_splits)

lemma EdVerifier_identified:
  assumes "EdVerifier_Identify ed p sigB64 msg = Inr k" and "k \<noteq> []"
  shows "k \<in> {RequesterPubkey p, OwnerPubkey p}" "SigAlg p = ''ed25519''" "signed_by ed k sigB64 msg"
proof -
  have alg: "SigAlg p = ''ed25519''" and sig: "sigB64 \<noteq> []"
    using assms by (auto simp: EdVerifier_Identify_def split: if_splits)
  obtain s where s: "decodeB64URL sigB64 = Some s"
    using assms alg sig by (cases "decodeB64URL sigB64") (simp_all add: EdVerifier_Identify_def)
  have len: "length s = SignatureSize"
    using assms alg sig s by (cases "length s = SignatureSize") (simp_all add: EdVerifier_Identify_def)
  have t: "try_halves ed (PairPathID p) (to_bytes msg) s [RequesterPubkey p, OwnerPubkey p] = Inr k"
    using assms(1) alg sig s len by (simp add: EdVerifier_Identify_def del: try_halves.simps)
  show "SigAlg p = ''ed25519''" by (rule alg)
  show "k \<in> {RequesterPubkey p, OwnerPubkey p}" "signed_by ed k sigB64 msg"
    using try_halves_Inr [OF t assms(2)] s len by (auto simp: signed_by_def)
qed

text \<open>
  The verifier names a caller only when that caller is a half of the pair and
  the signature header is a valid Ed25519 signature of exactly this message under
  that half's registered key.
\<close>

theorem EdVerifier_sound:
  assumes "EdVerifier_Identify ed p sigB64 msg = Inr k" and "k \<noteq> []"
  shows "k \<in> {RequesterPubkey p, OwnerPubkey p} \<and> SigAlg p = ''ed25519'' \<and> signed_by ed k sigB64 msg"
  using EdVerifier_identified [OF assms] by blast

text \<open>A toy signature scheme (the signature starts with the key) and a pair for the examples.\<close>

definition toy_ed :: ed_verify where
  "toy_ed pub msg sig \<longleftrightarrow> take 32 sig = pub"

definition key_A :: string where "key_A = replicate 43 CHR ''A''"
definition key_B :: string where "key_B = replicate 42 CHR ''B'' @ ''A''"

definition demo_pair :: pair where
  "demo_pair = \<lparr>PairPathID = ''nxc_'' @ replicate 43 CHR ''x'', RequesterID = ''alpha'', RequesterPubkey = key_A,
     RequesterDHPubkey = [], OwnerID = ''beta'', OwnerPubkey = key_B, OwnerDHPubkey = [],
     SigAlg = ''ed25519'', DhAlg = ''P-256'', ActivatedAt = 0\<rparr>"

definition sig_A :: string where "sig_A = replicate 86 CHR ''A''"

lemma demo_identify: "EdVerifier_Identify toy_ed demo_pair sig_A ''hello'' = Inr key_A"
  by code_simp

theorem EdVerifier_sound_witness:
  "key_A \<in> {RequesterPubkey demo_pair, OwnerPubkey demo_pair} \<and> SigAlg demo_pair = ''ed25519''
     \<and> signed_by toy_ed key_A sig_A ''hello''"
  by (rule EdVerifier_sound [OF demo_identify]) (simp add: key_A_def)

text \<open>A pair as the approval handler stores it: Ed25519, both keys well-formed.\<close>

definition key_ok :: "string \<Rightarrow> bool" where
  "key_ok k \<longleftrightarrow> (case decodeB64URL k of Some pub \<Rightarrow> length pub = PublicKeySize | None \<Rightarrow> False)"

definition pair_keys_ok :: "pair \<Rightarrow> bool" where
  "pair_keys_ok p \<longleftrightarrow> SigAlg p = ''ed25519'' \<and> key_ok (RequesterPubkey p) \<and> key_ok (OwnerPubkey p)"

lemma decodeB64URL_Nil [simp]: "decodeB64URL [] = Some []"
  by code_simp

text \<open>
  For a pair with well-formed keys the verifier never fails: it names the
  requester when the signature is the requester's, otherwise the owner when it is the
  owner's, and otherwise nobody.
\<close>

theorem EdVerifier_exact:
  assumes "pair_keys_ok p"
  shows "EdVerifier_Identify ed p sigB64 msg =
    Inr (if signed_by ed (RequesterPubkey p) sigB64 msg then RequesterPubkey p
         else if signed_by ed (OwnerPubkey p) sigB64 msg then OwnerPubkey p else [])"
proof (cases "decodeB64URL sigB64")
  case None
  then show ?thesis using assms
    by (auto simp: EdVerifier_Identify_def pair_keys_ok_def signed_by_def split: option.splits)
next
  case (Some s)
  then have "s = []" if "sigB64 = []" using that by simp
  then show ?thesis using assms Some
    by (auto simp: EdVerifier_Identify_def pair_keys_ok_def key_ok_def signed_by_def SignatureSize_def
        split: option.splits)
qed

theorem EdVerifier_exact_witness:
  "EdVerifier_Identify toy_ed demo_pair (replicate 86 CHR ''B'') ''hello'' = Inr key_B"
  by (subst EdVerifier_exact) code_simp+

interpretation ed_verifier: verifier "EdVerifier_Identify ed" for ed
  by unfold_locales (use EdVerifier_identified(1) in auto)

end
