(* ===== verification/JsonFacts.thy ===== *)
theory JsonFacts
  imports Json
begin

text \<open>
  The round trip of \<open>encoding/json\<close>: what the encoder writes for an object of
  string fields, the decoder reads back, byte for byte when the strings are UTF-8.
\<close>

section \<open>Runes\<close>

lemma byte_in_D: "byte_in c lo hi \<Longrightarrow> lo \<le> of_char c \<and> of_char c \<le> hi"
  by (simp add: byte_in_def)

text \<open>The four shapes of a well-formed rune.\<close>

definition second_ok :: "char \<Rightarrow> char \<Rightarrow> bool" where
  "second_ok a b \<longleftrightarrow>
     (if byte_in a 0xE0 0xEF
      then byte_in b (if byte_in a 0xE0 0xE0 then 0xA0 else 0x80) (if byte_in a 0xED 0xED then 0x9F else 0xBF)
      else byte_in b (if byte_in a 0xF0 0xF0 then 0x90 else 0x80) (if byte_in a 0xF4 0xF4 then 0x8F else 0xBF))"

lemma rune_len_shape:
  "rune_len [] = 0"
  "byte_in a 0 0x7F \<Longrightarrow> rune_len (a # r) = 1"
  "byte_in a 0xC2 0xDF \<Longrightarrow> rune_len (a # r) = (case r of b # _ \<Rightarrow> if cont_byte b then 2 else 0 | [] \<Rightarrow> 0)"
  "byte_in a 0xE0 0xEF \<Longrightarrow> rune_len (a # r) =
     (case r of b # c # _ \<Rightarrow> if second_ok a b \<and> cont_byte c then 3 else 0 | _ \<Rightarrow> 0)"
  "byte_in a 0xF0 0xF4 \<Longrightarrow> rune_len (a # r) =
     (case r of b # c # d # _ \<Rightarrow> if second_ok a b \<and> cont_byte c \<and> cont_byte d then 4 else 0 | _ \<Rightarrow> 0)"
  "\<not> byte_in a 0 0x7F \<Longrightarrow> \<not> byte_in a 0xC2 0xDF \<Longrightarrow> \<not> byte_in a 0xE0 0xEF \<Longrightarrow> \<not> byte_in a 0xF0 0xF4
     \<Longrightarrow> rune_len (a # r) = 0"
proof -
  have e: "\<not> byte_in a 0 0x7F" if "byte_in a lo hi" "0x7F < lo" for lo hi
    using that by (auto simp: byte_in_def)
  have f: "\<not> byte_in a 0xC2 0xDF" if "byte_in a lo hi" "0xDF < lo" for lo hi
    using that by (auto simp: byte_in_def)
  have g: "\<not> byte_in a 0xE0 0xEF" if "byte_in a lo hi" "0xEF < lo" for lo hi
    using that by (auto simp: byte_in_def)
  show "byte_in a 0xC2 0xDF \<Longrightarrow> rune_len (a # r) = (case r of b # _ \<Rightarrow> if cont_byte b then 2 else 0 | [] \<Rightarrow> 0)"
    by (simp add: rune_len_def e)
  show "byte_in a 0xE0 0xEF \<Longrightarrow> rune_len (a # r) =
     (case r of b # c # _ \<Rightarrow> if second_ok a b \<and> cont_byte c then 3 else 0 | _ \<Rightarrow> 0)"
    by (simp add: rune_len_def e f second_ok_def split: list.splits)
  show "byte_in a 0xF0 0xF4 \<Longrightarrow> rune_len (a # r) =
     (case r of b # c # d # _ \<Rightarrow> if second_ok a b \<and> cont_byte c \<and> cont_byte d then 4 else 0 | _ \<Rightarrow> 0)"
    by (simp add: rune_len_def e f g second_ok_def split: list.splits)
qed (simp_all add: rune_len_def)

lemma rune_cases:
  assumes "rune_len s \<noteq> 0"
  obtains (one) a r where "s = a # r" "byte_in a 0 0x7F" "rune_len s = 1"
  | (two) a b r where "s = a # b # r" "byte_in a 0xC2 0xDF" "cont_byte b" "rune_len s = 2"
  | (three) a b c r where "s = a # b # c # r" "byte_in a 0xE0 0xEF" "second_ok a b" "cont_byte c" "rune_len s = 3"
  | (four) a b c d r where "s = a # b # c # d # r" "byte_in a 0xF0 0xF4" "second_ok a b" "cont_byte c"
      "cont_byte d" "rune_len s = 4"
proof (cases s)
  case Nil
  then show ?thesis using assms by (simp add: rune_len_shape)
next
  case s: (Cons a r)
  consider "byte_in a 0 0x7F" | "byte_in a 0xC2 0xDF" | "byte_in a 0xE0 0xEF" | "byte_in a 0xF0 0xF4"
    using assms rune_len_shape(6) [of a r] s by auto
  then show ?thesis
  proof cases
    case 1
    with s show ?thesis by (intro one [of a r]) (simp_all add: rune_len_shape)
  next
    case 2
    with assms s obtain b r' where "r = b # r'" "cont_byte b"
      by (auto simp: rune_len_shape split: list.splits if_splits)
    with 2 s show ?thesis by (intro two [of a b r']) (simp_all add: rune_len_shape)
  next
    case 3
    with assms s obtain b c r' where "r = b # c # r'" "second_ok a b" "cont_byte c"
      by (auto simp: rune_len_shape split: list.splits if_splits)
    with 3 s show ?thesis by (intro three [of a b c r']) (simp_all add: rune_len_shape)
  next
    case 4
    with assms s obtain b c d r' where "r = b # c # d # r'" "second_ok a b" "cont_byte c" "cont_byte d"
      by (auto simp: rune_len_shape split: list.splits if_splits)
    with 4 s show ?thesis by (intro four [of a b c d r']) (simp_all add: rune_len_shape)
  qed
qed

lemma rune_len_le: "rune_len s \<le> length s"
proof (cases "rune_len s = 0")
  case False
  then show ?thesis by (cases rule: rune_cases) simp_all
qed simp

lemma rune_len_take:
  assumes "n = rune_len s" "n \<noteq> 0"
  shows "rune_len (take n s @ t) = n"
  using assms(2) unfolding assms(1)
  by (cases rule: rune_cases) (simp_all add: rune_len_shape numeral_eq_Suc)

lemma second_ok_high: "second_ok a b \<Longrightarrow> 128 \<le> (of_char b :: nat)"
  by (auto simp: second_ok_def byte_in_def split: if_splits)

lemma rune_len_high:
  assumes "1 < rune_len s" and "c \<in> set (take (rune_len s) s)"
  shows "128 \<le> (of_char c :: nat)"
proof -
  have "rune_len s \<noteq> 0" using assms(1) by simp
  then show ?thesis
    using assms by (cases rule: rune_cases) (auto simp: numeral_eq_Suc byte_in_def dest: second_ok_high)
qed

lemma rune_len_1: "rune_len (c # cs) = 1 \<longleftrightarrow> (of_char c :: nat) < 128"
proof
  show "(of_char c :: nat) < 128" if "rune_len (c # cs) = 1"
  proof -
    have "rune_len (c # cs) \<noteq> 0" using that by simp
    then show ?thesis using that by (cases rule: rune_cases) (auto simp: byte_in_def)
  qed
qed (simp add: rune_len_shape byte_in_def)

lemma rune_len_head_high: "rune_len (c # cs) \<noteq> 1 \<Longrightarrow> 128 \<le> (of_char c :: nat)"
  using rune_len_1 [of c cs] by linarith

lemma take_drop_pred: "n \<noteq> 0 \<Longrightarrow> take n (c # cs) @ drop (n - 1) cs = c # cs"
  by (cases n) auto

lemma valid_utf8_fix_id: "valid_utf8 s \<Longrightarrow> utf8_fix s = s"
proof (induction s rule: valid_utf8.induct)
  case (2 c cs)
  then show ?case using take_drop_pred [of "rune_len (c # cs)" c cs] by (simp add: Let_def)
qed simp

lemma valid_utf8_rune_append:
  "n = rune_len s \<Longrightarrow> n \<noteq> 0 \<Longrightarrow> valid_utf8 (take n s @ t) = valid_utf8 t"
proof -
  assume n: "n = rune_len s" "n \<noteq> 0"
  have len: "length (take n s) = n" using rune_len_le [of s] n by simp
  then obtain a r where ar: "take n s = a # r" using n(2) by (cases "take n s") auto
  have "drop (n - 1) (r @ t) = t" using ar len by (cases n) auto
  moreover have "rune_len (a # r @ t) = n" using rune_len_take [OF n, of t] ar by simp
  ultimately show ?thesis using ar n(2) by (simp add: Let_def)
qed

lemma rune_len_error [simp]: "rune_len (rune_error @ t) = 3"
  by (simp add: rune_len_def rune_error_def byte_in_def)

lemma valid_utf8_error [simp]: "valid_utf8 (rune_error @ t) = valid_utf8 t"
  using valid_utf8_rune_append [of 3 "rune_error" t] rune_len_error [of "[]"]
  by (simp add: rune_error_def)

lemma valid_utf8_fix [simp]: "valid_utf8 (utf8_fix s)"
proof (induction s rule: utf8_fix.induct)
  case (2 c cs)
  then show ?case
    using valid_utf8_rune_append [of "rune_len (c # cs)" "c # cs"] by (simp add: Let_def)
qed simp

lemma utf8_fix_iff: "utf8_fix s = s \<longleftrightarrow> valid_utf8 s"
  by (metis valid_utf8_fix valid_utf8_fix_id)

lemma valid_utf8_ascii: "\<forall>c \<in> set s. (of_char c :: nat) < 128 \<Longrightarrow> valid_utf8 s"
proof (induction s)
  case (Cons c cs)
  then show ?case using rune_len_1 [of c cs] by (simp add: Let_def)
qed simp

section \<open>Quoting\<close>

declare lex.simps(2) [simp del]

lemmas lex_run = lex.simps(2) lex_step_def

lemma map_option_Nil_append [simp]: "map_option ((@) []) x = x"
  by (cases x) auto

text \<open>Characters the scanner keeps in a string literal.\<close>

definition plain :: "char \<Rightarrow> bool" where
  "plain c \<longleftrightarrow> c \<noteq> CHR 0x22 \<and> c \<noteq> CHR 0x5C \<and> 32 \<le> (of_char c :: nat)"

lemma lex_plain: "plain c \<Longrightarrow> lex (LS acc) (c # t) = lex (LS (c # acc)) t"
  by (auto simp: lex_run plain_def byte_in_def)

lemma lex_plains: "\<forall>c \<in> set p. plain c \<Longrightarrow> lex (LS acc) (p @ t) = lex (LS (rev p @ acc)) t"
  by (induction p arbitrary: acc) (auto simp: lex_plain)

lemma plain_high: "128 \<le> (of_char c :: nat) \<Longrightarrow> plain c"
  by (auto simp: plain_def)

lemma hex_val_digit [simp]: "n < 16 \<Longrightarrow> hex_val (hex_digit n) = Some n"
  by (auto simp: hex_val_def hex_digit_def Let_def)

lemma lex_u4:
  assumes "hex_val a \<noteq> None" "hex_val b \<noteq> None" "hex_val c \<noteq> None" "hex_val d \<noteq> None"
  shows "lex (LS acc) (CHR 0x5C # CHR ''u'' # a # b # c # d # t)
    = lex (LS (d # c # b # a # CHR ''u'' # CHR 0x5C # acc)) t"
  using assms by (auto simp: lex_run)

lemma of_char_ascii_lt: "rune_len (c # cs) = 1 \<Longrightarrow> (of_char c :: nat) < 128"
  using rune_len_1 [of c cs] by simp

lemma hex_val_0 [simp]: "hex_val CHR ''0'' = Some 0" "hex_val CHR ''2'' = Some 2"
  "hex_val CHR ''8'' = Some 8" "hex_val CHR ''9'' = Some 9" "hex_val CHR ''f'' = Some 15"
  "hex_val CHR ''d'' = Some 13"
  by (simp_all add: hex_val_def)

lemma lex_escape_ascii:
  assumes "(of_char c :: nat) < 128"
  shows "lex (LS acc) (escape_ascii html c @ t) = lex (LS (rev (escape_ascii html c) @ acc)) t"
proof -
  let ?n = "of_char c :: nat"
  have q: "?n div 16 < 16" using assms by (simp add: div_less_iff_less_mult)
  show ?thesis
  proof (cases "c = CHR 0x22 \<or> c = CHR 0x5C \<or> ?n \<in> {8, 9, 10, 12, 13}")
    case True
    then show ?thesis by (auto simp: escape_ascii_def lex_run Let_def)
  next
    case False
    note F = this
    show ?thesis
    proof (cases "?n < 32 \<or> html \<and> (c = CHR ''<'' \<or> c = CHR ''>'' \<or> c = CHR ''&'')")
      case True
      then have "escape_ascii html c = [CHR 0x5C, CHR ''u'', CHR ''0'', CHR ''0''] @ hex_lower ?n"
        using F by (simp add: escape_ascii_def Let_def)
      then show ?thesis using q by (simp add: lex_u4 hex_lower_def)
    next
      case n: False
      then have "escape_ascii html c = [c]" "plain c"
        using F by (auto simp: escape_ascii_def Let_def plain_def)
      then show ?thesis by (simp add: lex_plain)
    qed
  qed
qed

lemma lex_escape:
  "lex (LS acc) (escape html s @ t) = lex (LS (rev (escape html s) @ acc)) t"
proof (induction html s arbitrary: acc rule: escape.induct)
  case (2 html c cs)
  let ?n = "rune_len (c # cs)"
  consider "?n = 1" | "?n = 0" | "1 < ?n" by linarith
  then show ?case
  proof cases
    case 1
    then show ?thesis using 2(1) [OF refl] lex_escape_ascii [OF of_char_ascii_lt [OF 1]] by simp
  next
    case 2
    then show ?thesis using "2.IH"(2) by (simp add: Let_def lex_u4)
  next
    case 3
    then have "\<forall>c \<in> set (take ?n (c # cs)). plain c"
      using rune_len_high [OF 3] plain_high by blast
    with 3 "2.IH"(3-5) show ?thesis
      by (auto simp: Let_def lex_u4 lex_plains simp del: take_Suc_Cons)
  qed
qed simp


lemma unquote_backslash:
  "e \<noteq> CHR ''u'' \<Longrightarrow> unquote (CHR 0x5C # e # t) = simple_escape e # unquote t"
  by simp

lemma unquote_u4:
  assumes "hex4 (a # b # c # d # t) = Some u" "\<not> high_surrogate u" "\<not> low_surrogate u"
  shows "unquote (CHR 0x5C # CHR ''u'' # a # b # c # d # t) = utf8_enc u @ unquote t"
  using assms by simp

lemma unquote_rune:
  assumes "n = rune_len (c # cs)" "n \<noteq> 0" "c \<noteq> CHR 0x5C"
  shows "unquote (take n (c # cs) @ t) = take n (c # cs) @ unquote t"
proof -
  have len: "length (take n (c # cs)) = n" using rune_len_le [of "c # cs"] assms(1) by simp
  obtain m where m: "n = Suc m" using assms(2) by (cases n) auto
  have r: "rune_len (take n (c # cs) @ t) = n" using rune_len_take [OF assms(1,2)] .
  have l2: "length (take m cs) = m" using len m by simp
  show ?thesis using r assms(3) m l2 by (simp add: Let_def)
qed

lemma utf8_enc_ascii: "(of_char c :: nat) < 128 \<Longrightarrow> utf8_enc (of_char c) = [c]"
  by (simp add: utf8_enc_def)

lemma char_code:
  "(of_char c :: nat) = 8 \<longleftrightarrow> c = CHR 0x08" "(of_char c :: nat) = 9 \<longleftrightarrow> c = CHR 0x09"
  "(of_char c :: nat) = 10 \<longleftrightarrow> c = CHR 0x0A" "(of_char c :: nat) = 12 \<longleftrightarrow> c = CHR 0x0C"
  "(of_char c :: nat) = 13 \<longleftrightarrow> c = CHR 0x0D"
  using of_char_eq_iff [where 'a = nat, of c "CHR 0x08"] of_char_eq_iff [where 'a = nat, of c "CHR 0x09"]
    of_char_eq_iff [where 'a = nat, of c "CHR 0x0A"] of_char_eq_iff [where 'a = nat, of c "CHR 0x0C"]
    of_char_eq_iff [where 'a = nat, of c "CHR 0x0D"]
  by simp_all

lemma unquote_escape_ascii:
  assumes "(of_char c :: nat) < 128"
  shows "unquote (escape_ascii html c @ t) = c # unquote t"
proof -
  let ?n = "of_char c :: nat"
  have q: "?n div 16 < 16" using assms by (simp add: div_less_iff_less_mult)
  consider "c = CHR 0x22 \<or> c = CHR 0x5C" | "c \<noteq> CHR 0x22 \<and> c \<noteq> CHR 0x5C \<and> ?n \<in> {8, 9, 10, 12, 13}"
    | "c \<noteq> CHR 0x22 \<and> c \<noteq> CHR 0x5C \<and> ?n \<notin> {8, 9, 10, 12, 13}" by blast
  then show ?thesis
  proof cases
    case 1
    then show ?thesis by (auto simp: escape_ascii_def simple_escape_def unquote_backslash simp del: unquote.simps(2))
  next
    case 2
    then have "c \<in> {CHR 0x08, CHR 0x09, CHR 0x0A, CHR 0x0C, CHR 0x0D}"
      by (auto simp: char_code)
    then show ?thesis
      by (auto simp: escape_ascii_def simple_escape_def unquote_backslash simp del: unquote.simps(2))
  next
    case 3
    show ?thesis
    proof (cases "?n < 32 \<or> html \<and> (c = CHR ''<'' \<or> c = CHR ''>'' \<or> c = CHR ''&'')")
      case True
      then have e: "escape_ascii html c = [CHR 0x5C, CHR ''u'', CHR ''0'', CHR ''0''] @ hex_lower ?n"
        using 3 by (simp add: escape_ascii_def Let_def)
      have "hex4 (CHR ''0'' # CHR ''0'' # hex_digit (?n div 16) # hex_digit (?n mod 16) # t) = Some ?n"
        using q by simp
      moreover have "\<not> high_surrogate ?n" "\<not> low_surrogate ?n"
        using assms by (auto simp: high_surrogate_def low_surrogate_def)
      ultimately have "unquote (CHR 0x5C # CHR ''u'' # CHR ''0'' # CHR ''0'' # hex_digit (?n div 16) # hex_digit (?n mod 16) # t)
          = utf8_enc ?n @ unquote t"
        by (rule unquote_u4)
      then show ?thesis using assms by (simp add: e hex_lower_def utf8_enc_ascii del: unquote.simps(2))
    next
      case n: False
      then have e: "escape_ascii html c = [c]"
        using 3 by (auto simp: escape_ascii_def Let_def)
      have "rune_len [c] = 1" using rune_len_1 [of c "[]"] assms by simp
      then show ?thesis using unquote_rune [of 1 c "[]" t] 3 by (simp add: e del: unquote.simps(2))
    qed
  qed
qed

lemma unquote_u:
  "unquote (CHR 0x5C # CHR ''u'' # CHR ''f'' # CHR ''f'' # CHR ''f'' # CHR ''d'' # t) = rune_error @ unquote t"
  "unquote (CHR 0x5C # CHR ''u'' # CHR ''2'' # CHR ''0'' # CHR ''2'' # CHR ''8'' # t)
    = [CHR 0xE2, CHR 0x80, CHR 0xA8] @ unquote t"
  "unquote (CHR 0x5C # CHR ''u'' # CHR ''2'' # CHR ''0'' # CHR ''2'' # CHR ''9'' # t)
    = [CHR 0xE2, CHR 0x80, CHR 0xA9] @ unquote t"
  by (simp_all add: high_surrogate_def low_surrogate_def utf8_enc_def rune_error_def char_of_def bit_Suc bit_0)

lemma unquote_escape_append: "unquote (escape html s @ t) = utf8_fix s @ unquote t"
proof (induction html s arbitrary: t rule: escape.induct)
  case (2 html c cs)
  let ?n = "rune_len (c # cs)"
  consider "?n = 1" | "?n = 0" | "1 < ?n" by linarith
  then show ?case
  proof cases
    case 1
    then show ?thesis using "2.IH"(1) [OF refl] unquote_escape_ascii [OF of_char_ascii_lt [OF 1]]
      by (simp del: unquote.simps(2))
  next
    case 2
    then show ?thesis using "2.IH"(2) by (simp add: Let_def unquote_u del: unquote.simps(2))
  next
    case 3
    then have "c \<noteq> CHR 0x5C" using rune_len_1 [of c cs] by auto
    then have "unquote (take ?n (c # cs) @ u) = take ?n (c # cs) @ unquote u" for u
      using 3 by (intro unquote_rune) auto
    with 3 "2.IH"(3-5) show ?thesis
      by (auto simp: Let_def unquote_u simp del: take_Suc_Cons unquote.simps(2))
  qed
qed simp

lemma unquote_escape [simp]: "unquote (escape html s) = utf8_fix s"
  using unquote_escape_append [of html s "[]"] by simp

lemma lex_quote: "lex LN (quote html s @ t) = map_option ((#) (TStr (utf8_fix s))) (lex LN t)"
proof -
  have "lex LN (quote html s @ t) = lex (LS []) (escape html s @ CHR 0x22 # t)"
    by (simp add: quote_def lex_run lex_start_def json_space_def)
  also have "\<dots> = lex (LS (rev (escape html s))) (CHR 0x22 # t)"
    by (simp add: lex_escape)
  also have "\<dots> = map_option ((#) (TStr (utf8_fix s))) (lex LN t)"
    by (cases "lex LN t") (simp_all add: lex_run)
  finally show ?thesis .
qed


section \<open>Objects of string fields\<close>

text \<open>The tokens of an encoded object.\<close>

fun member_toks :: "(string \<times> string) list \<Rightarrow> tok list" where
  "member_toks [] = []"
| "member_toks [(k, v)] = [TStr (utf8_fix k), TColon, TStr (utf8_fix v)]"
| "member_toks ((k, v) # m # ms) = TStr (utf8_fix k) # TColon # TStr (utf8_fix v) # TComma # member_toks (m # ms)"

lemma lex_punct:
  "lex LN (CHR ''{'' # t) = map_option ((#) TLBrace) (lex LN t)"
  "lex LN (CHR ''}'' # t) = map_option ((#) TRBrace) (lex LN t)"
  "lex LN (CHR '':'' # t) = map_option ((#) TColon) (lex LN t)"
  "lex LN (CHR '','' # t) = map_option ((#) TComma) (lex LN t)"
  by (cases "lex LN t"; simp add: lex_run lex_start_def json_space_def)+

lemma lex_members:
  "lex LN (render_members html ms @ t) = map_option ((@) (member_toks ms)) (lex LN t)"
proof (induction html ms rule: render_members.induct)
  case (2 html k v)
  then show ?case by (cases "lex LN t") (simp_all add: lex_quote lex_punct)
next
  case (3 html k v m ms)
  then show ?case by (cases "lex LN t") (simp_all add: lex_quote lex_punct)
qed (simp add: option.map_id0 [unfolded id_def])

lemma lex_render: "lex LN (render_strings html ms) = Some (TLBrace # member_toks ms @ [TRBrace])"
  by (simp add: render_strings_def lex_punct lex_members lex_end_def)

lemma parse_members:
  assumes "ms \<noteq> []" and "e = PKey \<or> e = PKeyOrEnd"
  shows "parse_toks e [FObj acc] (member_toks ms @ [TRBrace])
    = Some (JObj (acc @ map (\<lambda>(k, v). (utf8_fix k, JStr (utf8_fix v))) ms))"
  using assms
proof (induction ms arbitrary: acc e rule: member_toks.induct)
  case (2 k v)
  then show ?case by (auto simp: parse_step_def value_start_def scalar_def attach_def close_def)
next
  case (3 k v m ms)
  then show ?case by (auto simp: parse_step_def value_start_def scalar_def attach_def close_def)
qed simp

lemma json_parse_render:
  "json_parse (render_strings html ms) = Some (JObj (map (\<lambda>(k, v). (utf8_fix k, JStr (utf8_fix v))) ms))"
proof (cases "ms = []")
  case True
  then show ?thesis
    by (simp add: json_parse_def lex_render parse_step_def value_start_def close_def attach_def maxNestingDepth_def)
next
  case False
  then show ?thesis using parse_members [OF False, of PKeyOrEnd "[]"]
    by (simp add: json_parse_def lex_render parse_step_def value_start_def maxNestingDepth_def)
qed

text \<open>Decoding what was encoded from a struct with the same fields gives the fields back.\<close>

lemma find_self: "n \<in> set names \<Longrightarrow> find (\<lambda>x. x = n) names = Some n"
  by (induction names) auto

lemma match_field_self [simp]: "n \<in> set names \<Longrightarrow> match_field names n = Some n"
  by (simp add: match_field_def find_self)

lemma assign_strings_own:
  assumes "set (map fst ms) \<subseteq> set names" "distinct (map fst ms)"
  shows "assign_strings names (map (\<lambda>(k, v). (k, JStr (f v))) ms) (env, err)
    = ((\<lambda>n. case map_of ms n of Some v \<Rightarrow> f v | None \<Rightarrow> env n), err)"
  using assms
proof (induction ms arbitrary: env)
  case (Cons m ms)
  obtain k v where m: "m = (k, v)" by (cases m)
  have "map_of ms k = None" using Cons.prems(2) m by (simp add: map_of_eq_None_iff)
  then show ?case using Cons m by (auto simp: fun_eq_iff split: option.splits)
qed simp

theorem unmarshal_render:
  assumes "\<forall>n \<in> set names. valid_utf8 n" "set (map fst ms) \<subseteq> set names" "distinct (map fst ms)"
  shows "unmarshal_strings names (render_strings html ms)
    = Some (\<lambda>n. case map_of ms n of Some v \<Rightarrow> utf8_fix v | None \<Rightarrow> [])"
proof -
  have k: "map (\<lambda>(k, v). (utf8_fix k, JStr (utf8_fix v))) ms = map (\<lambda>(k, v). (k, JStr (utf8_fix v))) ms"
    using assms(1,2) by (auto simp: valid_utf8_fix_id subset_iff split_beta)
  show ?thesis
    by (simp only: unmarshal_strings_def json_parse_render k option.case json.case Let_def
        assign_strings_own [OF assms(2,3)] prod.case if_False no_fields_def)
qed

text \<open>The encoding is injective on texts of UTF-8, and in general up to \<open>utf8_fix\<close>.\<close>

lemma render_strings_inj:
  assumes "render_strings html (zip ks vs) = render_strings html' (zip ks ws)"
    and "length vs = length ks" "length ws = length ks"
  shows "map utf8_fix vs = map utf8_fix ws"
proof -
  have "map (\<lambda>(k, v). (utf8_fix k, JStr (utf8_fix v))) (zip ks vs)
      = map (\<lambda>(k, v). (utf8_fix k, JStr (utf8_fix v))) (zip ks ws)"
    using arg_cong [OF assms(1), of json_parse] by (simp add: json_parse_render)
  then have "map snd (map (\<lambda>(k, v). (utf8_fix k, JStr (utf8_fix v))) (zip ks vs))
      = map snd (map (\<lambda>(k, v). (utf8_fix k, JStr (utf8_fix v))) (zip ks ws))" by simp
  then have "map (\<lambda>v. JStr (utf8_fix v)) (map snd (zip ks vs)) = map (\<lambda>v. JStr (utf8_fix v)) (map snd (zip ks ws))"
    by (simp add: comp_def split_beta)
  then have "map (\<lambda>v. JStr (utf8_fix v)) vs = map (\<lambda>v. JStr (utf8_fix v)) ws"
    using assms(2,3) by simp
  then have "map JStr (map utf8_fix vs) = map JStr (map utf8_fix ws)"
    by (simp add: comp_def)
  then show ?thesis by (metis (no_types) inj_map_eq_map injI json.inject(3))
qed

end
