(* ===== verification/Mailbox.thy ===== *)
theory Mailbox
  imports Http Crypto JsonFacts Sha256
begin

text \<open>
  \<open>internal/mailbox\<close>: the PUT, GET and ack handlers as effect programs over a
  \<open>storage\<close> and a \<open>verifier\<close>, with their validation helpers, check by check in the
  order of the code.
\<close>

section \<open>Outer envelopes\<close>

record OuterEnvelope =
  Version :: string
  EnvMsgID :: string
  Ts :: string
  EnvPathID :: string
  CiphertextSHA256 :: string
  EnvCiphertext :: string

definition replayWindow :: duration where "replayWindow = 5 * Minute"
definition maxAckBatch :: nat where "maxAckBatch = 100"

definition env_fields :: "string list" where
  "env_fields = [''version'', ''msg_id'', ''ts'', ''path_id'', ''ciphertext_sha256'', ''ciphertext'']"

definition env_of_fields :: "fields \<Rightarrow> OuterEnvelope" where
  "env_of_fields f = \<lparr>Version = f ''version'', EnvMsgID = f ''msg_id'', Ts = f ''ts'', EnvPathID = f ''path_id'',
     CiphertextSHA256 = f ''ciphertext_sha256'', EnvCiphertext = f ''ciphertext''\<rparr>"

text \<open>\<open>json.Unmarshal(body, &env)\<close>.\<close>

definition unmarshalEnvelope :: "string \<Rightarrow> OuterEnvelope option" where
  "unmarshalEnvelope b = map_option env_of_fields (unmarshal_strings env_fields b)"

definition validEnvelopeSchema :: "OuterEnvelope \<Rightarrow> bool" where
  "validEnvelopeSchema e \<longleftrightarrow>
     Version e = ''1'' \<and> EnvMsgID e \<noteq> [] \<and> Ts e \<noteq> [] \<and> EnvPathID e \<noteq> [] \<and>
     CiphertextSHA256 e \<noteq> [] \<and> EnvCiphertext e \<noteq> []"

definition parseTs :: "string \<Rightarrow> time option" where
  "parseTs ts = (case Parse_RFC3339 ts of Some t \<Rightarrow> Some t | None \<Rightarrow> Parse_wire ts)"

definition tsInWindow :: "string \<Rightarrow> time \<Rightarrow> bool" where
  "tsInWindow ts now' =
     (case parseTs ts of None \<Rightarrow> False
      | Some t \<Rightarrow>
         let d = time_Sub now' t;
             d' = (if d < 0 then neg64 d else d)
         in d' \<le> replayWindow)"

definition base64urlDecode :: "string \<Rightarrow> bytes option" where
  "base64urlDecode s = URLDecodeString (pad_b64 s)"

definition directionFrom :: "pair \<Rightarrow> string \<Rightarrow> direction" where
  "directionFrom p sender =
     (if sender = RequesterPubkey p then AToB else if sender = OwnerPubkey p then BToA else [])"

definition readDirectionFor :: "pair \<Rightarrow> string \<Rightarrow> direction" where
  "readDirectionFor p caller =
     (if caller = RequesterPubkey p then BToA else if caller = OwnerPubkey p then AToB else [])"

definition canonicalJSON :: "OuterEnvelope \<Rightarrow> string" where
  "canonicalJSON e = TrimRight CHR 0x0A (render_strings False
     [(''ciphertext'', EnvCiphertext e), (''ciphertext_sha256'', CiphertextSHA256 e), (''msg_id'', EnvMsgID e),
      (''path_id'', EnvPathID e), (''ts'', Ts e), (''version'', Version e)] @ [CHR 0x0A])"

section \<open>PUT /mailbox/:pathId\<close>

definition putLimit :: nat where "putLimit = 2097152"

text \<open>The checks before the clock is read, and those after.\<close>

definition put_parse :: "request \<Rightarrow> string \<Rightarrow> response + (string \<times> OuterEnvelope)" where
  "put_parse r pathID =
     (case readLimited putLimit r of
        None \<Rightarrow> Inl (errorJSON 400 ''body_read_failed'')
      | Some b \<Rightarrow>
       (case unmarshalEnvelope b of
          None \<Rightarrow> Inl (errorJSON 400 ''invalid_json'')
        | Some env \<Rightarrow>
            if \<not> validEnvelopeSchema env then Inl (errorJSON 400 ''invalid_envelope'')
            else if EnvPathID env \<noteq> pathID then Inl (errorJSON 400 ''path_id_mismatch'')
            else if \<not> uuidv7Regex (EnvMsgID env) then Inl (errorJSON 400 ''invalid_msg_id'')
            else Inr (b, env)))"

definition put_admit :: "verifier \<Rightarrow> pair \<Rightarrow> request \<Rightarrow> OuterEnvelope \<Rightarrow> time \<Rightarrow> response + direction" where
  "put_admit vf p r env t =
     (if \<not> tsInWindow (Ts env) t then Inl (errorJSON 400 ''ts_out_of_window'')
      else (case base64urlDecode (EnvCiphertext env) of
        None \<Rightarrow> Inl (errorJSON 400 ''ciphertext_not_base64url'')
      | Some ct \<Rightarrow>
          if hex_EncodeToString (sha256 ct) \<noteq> CiphertextSHA256 env
          then Inl (errorJSON 400 ''ciphertext_hash_mismatch'')
          else (case vf p (Get (hdr r) ''X-Nexus-Signature'') (canonicalJSON env) of
            Inl _ \<Rightarrow> Inl (errorJSON 500 ''verifier_error'')
          | Inr sender \<Rightarrow>
              if sender = [] then Inl (errorJSON 401 ''signature_invalid'')
              else if directionFrom p sender = [] then Inl (errorJSON 401 ''sender_not_in_pair'')
              else Inr (directionFrom p sender))))"

definition put_envelope :: "request \<Rightarrow> string \<Rightarrow> string \<Rightarrow> OuterEnvelope \<Rightarrow> direction \<Rightarrow> time \<Rightarrow> envelope" where
  "put_envelope r pathID b env dir t =
     \<lparr>MsgID = EnvMsgID env, PathID = pathID, Direction = dir, ReceivedAt = t, Ciphertext = EnvCiphertext env,
      Signature = Get (hdr r) ''X-Nexus-Signature'', OuterJSON = b\<rparr>"

definition put :: "storage \<Rightarrow> verifier \<Rightarrow> request \<Rightarrow> string \<Rightarrow> response prog" where
  "put st vf r pathID = bind (GetPair st pathID) (\<lambda>g.
     case g of
       Inl e \<Rightarrow> Ret (if e = ErrNotFound then errorJSON 404 ''pair_not_found'' else errorJSON 500 ''storage_error'')
     | Inr p \<Rightarrow>
        (case put_parse r pathID of Inl resp \<Rightarrow> Ret resp
         | Inr (b, env) \<Rightarrow> bind now (\<lambda>t.
            case put_admit vf p r env t of Inl resp \<Rightarrow> Ret resp
            | Inr dir \<Rightarrow> bind now (\<lambda>t'.
                bind (InsertEnvelope st (put_envelope r pathID b env dir t')) (\<lambda>e.
                  Ret (case e of
                         Some ErrDuplicate \<Rightarrow> errorJSON 409 ''duplicate_msg_id''
                       | Some _ \<Rightarrow> errorJSON 500 ''storage_error''
                       | None \<Rightarrow> writeJSON 202 (JObj [(''msg_id'', JStr (EnvMsgID env))])))))))"

section \<open>GET /mailbox/:pathId\<close>

definition signedPath :: "request \<Rightarrow> string" where
  "signedPath r = (if rawQuery r = [] then path r else path r @ ''?'' @ rawQuery r)"

text \<open>Authentication of a reader, shared with ack up to the text signed and the checks in between.\<close>

definition identify_caller :: "verifier \<Rightarrow> pair \<Rightarrow> request \<Rightarrow> string \<Rightarrow> response + string" where
  "identify_caller vf p r signedBytes =
     (case vf p (Get (hdr r) ''X-Nexus-Signature'') signedBytes of
        Inl _ \<Rightarrow> Inl (errorJSON 500 ''verifier_error'')
      | Inr caller \<Rightarrow> if caller = [] then Inl (errorJSON 401 ''signature_invalid'') else Inr caller)"

definition cursor_of :: "envelope list \<Rightarrow> json" where
  "cursor_of es = (let c = (if es = [] then [] else MsgID (last es)) in if c = [] then JNull else JStr c)"

definition list_response :: "envelope list \<Rightarrow> response" where
  "list_response es = writeJSON 200 (JObj
     [(''envelopes'', JArr (map (\<lambda>e. JRaw (OuterJSON e)) es)), (''cursor'', cursor_of es)])"

definition get :: "storage \<Rightarrow> verifier \<Rightarrow> request \<Rightarrow> string \<Rightarrow> response prog" where
  "get st vf r pathID = bind (GetPair st pathID) (\<lambda>g.
     case g of
       Inl e \<Rightarrow> Ret (if e = ErrNotFound then errorJSON 404 ''pair_not_found'' else errorJSON 500 ''storage_error'')
     | Inr p \<Rightarrow>
        (case identify_caller vf p r (signedPath r) of Inl resp \<Rightarrow> Ret resp
         | Inr caller \<Rightarrow>
            (let since = QueryGet r ''since'' in
             if since \<noteq> [] \<and> \<not> uuidv7Regex since then Ret (errorJSON 400 ''invalid_since'')
             else if readDirectionFor p caller = [] then Ret (errorJSON 401 ''caller_not_in_pair'')
             else bind (ListEnvelopes st pathID (readDirectionFor p caller) since) (\<lambda>l.
                    case l of Inl _ \<Rightarrow> Ret (errorJSON 500 ''storage_error'')
                    | Inr es \<Rightarrow> Ret (list_response es)))))"

section \<open>POST /mailbox/:pathId/ack\<close>

text \<open>
  Decoding \<open>{"ids": [...]}\<close> into a \<open>[]string\<close>: the slice's backing array keeps the
  elements of an earlier \<open>ids\<close>, and a \<open>null\<close> element leaves its slot as it is.
\<close>

fun set_elems :: "json list \<Rightarrow> string list \<Rightarrow> bool \<Rightarrow> string list \<times> bool" where
  "set_elems [] backing err = (backing, err)"
| "set_elems (v # vs) backing err =
     (let old = (case backing of [] \<Rightarrow> [] | b # _ \<Rightarrow> b);
          (x, e) = (case v of JStr s \<Rightarrow> (s, err) | JNull \<Rightarrow> (old, err) | _ \<Rightarrow> (old, True));
          (rest, e') = set_elems vs (tl backing) e
      in (x # rest, e'))"

fun assign_ids :: "(string \<times> json) list \<Rightarrow> string list \<times> nat \<times> bool \<Rightarrow> string list \<times> nat \<times> bool" where
  "assign_ids [] st = st"
| "assign_ids ((k, v) # ms) (backing, n, err) =
     (if match_field [''ids''] k = None then assign_ids ms (backing, n, err)
      else (case v of
          JNull \<Rightarrow> assign_ids ms ([], 0, err)
        | JArr vs \<Rightarrow>
            if vs = [] then assign_ids ms ([], 0, err)
            else (let (b, e) = set_elems vs backing err in assign_ids ms (b, length vs, e))
        | _ \<Rightarrow> assign_ids ms (backing, n, True)))"

definition unmarshalIDs :: "string \<Rightarrow> string list option" where
  "unmarshalIDs b =
     (case json_parse b of
        Some (JObj ms) \<Rightarrow> (let (backing, n, err) = assign_ids ms ([], 0, False) in if err then None else Some (take n backing))
      | Some JNull \<Rightarrow> Some []
      | _ \<Rightarrow> None)"

definition ackLimit :: nat where "ackLimit = 65536"

definition evicted_response :: "nat \<Rightarrow> response" where
  "evicted_response n = writeJSON 200 (JObj [(''evicted'', JNum (dec n))])"

definition ack :: "storage \<Rightarrow> verifier \<Rightarrow> request \<Rightarrow> string \<Rightarrow> response prog" where
  "ack st vf r pathID = bind (GetPair st pathID) (\<lambda>g.
     case g of
       Inl e \<Rightarrow> Ret (if e = ErrNotFound then errorJSON 404 ''pair_not_found'' else errorJSON 500 ''storage_error'')
     | Inr p \<Rightarrow>
        (case identify_caller vf p r (path r) of Inl resp \<Rightarrow> Ret resp
         | Inr caller \<Rightarrow>
           (case readLimited ackLimit r of None \<Rightarrow> Ret (errorJSON 400 ''body_read_failed'')
            | Some raw \<Rightarrow>
             (case unmarshalIDs raw of None \<Rightarrow> Ret (errorJSON 400 ''invalid_json'')
              | Some ids \<Rightarrow>
                 if ids = [] then Ret (evicted_response 0)
                 else if length ids > maxAckBatch then
                   Ret (writeJSON 400 (JObj [(''error'', JStr ''too_many_ids''), (''max'', JNum (dec maxAckBatch))]))
                 else if readDirectionFor p caller = [] then Ret (errorJSON 401 ''caller_not_in_pair'')
                 else bind (ListEnvelopes st pathID (readDirectionFor p caller) []) (\<lambda>l.
                   case l of Inl _ \<Rightarrow> Ret (errorJSON 500 ''storage_error'')
                   | Inr mine \<Rightarrow>
                       bind (DeleteEnvelopesByMsgID st pathID (filter (\<lambda>m. m \<in> set ids) (map MsgID mine))) (\<lambda>d.
                         case d of Inl _ \<Rightarrow> Ret (errorJSON 500 ''storage_error'')
                         | Inr n \<Rightarrow> Ret (evicted_response n)))))))"

section \<open>Dispatch\<close>

definition methodNotAllowed :: "string \<Rightarrow> response" where
  "methodNotAllowed allow =
     (let e = httpError 405 ''method not allowed'' in e\<lparr>headers := (''Allow'', allow) # headers e\<rparr>)"

definition dispatch :: "storage \<Rightarrow> verifier \<Rightarrow> request \<Rightarrow> response prog" where
  "dispatch st vf r =
     (let trimmed = TrimPrefix (path r) ''/mailbox/'' in
      if trimmed = path r then Ret NotFound
      else (case Split CHR ''/'' trimmed of
          [] \<Rightarrow> Ret (httpError 400 ''missing_path_id'')
        | pathID # rest \<Rightarrow>
            if pathID = [] then Ret (httpError 400 ''missing_path_id'')
            else if \<not> pathIDRegex pathID then Ret (errorJSON 400 ''invalid_path_id'')
            else if rest = [] then
              (if meth r = ''PUT'' then put st vf r pathID
               else if meth r = ''GET'' then get st vf r pathID
               else Ret (methodNotAllowed ''PUT, GET''))
            else if length rest = 1 then
              (if rest = [''ack''] \<and> meth r = ''POST'' then ack st vf r pathID else Ret NotFound)
            else Ret NotFound))"

end
