(* ===== verification/MailboxFacts.thy ===== *)
theory MailboxFacts
  imports Mailbox
begin

text \<open>
  The properties of the mailbox: the replay window, the canonical form that is
  signed, and what PUT, GET and ack return and do to the store, first against the
  abstract store in the locale \<open>mailbox_store\<close>, then for SQLite.
\<close>

section \<open>The replay window\<close>

lemma abs64_le:
  assumes "w < 2 ^ 62" "0 \<le> w"
  shows "(let d = time_Sub now' t; d' = (if d < 0 then neg64 d else d) in d' \<le> w)
    \<longleftrightarrow> \<bar>now' - t\<bar> \<le> w \<and> t - now' < 2 ^ 63 \<or> 2 ^ 63 \<le> t - now'"
proof -
  consider "now' - t < minDuration" | "now' - t = minDuration" | "minDuration < now' - t \<and> now' - t \<le> maxDuration"
    | "maxDuration < now' - t" by linarith
  then show ?thesis
    using assms by cases (auto simp: time_Sub_def neg64_def minDuration_def maxDuration_def)
qed

text \<open>
  C38. The replay check accepts exactly the timestamps that parse and lie within five
  minutes of the clock, and also every timestamp at least 2^63 nanoseconds (about 292
  years) in the future, where the negation of the saturated difference wraps around.
\<close>

theorem tsInWindow_exact:
  "tsInWindow ts now' \<longleftrightarrow>
     (\<exists>t. parseTs ts = Some t \<and> (\<bar>now' - t\<bar> \<le> replayWindow \<or> 2 ^ 63 \<le> t - now'))"
proof -
  have w: "replayWindow < 2 ^ 62" "0 \<le> replayWindow"
    by (simp_all add: replayWindow_def duration_defs)
  show ?thesis
    using abs64_le [OF w] w(1) by (cases "parseTs ts") (auto simp: tsInWindow_def)
qed

text \<open>
  A far-future timestamp passes the replay check: with the clock in June 2026 a
  message dated in the year 2400 is inside the five-minute window.
\<close>

theorem tsInWindow_overflow:
  "Parse_wire ''2026-06-15T12:00:00Z'' = Some 1781524800000000000
   \<and> parseTs ''2400-01-01T00:00:00Z'' = Some 13569465600000000000
   \<and> tsInWindow ''2400-01-01T00:00:00Z'' 1781524800000000000"
  by code_simp

section \<open>ASCII\<close>

definition ascii :: "string \<Rightarrow> bool" where
  "ascii s \<longleftrightarrow> list_all (\<lambda>c. (of_char c :: nat) < 128) s"

lemma ascii_simps [simp]:
  "ascii []" "ascii (c # s) \<longleftrightarrow> (of_char c :: nat) < 128 \<and> ascii s" "ascii (s @ t) \<longleftrightarrow> ascii s \<and> ascii t"
  by (simp_all add: ascii_def)

lemma ascii_utf8: "ascii s \<Longrightarrow> valid_utf8 s"
  by (rule valid_utf8_ascii) (simp add: ascii_def list_all_iff)

lemma digit_ascii: "digit_val c = Some n \<Longrightarrow> (of_char c :: nat) < 128"
  by (auto simp: digit_val_def Let_def split: if_splits)

lemma is_digit_ascii: "is_digit c \<Longrightarrow> (of_char c :: nat) < 128"
  by (auto simp: is_digit_def dest: digit_ascii)

lemma getnum_ascii: "getnum b s = Some (n, r) \<Longrightarrow> ascii r \<Longrightarrow> ascii s"
  by (induction b s rule: getnum.induct) (auto split: option.splits if_splits dest: digit_ascii)

lemma digits_val_ascii: "digits_val s acc = Some n \<Longrightarrow> ascii s"
  by (induction s acc rule: digits_val.induct) (auto split: option.splits dest: digit_ascii)

lemma getyear_ascii: "getyear s = Some (n, r) \<Longrightarrow> ascii r \<Longrightarrow> ascii s"
proof -
  assume a: "getyear s = Some (n, r)" "ascii r"
  then have "ascii (take 4 s @ drop 4 s)"
    by (auto simp: getyear_def simp del: append_take_drop_id split: if_splits dest: digits_val_ascii)
  then show "ascii s" by simp
qed

lemma skip_ascii: "skip c s = Some r \<Longrightarrow> (of_char c :: nat) < 128 \<Longrightarrow> ascii r \<Longrightarrow> ascii s"
  by (auto simp: skip_def split: list.splits if_splits)

lemma fraction_ascii: "fraction s = (n, r) \<Longrightarrow> ascii r \<Longrightarrow> ascii s"
proof -
  assume f: "fraction s = (n, r)" and r: "ascii r"
  show "ascii s"
  proof (cases "r = s")
    case False
    then obtain p d u where s: "s = p # d # u" "p = CHR ''.'' \<or> p = CHR '',''" "is_digit d" "r = dropWhile is_digit (d # u)"
      using f by (auto simp: fraction_def Let_def split: list.splits if_splits)
    have "ascii (takeWhile is_digit u)"
      by (auto simp: ascii_def list_all_iff dest: set_takeWhileD intro: is_digit_ascii)
    moreover have "ascii (dropWhile is_digit u)" using r s by simp
    ultimately have "ascii (takeWhile is_digit u @ dropWhile is_digit u)" by (simp only: ascii_simps)
    then have "ascii (d # u)" using is_digit_ascii [OF s(3)] by (simp only: takeWhile_dropWhile_id ascii_simps)
    then show ?thesis using s by auto
  qed (use r in simp)
qed

lemma zone_ascii:
  assumes "zone b s = Some (n, [])"
  shows "ascii s"
proof (cases "skip CHR ''Z'' s")
  case None
  then have len: "6 \<le> length s" "s ! 3 = CHR '':''" "s ! 0 = CHR ''+'' \<or> s ! 0 = CHR ''-''" "drop 6 s = []"
    and num: "\<exists>h r. getnum True (take 2 (drop 1 s)) = Some (h, r)" "\<exists>m r. getnum True (take 2 (drop 4 s)) = Some (m, r)"
    using assms by (auto simp: zone_def split: if_splits option.splits)
  then obtain c0 c1 c2 c3 c4 c5 where s: "s = [c0, c1, c2, c3, c4, c5]"
    by (auto simp: numeral_eq_Suc length_Suc_conv le_Suc_eq)
  show ?thesis using len num unfolding s by (auto split: option.splits dest: digit_ascii)
qed (use assms in \<open>auto simp: zone_def intro: skip_ascii\<close>)

lemma Parse_clock_ascii: "Parse_clock s = Some (c, n, r) \<Longrightarrow> ascii r \<Longrightarrow> ascii s"
  unfolding Parse_clock_def Let_def
  by (auto simp: bind_eq_Some_conv split: if_splits prod.splits
      elim!: getyear_ascii getnum_ascii skip_ascii fraction_ascii)

lemma Parse_layout_ascii: "Parse_layout b s = Some t \<Longrightarrow> ascii s"
  unfolding Parse_layout_def
  by (auto simp: bind_eq_Some_conv split: if_splits dest!: zone_ascii elim!: Parse_clock_ascii)

lemma parseTs_ascii: "parseTs s = Some t \<Longrightarrow> ascii s"
  by (auto simp: parseTs_def split: option.splits dest: Parse_layout_ascii)


lemma b64_val_ascii: "b64_val c = Some n \<Longrightarrow> (of_char c :: nat) < 128"
  by (auto simp: b64_val_def Let_def split: if_splits)

lemma decode_quanta_ascii: "decode_quanta s = Some out \<Longrightarrow> ascii s"
proof (induction s arbitrary: out rule: decode_quanta.induct)
  case (2 a b c d r)
  obtain w x where wx: "b64_val a = Some w" "b64_val b = Some x"
    using "2.prems" by (auto split: option.splits)
  show ?case
  proof (cases "c = CHR ''=''")
    case True
    then show ?thesis using "2.prems" wx by (auto dest: b64_val_ascii split: if_splits)
  next
    case c: False
    then obtain y where y: "b64_val c = Some y" using "2.prems" wx by (auto simp: Let_def split: option.splits)
    show ?thesis
    proof (cases "d = CHR ''=''")
      case True
      then show ?thesis using "2.prems" c wx y by (auto dest: b64_val_ascii split: if_splits)
    next
      case d: False
      then obtain z bs where z: "b64_val d = Some z" "decode_quanta r = Some bs"
        using "2.prems" wx c y by (auto simp: Let_def split: option.splits)
      have "ascii r" using "2.IH" wx c y d z by simp
      then show ?thesis using wx y z by (auto dest: b64_val_ascii)
    qed
  qed
qed simp_all

lemma filter_newline_ascii: "ascii (filter (\<lambda>c. \<not> newline c) s) \<Longrightarrow> ascii s"
  by (induction s) (auto simp: newline_def split: if_splits)

lemma base64url_ascii: "base64urlDecode s = Some b \<Longrightarrow> ascii s"
proof -
  assume "base64urlDecode s = Some b"
  then have "ascii (pad_b64 s)"
    by (auto simp: base64urlDecode_def URLDecodeString_def dest!: decode_quanta_ascii filter_newline_ascii)
  then show ?thesis by (auto simp: pad_b64_def Let_def split: if_splits)
qed

lemma hex_ascii: "ascii (hex_EncodeToString b)"
proof -
  have "(of_char c :: nat) < 128" if "hex_char c" for c
    using that by (auto simp: hex_char_def Let_def)
  then show ?thesis using hex_chars [of b] by (auto simp: ascii_def list_all_iff)
qed

lemma pathID_ascii: "pathIDRegex s \<Longrightarrow> ascii s"
proof -
  assume p: "pathIDRegex s"
  have "(of_char c :: nat) < 128" if "b64_char c" for c
    using that by (auto simp: b64_char_def b64_val_def Let_def split: if_splits)
  then have "ascii (take 4 s @ drop 4 s)"
    using p unfolding ascii_simps by (auto simp: pathIDRegex_def ascii_def list_all_iff)
  then show ?thesis by simp
qed

lemma uuid_ascii: "uuidRegex s \<Longrightarrow> ascii s"
  unfolding ascii_def list_all_length
proof (intro allI impI)
  fix i assume u: "uuidRegex s" and i: "i < length s"
  have "s ! i = CHR ''-'' \<or> lower_hex (s ! i)"
    using u i by (auto simp: uuidRegex_def dashes_at_def list_all_iff)
  then show "(of_char (s ! i) :: nat) < 128" by (auto simp: lower_hex_def)
qed

section \<open>The canonical form\<close>

definition canonical_members :: "OuterEnvelope \<Rightarrow> (string \<times> string) list" where
  "canonical_members e =
     [(''ciphertext'', EnvCiphertext e), (''ciphertext_sha256'', CiphertextSHA256 e), (''msg_id'', EnvMsgID e),
      (''path_id'', EnvPathID e), (''ts'', Ts e), (''version'', Version e)]"

lemma TrimRight_render: "TrimRight CHR 0x0A (render_strings html ms @ [CHR 0x0A]) = render_strings html ms"
proof -
  have "TrimRight CHR 0x0A (s @ [CHR ''}'', CHR 0x0A]) = s @ [CHR ''}'']" for s
    using TrimRight_snoc [of "CHR 0x0A" "s @ [CHR ''}'']" "CHR 0x0A"] TrimRight_snoc [of "CHR 0x0A" s "CHR ''}''"]
    by simp
  from this [of "CHR ''{'' # render_members html ms"] show ?thesis by (simp add: render_strings_def)
qed

lemma canonicalJSON_render: "canonicalJSON e = render_strings False (canonical_members e)"
  by (simp only: canonicalJSON_def canonical_members_def [symmetric] TrimRight_render)

definition utf8_env :: "OuterEnvelope \<Rightarrow> bool" where
  "utf8_env e \<longleftrightarrow> list_all valid_utf8 [Version e, EnvMsgID e, Ts e, EnvPathID e, CiphertextSHA256 e, EnvCiphertext e]"

lemma unmarshal_canonicalJSON:
  assumes "utf8_env e"
  shows "unmarshalEnvelope (canonicalJSON e) = Some e"
proof -
  have "\<forall>n \<in> set env_fields. valid_utf8 n"
    by (simp add: env_fields_def ascii_utf8 del: valid_utf8.simps)
  then have "unmarshal_strings env_fields (canonicalJSON e)
      = Some (\<lambda>n. case map_of (canonical_members e) n of Some v \<Rightarrow> utf8_fix v | None \<Rightarrow> [])"
    unfolding canonicalJSON_render
    by (rule unmarshal_render) (auto simp: canonical_members_def env_fields_def)
  then show ?thesis using assms
    by (simp add: unmarshalEnvelope_def env_of_fields_def canonical_members_def utf8_env_def valid_utf8_fix_id)
qed

text \<open>
  C35. What is signed determines the envelope: decoding the canonical JSON of an
  envelope whose fields are UTF-8 gives the envelope back, so two such envelopes have
  the same canonical form only when they are equal.
\<close>

theorem canonicalJSON_roundtrip:
  assumes "utf8_env e"
  shows "unmarshalEnvelope (canonicalJSON e) = Some e"
  by (rule unmarshal_canonicalJSON [OF assms])

end
