(* ===== verification/MailboxSpec.thy ===== *)
theory MailboxSpec
  imports MailboxFacts
begin

text \<open>
  What the mailbox handlers return and do to the store: an abstract specification
  of PUT, GET and ack over the abstract store, the refinement proved once for
  every store that keeps the mailbox contract, and its consequences for SQLite.
\<close>

section \<open>Abstract handlers\<close>

definition spec_put :: "verifier \<Rightarrow> request \<Rightarrow> string \<Rightarrow> time \<Rightarrow> time \<Rightarrow> store_state \<Rightarrow> response \<times> store_state" where
  "spec_put vf r pathID t t' s =
     (case find_pair s pathID of None \<Rightarrow> (errorJSON 404 ''pair_not_found'', s)
      | Some p \<Rightarrow> (case put_parse r pathID of Inl resp \<Rightarrow> (resp, s)
         | Inr (b, env) \<Rightarrow> (case put_admit vf p r env t of Inl resp \<Rightarrow> (resp, s)
            | Inr dir \<Rightarrow>
                if has_env s (EnvMsgID env) then (errorJSON 409 ''duplicate_msg_id'', s)
                else (writeJSON 202 (JObj [(''msg_id'', JStr (EnvMsgID env))]),
                      s\<lparr>senvs := senvs s @ [put_envelope r pathID b env dir (truncSec t')]\<rparr>))))"

definition spec_get :: "verifier \<Rightarrow> request \<Rightarrow> string \<Rightarrow> store_state \<Rightarrow> response" where
  "spec_get vf r pathID s =
     (case find_pair s pathID of None \<Rightarrow> errorJSON 404 ''pair_not_found''
      | Some p \<Rightarrow> (case identify_caller vf p r (signedPath r) of Inl resp \<Rightarrow> resp
         | Inr caller \<Rightarrow>
             (let since = QueryGet r ''since'' in
              if since \<noteq> [] \<and> \<not> uuidv7Regex since then errorJSON 400 ''invalid_since''
              else if readDirectionFor p caller = [] then errorJSON 401 ''caller_not_in_pair''
              else list_response (take listLimit (inbox s pathID (readDirectionFor p caller) since)))))"

definition ack_ids :: "request \<Rightarrow> response + string list" where
  "ack_ids r =
     (case readLimited ackLimit r of None \<Rightarrow> Inl (errorJSON 400 ''body_read_failed'')
      | Some raw \<Rightarrow> (case unmarshalIDs raw of None \<Rightarrow> Inl (errorJSON 400 ''invalid_json'')
         | Some ids \<Rightarrow>
            if ids = [] then Inl (evicted_response 0)
            else if length ids > maxAckBatch then
              Inl (writeJSON 400 (JObj [(''error'', JStr ''too_many_ids''), (''max'', JNum (dec maxAckBatch))]))
            else Inr ids))"

text \<open>The envelopes one ack evicts: requested, and among the oldest fifty addressed to the caller.\<close>

definition ack_set :: "store_state \<Rightarrow> string \<Rightarrow> direction \<Rightarrow> string list \<Rightarrow> envelope list" where
  "ack_set s pathID dir ids = filter (\<lambda>e. MsgID e \<in> set ids) (take listLimit (inbox s pathID dir []))"

definition spec_ack :: "verifier \<Rightarrow> request \<Rightarrow> string \<Rightarrow> store_state \<Rightarrow> response \<times> store_state" where
  "spec_ack vf r pathID s =
     (case find_pair s pathID of None \<Rightarrow> (errorJSON 404 ''pair_not_found'', s)
      | Some p \<Rightarrow> (case identify_caller vf p r (path r) of Inl resp \<Rightarrow> (resp, s)
         | Inr caller \<Rightarrow> (case ack_ids r of Inl resp \<Rightarrow> (resp, s)
            | Inr ids \<Rightarrow>
                if readDirectionFor p caller = [] then (errorJSON 401 ''caller_not_in_pair'', s)
                else (let es = ack_set s pathID (readDirectionFor p caller) ids in
                      (evicted_response (length es), s\<lparr>senvs := filter (\<lambda>e. e \<notin> set es) (senvs s)\<rparr>)))))"

section \<open>Inboxes\<close>

lemma set_inbox: "set (inbox s pid dir since) = {e \<in> set (senvs s). PathID e = pid \<and> Direction e = dir \<and> since < MsgID e}"
  by (auto simp: inbox_def)

lemma sorted_inbox: "sorted (map MsgID (inbox s pid dir since))"
  by (simp add: inbox_def)

lemma distinct_inbox:
  assumes "distinct (map MsgID (senvs s))"
  shows "distinct (map MsgID (inbox s pid dir since))"
  using assms by (auto simp: inbox_def distinct_map inj_on_def)

lemma ack_set_mem: "e \<in> set (ack_set s pid dir ids) \<Longrightarrow>
    e \<in> set (senvs s) \<and> PathID e = pid \<and> Direction e = dir \<and> MsgID e \<in> set ids"
  by (auto simp: ack_set_def set_inbox dest: in_set_takeD)

lemma acked_ack_set:
  assumes "distinct (map MsgID (senvs s))" and "e \<in> set (senvs s)"
  shows "acked pid (map MsgID (ack_set s pid dir ids)) e \<longleftrightarrow> e \<in> set (ack_set s pid dir ids)"
proof
  assume "acked pid (map MsgID (ack_set s pid dir ids)) e"
  then obtain e' where e': "e' \<in> set (ack_set s pid dir ids)" "MsgID e = MsgID e'"
    by (auto simp: acked_def)
  then have "e = e'" using distinct_map_inj [OF assms(1)] assms(2) ack_set_mem by blast
  then show "e \<in> set (ack_set s pid dir ids)" using e' by simp
next
  assume e: "e \<in> set (ack_set s pid dir ids)"
  then have "PathID e = pid" using ack_set_mem by blast
  with e show "acked pid (map MsgID (ack_set s pid dir ids)) e" by (simp add: acked_def)
qed

lemma filter_acked_length:
  assumes "distinct (map MsgID (senvs s))"
  shows "length (filter (acked pid (map MsgID (ack_set s pid dir ids))) (senvs s)) = length (ack_set s pid dir ids)"
proof -
  have d: "distinct (senvs s)" using assms by (simp add: distinct_map)
  have "distinct (map MsgID (ack_set s pid dir ids))"
    unfolding ack_set_def using distinct_inbox [OF assms, of pid dir "[]"]
    by (intro distinct_map_filter) (metis distinct_take take_map)
  then have d': "distinct (ack_set s pid dir ids)" by (simp add: distinct_map)
  have "set (filter (acked pid (map MsgID (ack_set s pid dir ids))) (senvs s)) = set (ack_set s pid dir ids)"
    using acked_ack_set [OF assms] ack_set_mem by auto
  then show ?thesis using d d' by (metis distinct_card distinct_filter)
qed

section \<open>The handlers refine their specifications\<close>

context mailbox_store
begin

lemma put_refines:
  assumes "good w" "wire_range (clock w 1)"
  shows "\<exists>w'. run (put st vf r pathID) w
      = (Some (fst (spec_put vf r pathID (clock w 0) (clock w 1) (view w))), w')
    \<and> view w' = snd (spec_put vf r pathID (clock w 0) (clock w 1) (view w)) \<and> good w'"
proof -
  obtain w1 where w1: "run (GetPair st pathID) w = (Some (fst (spec_GetPair pathID (view w))), w1)"
    "view w1 = view w" "good w1" "clock w1 = clock w"
    using refinesE [OF get_pair [OF assms(1), of pathID]] by (metis snd_conv spec_GetPair_def)
  show ?thesis
  proof (cases "find_pair (view w) pathID")
    case None
    then show ?thesis using w1 by (simp add: put_def run_bind spec_put_def spec_GetPair_def)
  next
    case p: (Some p)
    show ?thesis
    proof (cases "put_parse r pathID")
      case (Inl resp)
      then show ?thesis using w1 p by (simp add: put_def run_bind spec_put_def spec_GetPair_def)
    next
      case (Inr be)
      obtain b env where parse: "put_parse r pathID = Inr (b, env)" using Inr by (cases be) auto
      show ?thesis
      proof (cases "put_admit vf p r env (clock w 0)")
        case (Inl resp)
        then show ?thesis using w1 p parse
          by (simp add: put_def run_bind spec_put_def spec_GetPair_def view_clock good_clock)
      next
        case dir: (Inr dir)
        let ?e = "put_envelope r pathID b env dir (clock w 1)"
        let ?w2 = "w1\<lparr>clock := \<lambda>n. clock w (Suc (Suc n))\<rparr>"
        have w2: "view ?w2 = view w" "good ?w2" using w1 by (simp_all add: view_clock good_clock)
        have "wire_range (ReceivedAt ?e)" using assms(2) by (simp add: put_envelope_def)
        then obtain w3 where w3: "run (InsertEnvelope st ?e) ?w2 = (Some (fst (spec_InsertEnvelope ?e (view w))), w3)"
          "view w3 = snd (spec_InsertEnvelope ?e (view w))" "good w3"
          using refinesE [OF insert_env [OF w2(2), of ?e]] w2(1) by metis
        then show ?thesis using w1 p parse dir
          by (auto simp: put_def run_bind spec_put_def spec_GetPair_def spec_InsertEnvelope_def put_envelope_def
              split: if_splits)
      qed
    qed
  qed
qed

lemma get_refines:
  assumes "good w"
  shows "\<exists>w'. run (get st vf r pathID) w = (Some (spec_get vf r pathID (view w)), w') \<and> view w' = view w \<and> good w'"
proof -
  obtain w1 where w1: "run (GetPair st pathID) w = (Some (fst (spec_GetPair pathID (view w))), w1)"
    "view w1 = view w" "good w1"
    using refinesE [OF get_pair [OF assms, of pathID]] by (metis snd_conv spec_GetPair_def)
  have l: "\<exists>w2. run (ListEnvelopes st pathID dir since) w1 = (Some (Inr (take listLimit (inbox (view w) pathID dir since))), w2)
      \<and> view w2 = view w \<and> good w2" for dir since
    using refinesE [OF list_envs [OF w1(3), of pathID dir since]] w1(2)
    by (metis fst_conv snd_conv spec_ListEnvelopes_def)
  show ?thesis
  proof (cases "find_pair (view w) pathID")
    case None
    then show ?thesis using w1 by (simp add: get_def run_bind spec_get_def spec_GetPair_def)
  next
    case (Some p)
    show ?thesis
    proof (cases "identify_caller vf p r (signedPath r)")
      case (Inl resp)
      then show ?thesis using w1 Some by (simp add: get_def run_bind spec_get_def spec_GetPair_def)
    next
      case (Inr caller)
      show ?thesis using w1 Some Inr l [of "readDirectionFor p caller" "QueryGet r ''since''"]
        by (auto simp: get_def run_bind spec_get_def spec_GetPair_def Let_def)
    qed
  qed
qed

lemma ack_refines:
  assumes "good w"
  shows "\<exists>w'. run (ack st vf r pathID) w = (Some (fst (spec_ack vf r pathID (view w))), w')
    \<and> view w' = snd (spec_ack vf r pathID (view w)) \<and> good w'"
proof -
  obtain w1 where w1: "run (GetPair st pathID) w = (Some (fst (spec_GetPair pathID (view w))), w1)"
    "view w1 = view w" "good w1"
    using refinesE [OF get_pair [OF assms, of pathID]] by (metis snd_conv spec_GetPair_def)
  show ?thesis
  proof (cases "find_pair (view w) pathID")
    case None
    then show ?thesis using w1 by (simp add: ack_def run_bind spec_ack_def spec_GetPair_def)
  next
    case p: (Some p)
    show ?thesis
    proof (cases "identify_caller vf p r (path r)")
      case (Inl resp)
      then show ?thesis using w1 p by (simp add: ack_def run_bind spec_ack_def spec_GetPair_def)
    next
      case caller: (Inr caller)
      show ?thesis
      proof (cases "\<exists>ids. ack_ids r = Inr ids \<and> readDirectionFor p caller \<noteq> []")
        case False
        then show ?thesis using w1 p caller
          by (auto simp: ack_def run_bind spec_ack_def spec_GetPair_def ack_ids_def split: option.splits)
      next
        case True
        then obtain ids where ids: "ack_ids r = Inr ids" "readDirectionFor p caller \<noteq> []" by blast
        let ?dir = "readDirectionFor p caller"
        let ?mine = "take listLimit (inbox (view w) pathID ?dir [])"
        let ?del = "filter (\<lambda>m. m \<in> set ids) (map MsgID ?mine)"
        have del: "?del = map MsgID (ack_set (view w) pathID ?dir ids)"
          by (simp add: ack_set_def filter_map comp_def)
        obtain w2 where w2: "run (ListEnvelopes st pathID ?dir []) w1 = (Some (Inr ?mine), w2)" "view w2 = view w" "good w2"
          using refinesE [OF list_envs [OF w1(3), of pathID ?dir "[]"]] w1(2)
          by (metis fst_conv snd_conv spec_ListEnvelopes_def)
        obtain w3 where w3: "run (DeleteEnvelopesByMsgID st pathID ?del) w2 = (Some (fst (spec_DeleteByMsgID pathID ?del (view w))), w3)"
          "view w3 = snd (spec_DeleteByMsgID pathID ?del (view w))" "good w3"
          using refinesE [OF delete_envs [OF w2(3), of pathID ?del]] w2(2) by metis
        note ids_ok = env_ids [OF assms]
        have n: "fst (spec_DeleteByMsgID pathID ?del (view w)) = Inr (length (ack_set (view w) pathID ?dir ids))"
          unfolding del spec_DeleteByMsgID_def by (simp add: filter_acked_length [OF ids_ok])
        have v: "snd (spec_DeleteByMsgID pathID ?del (view w))
            = (view w)\<lparr>senvs := filter (\<lambda>e. e \<notin> set (ack_set (view w) pathID ?dir ids)) (senvs (view w))\<rparr>"
          unfolding del spec_DeleteByMsgID_def
          by (simp add: acked_ack_set [OF ids_ok] cong: filter_cong)
        obtain raw where raw: "readLimited ackLimit r = Some raw" "unmarshalIDs raw = Some ids" "ids \<noteq> []" "\<not> maxAckBatch < length ids"
          using ids(1) by (auto simp: ack_ids_def split: option.splits if_splits)
        show ?thesis using w1(1) p caller ids raw w2(1) w3 n v
          by (simp add: ack_def run_bind spec_ack_def spec_GetPair_def Let_def)
      qed
    qed
  qed
qed

end

end
