(* ===== verification/MailboxProps.thy ===== *)
theory MailboxProps
  imports MailboxSpec
begin

text \<open>
  The properties of the mailbox on the SQLite adapter and the Ed25519 verifier:
  what an accepted PUT proves about its sender, that a refused request changes
  nothing, who can read and evict which envelopes, and that the cursor walk is
  complete.
\<close>

section \<open>PUT\<close>

lemma put_parse_Inr:
  assumes "put_parse r pathID = Inr (b, env)"
  shows "readLimited putLimit r = Some b" "unmarshalEnvelope b = Some env" "validEnvelopeSchema env"
    "EnvPathID env = pathID" "uuidv7Regex (EnvMsgID env)"
  using assms by (auto simp: put_parse_def split: option.splits if_splits)

lemma put_admit_Inr:
  assumes "put_admit vf p r env t = Inr dir"
  obtains ct sender where "tsInWindow (Ts env) t" "base64urlDecode (EnvCiphertext env) = Some ct"
    "hex_EncodeToString (sha256 ct) = CiphertextSHA256 env"
    "vf p (Get (hdr r) ''X-Nexus-Signature'') (canonicalJSON env) = Inr sender" "sender \<noteq> []"
    "dir = directionFrom p sender" "dir \<noteq> []"
  using assms by (auto simp: put_admit_def split: option.splits if_splits sum.splits)

definition refusal :: "response \<Rightarrow> bool" where
  "refusal resp \<longleftrightarrow> 400 \<le> status resp"

lemma put_parse_Inl: "put_parse r pathID = Inl resp \<Longrightarrow> refusal resp"
  by (auto simp: put_parse_def refusal_def split: option.splits if_splits)

lemma put_admit_Inl: "put_admit vf p r env t = Inl resp \<Longrightarrow> refusal resp"
  by (auto simp: put_admit_def refusal_def split: option.splits if_splits sum.splits)

definition admitted :: "verifier \<Rightarrow> request \<Rightarrow> string \<Rightarrow> time \<Rightarrow> store_state \<Rightarrow> pair \<Rightarrow> string \<Rightarrow> OuterEnvelope \<Rightarrow> direction \<Rightarrow> bool" where
  "admitted vf r pathID t s p b env dir \<longleftrightarrow>
     find_pair s pathID = Some p \<and> put_parse r pathID = Inr (b, env) \<and> put_admit vf p r env t = Inr dir
     \<and> \<not> has_env s (EnvMsgID env)"

lemma admitted_spec_put:
  "admitted vf r pathID t s p b env dir \<Longrightarrow>
     spec_put vf r pathID t t' s = (writeJSON 202 (JObj [(''msg_id'', JStr (EnvMsgID env))]),
       s\<lparr>senvs := senvs s @ [put_envelope r pathID b env dir (truncSec t')]\<rparr>)"
  by (simp add: admitted_def spec_put_def)

lemma spec_put_cases:
  "(\<exists>p b env dir. admitted vf r pathID t s p b env dir
      \<and> spec_put vf r pathID t t' s = (writeJSON 202 (JObj [(''msg_id'', JStr (EnvMsgID env))]),
          s\<lparr>senvs := senvs s @ [put_envelope r pathID b env dir (truncSec t')]\<rparr>))
   \<or> (\<exists>resp. refusal resp \<and> spec_put vf r pathID t t' s = (resp, s))"
proof (cases "find_pair s pathID")
  case None
  then show ?thesis by (simp add: spec_put_def refusal_def)
next
  case (Some p)
  then show ?thesis
  proof (cases "put_parse r pathID")
    case (Inl resp)
    with Some put_parse_Inl [OF Inl] show ?thesis by (auto simp: spec_put_def)
  next
    case (Inr be)
    obtain b env where be: "be = (b, env)" by (cases be)
    show ?thesis
    proof (cases "put_admit vf p r env t")
      case (Inl resp)
      with Some Inr be put_admit_Inl [OF Inl] show ?thesis by (auto simp: spec_put_def)
    next
      case dir: (Inr dir)
      with Some Inr be show ?thesis
        by (cases "has_env s (EnvMsgID env)") (auto simp: spec_put_def admitted_def refusal_def)
    qed
  qed
qed

lemma put_outcome:
  assumes "healthy w" "wire_range (clock w 1)" "run (put SQLite vf r pathID) w = (Some resp, w')"
  shows "resp = fst (spec_put vf r pathID (clock w 0) (clock w 1) (db_view w))"
    "db_view w' = snd (spec_put vf r pathID (clock w 0) (clock w 1) (db_view w))" "healthy w'"
  using mail_sq.put_refines [OF assms(1,2), of vf r pathID] assms(3) by auto


text \<open>The half a key is decides both what it writes and what it reads.\<close>

lemma half_directions:
  assumes "k \<in> {RequesterPubkey p, OwnerPubkey p}"
  shows "directionFrom p k = (if k = RequesterPubkey p then AToB else BToA)"
    "readDirectionFor p k = (if k = RequesterPubkey p then BToA else AToB)"
  using assms by (auto simp: directionFrom_def readDirectionFor_def)

text \<open>
  C2. An accepted PUT proves who sent it: the stored envelope's direction is that of
  a half of the pair whose registered key signed the canonical JSON of the envelope,
  the envelope names this pair and a UUIDv7 message id, its timestamp passed the
  replay check and its declared hash is the SHA-256 of its ciphertext.
\<close>

theorem put_authentic:
  assumes "healthy w" "wire_range (clock w 1)"
    and "run (put SQLite (EdVerifier_Identify ed) r pathID) w = (Some resp, w')" "status resp = 202"
  shows "\<exists>p env k ct. find_pair (db_view w) pathID = Some p \<and> k \<in> {RequesterPubkey p, OwnerPubkey p}
    \<and> signed_by ed k (Get (hdr r) ''X-Nexus-Signature'') (canonicalJSON env)
    \<and> EnvPathID env = pathID \<and> uuidv7Regex (EnvMsgID env) \<and> tsInWindow (Ts env) (clock w 0)
    \<and> base64urlDecode (EnvCiphertext env) = Some ct \<and> hex_EncodeToString (sha256 ct) = CiphertextSHA256 env
    \<and> \<not> has_env (db_view w) (EnvMsgID env)
    \<and> (\<exists>e. senvs (db_view w') = senvs (db_view w) @ [e] \<and> MsgID e = EnvMsgID env \<and> PathID e = pathID
         \<and> Direction e = (if k = RequesterPubkey p then AToB else BToA) \<and> unmarshalEnvelope (OuterJSON e) = Some env)"
proof -
  from spec_put_cases [of "EdVerifier_Identify ed" r pathID "clock w 0" "db_view w" "clock w 1"]
  obtain p b env dir where a: "admitted (EdVerifier_Identify ed) r pathID (clock w 0) (db_view w) p b env dir"
    and s: "db_view w' = (db_view w)\<lparr>senvs := senvs (db_view w) @ [put_envelope r pathID b env dir (truncSec (clock w 1))]\<rparr>"
    using put_outcome [OF assms(1-3)] assms(4) by (auto simp: refusal_def)
  then have parse: "put_parse r pathID = Inr (b, env)" and admit: "put_admit (EdVerifier_Identify ed) p r env (clock w 0) = Inr dir"
    by (auto simp: admitted_def)
  obtain ct k where k: "tsInWindow (Ts env) (clock w 0)" "base64urlDecode (EnvCiphertext env) = Some ct"
    "hex_EncodeToString (sha256 ct) = CiphertextSHA256 env"
    "EdVerifier_Identify ed p (Get (hdr r) ''X-Nexus-Signature'') (canonicalJSON env) = Inr k" "k \<noteq> []" "dir = directionFrom p k"
    using put_admit_Inr [OF admit] by metis
  let ?e = "put_envelope r pathID b env dir (truncSec (clock w 1))"
  note id = EdVerifier_identified(1,3) [OF k(4,5)]
  have e: "senvs (db_view w') = senvs (db_view w) @ [?e]" "MsgID ?e = EnvMsgID env" "PathID ?e = pathID"
    "Direction ?e = (if k = RequesterPubkey p then AToB else BToA)" "unmarshalEnvelope (OuterJSON ?e) = Some env"
    using s put_parse_Inr [OF parse] k(6) half_directions(1) [OF id(1)] by (simp_all add: put_envelope_def)
  show ?thesis
    using a e k put_parse_Inr(4,5) [OF parse] id
    unfolding admitted_def by blast
qed


section \<open>GET\<close>

lemma get_outcome:
  assumes "healthy w" "run (get SQLite vf r pathID) w = (Some resp, w')"
  shows "resp = spec_get vf r pathID (db_view w)" "db_view w' = db_view w" "healthy w'"
  using mail_sq.get_refines [OF assms(1), of vf r pathID] assms(2) by auto

lemma identify_caller_cases:
  "identify_caller vf p r m = Inr k \<Longrightarrow> vf p (Get (hdr r) ''X-Nexus-Signature'') m = Inr k \<and> k \<noteq> []"
  "identify_caller vf p r m = Inl resp \<Longrightarrow> refusal resp"
  by (auto simp: identify_caller_def refusal_def split: sum.splits if_splits)

lemma status_list_response [simp]: "status (list_response es) = 200"
  by (simp add: list_response_def)

lemma spec_get_cases:
  obtains (page) p k where "find_pair s pathID = Some p"
      "vf p (Get (hdr r) ''X-Nexus-Signature'') (signedPath r) = Inr k" "k \<noteq> []"
      "readDirectionFor p k \<noteq> []" "QueryGet r ''since'' = [] \<or> uuidv7Regex (QueryGet r ''since'')"
      "spec_get vf r pathID s
          = list_response (take listLimit (inbox s pathID (readDirectionFor p k) (QueryGet r ''since'')))"
  | (refused) "refusal (spec_get vf r pathID s)"
proof (cases "find_pair s pathID")
  case None
  then show ?thesis by (intro refused) (simp add: spec_get_def refusal_def)
next
  case (Some p)
  show ?thesis
  proof (cases "identify_caller vf p r (signedPath r)")
    case (Inl resp)
    then show ?thesis using Some identify_caller_cases(2) [OF Inl] by (intro refused) (simp add: spec_get_def)
  next
    case (Inr k)
    note k = identify_caller_cases(1) [OF Inr]
    show ?thesis
    proof (cases "readDirectionFor p k \<noteq> [] \<and> (QueryGet r ''since'' = [] \<or> uuidv7Regex (QueryGet r ''since''))")
      case True
      then show ?thesis using Some Inr k by (intro page [of p k]) (auto simp: spec_get_def Let_def)
    next
      case False
      then show ?thesis using Some Inr by (intro refused) (auto simp: spec_get_def refusal_def Let_def)
    qed
  qed
qed


section \<open>The cursor walk\<close>

lemma sorted_split_at:
  assumes "sorted (map f xs)" "distinct (map f xs)" "n < length xs"
  shows "filter (\<lambda>x. f (xs ! n) < f x) xs = drop (Suc n) xs"
  using assms
proof (induction xs arbitrary: n)
  case (Cons x xs)
  show ?case
  proof (cases n)
    case 0
    have "\<forall>y \<in> set xs. f x < f y" using Cons.prems by (auto simp: order_le_less)
    then show ?thesis using 0 by simp
  next
    case (Suc m)
    then have m: "m < length xs" using Cons.prems by simp
    then have "\<not> f (xs ! m) < f x" using Cons.prems by (simp add: not_less)
    then show ?thesis using Suc Cons.IH [OF _ _ m] Cons.prems by simp
  qed
qed simp

lemma filter_sort_key: "filter P (sort_key f xs) = sort_key f (filter P xs)"
  by (simp add: filter_sort)

lemma inbox_later:
  assumes "since \<le> c"
  shows "inbox s pid dir c = filter (\<lambda>e. c < MsgID e) (inbox s pid dir since)"
proof -
  have "filter (\<lambda>e. PathID e = pid \<and> Direction e = dir \<and> c < MsgID e) (senvs s)
      = filter (\<lambda>e. (PathID e = pid \<and> Direction e = dir \<and> since < MsgID e) \<and> c < MsgID e) (senvs s)"
    using assms by (intro filter_cong) auto
  then show ?thesis by (simp only: inbox_def filter_sort_key filter_filter)
qed

lemma inbox_pages:
  assumes "distinct (map MsgID (senvs s))" "es = take n (inbox s pid dir since)" "es \<noteq> []"
  shows "inbox s pid dir since = es @ inbox s pid dir (MsgID (last es))"
proof -
  let ?xs = "inbox s pid dir since"
  let ?k = "min n (length ?xs) - 1"
  have k: "?k < length ?xs" "es = take (Suc ?k) ?xs" "last es = ?xs ! ?k"
    using assms(2,3) by (auto simp: last_conv_nth min_def)
  have "since < MsgID (last es)"
    using assms(2,3) set_inbox [of s pid dir since] by (metis (no_types, lifting) in_set_takeD last_in_set mem_Collect_eq)
  then have "inbox s pid dir (MsgID (last es)) = filter (\<lambda>e. MsgID (?xs ! ?k) < MsgID e) ?xs"
    using inbox_later [of since "MsgID (last es)" s pid dir] k(3) by simp
  also have "\<dots> = drop (Suc ?k) ?xs"
    by (rule sorted_split_at [OF sorted_inbox distinct_inbox [OF assms(1)] k(1)])
  finally show ?thesis using k(2) by simp
qed

text \<open>
  C22. Paging with the last message id of each page as the next cursor loses and
  repeats nothing: a page is a prefix of what is left, the next cursor's listing is
  exactly the rest, and an empty page means that nothing is left.
\<close>

theorem cursor_walk:
  assumes "healthy w" "run (SQLite_ListEnvelopes pathID dir since) w = (Some (Inr es), w')"
  shows "(es = [] \<longrightarrow> inbox (db_view w) pathID dir since = [])
    \<and> (es \<noteq> [] \<longrightarrow> inbox (db_view w) pathID dir since = es @ inbox (db_view w) pathID dir (MsgID (last es)))"
proof -
  have es: "es = take listLimit (inbox (db_view w) pathID dir since)"
    using refinesE [OF SQLite_ListEnvelopes_refines [OF assms(1), of pathID dir since]] assms(2)
    by (metis Pair_inject fst_conv option.inject spec_ListEnvelopes_def sum.inject(2))
  show ?thesis
    using inbox_pages [OF db_view_env_ids [OF assms(1)] es] es by (auto simp: listLimit_def)
qed


section \<open>Ack\<close>

lemma ack_outcome:
  assumes "healthy w" "run (ack SQLite vf r pathID) w = (Some resp, w')"
  shows "resp = fst (spec_ack vf r pathID (db_view w))" "db_view w' = snd (spec_ack vf r pathID (db_view w))" "healthy w'"
  using mail_sq.ack_refines [OF assms(1), of vf r pathID] assms(2) by auto

lemma spec_ack_cases:
  obtains (evict) p k ids where "find_pair s pathID = Some p"
      "vf p (Get (hdr r) ''X-Nexus-Signature'') (path r) = Inr k" "k \<noteq> []" "ack_ids r = Inr ids"
      "spec_ack vf r pathID s = (evicted_response (length (ack_set s pathID (readDirectionFor p k) ids)),
          s\<lparr>senvs := filter (\<lambda>e. e \<notin> set (ack_set s pathID (readDirectionFor p k) ids)) (senvs s)\<rparr>)"
  | (unchanged) "snd (spec_ack vf r pathID s) = s"
proof (cases "find_pair s pathID")
  case None
  then show ?thesis by (intro unchanged) (simp add: spec_ack_def)
next
  case (Some p)
  show ?thesis
  proof (cases "identify_caller vf p r (path r)")
    case (Inl resp)
    then show ?thesis using Some by (intro unchanged) (simp add: spec_ack_def)
  next
    case (Inr k)
    note k = identify_caller_cases(1) [OF Inr]
    show ?thesis
    proof (cases "ack_ids r")
      case (Inl resp)
      then show ?thesis using Some Inr by (intro unchanged) (simp add: spec_ack_def)
    next
      case ids: (Inr ids)
      show ?thesis
      proof (cases "readDirectionFor p k = []")
        case True
        then show ?thesis using Some Inr ids by (intro unchanged) (simp add: spec_ack_def)
      next
        case False
        then show ?thesis using Some Inr ids k by (intro evict [of p k ids]) (simp_all add: spec_ack_def Let_def)
      qed
    qed
  qed
qed

text \<open>
  C15. Ack only evicts, and only the caller's own mail: requests and pairs stay, the
  remaining envelopes keep their order, and every envelope that goes was addressed to
  a half of the pair that signed this path, lay under this path and was asked for.
\<close>

theorem ack_own_inbox:
  assumes "healthy w" "run (ack SQLite (EdVerifier_Identify ed) r pathID) w = (Some resp, w')"
  shows "\<exists>gone. db_view w' = (db_view w)\<lparr>senvs := filter (\<lambda>e. e \<notin> gone) (senvs (db_view w))\<rparr>
    \<and> (\<forall>e \<in> gone. \<exists>p k ids. find_pair (db_view w) pathID = Some p \<and> k \<in> {RequesterPubkey p, OwnerPubkey p}
         \<and> signed_by ed k (Get (hdr r) ''X-Nexus-Signature'') (path r) \<and> ack_ids r = Inr ids
         \<and> PathID e = pathID \<and> Direction e = (if k = RequesterPubkey p then BToA else AToB) \<and> MsgID e \<in> set ids)"
proof -
  note out = ack_outcome [OF assms]
  show ?thesis
  proof (cases rule: spec_ack_cases [of "db_view w" pathID "EdVerifier_Identify ed" r])
    case (evict p k ids)
    let ?gone = "set (ack_set (db_view w) pathID (readDirectionFor p k) ids)"
    note id = EdVerifier_identified(1,3) [OF evict(2,3)]
    have upd: "db_view w' = (db_view w)\<lparr>senvs := filter (\<lambda>e. e \<notin> ?gone) (senvs (db_view w))\<rparr>"
      using out(2) evict(5) by simp
    have own: "PathID e = pathID \<and> Direction e = (if k = RequesterPubkey p then BToA else AToB) \<and> MsgID e \<in> set ids"
      if "e \<in> ?gone" for e
      using ack_set_mem [OF that] unfolding half_directions(2) [OF id(1)] by blast
    show ?thesis using own evict(1,4) id by (intro exI [of _ ?gone] conjI upd ballI exI [of _ p] exI [of _ k] exI [of _ ids]) simp_all
  next
    case unchanged
    then show ?thesis using out(2) by (intro exI [of _ "{}"]) simp
  qed
qed

text \<open>
  Ack looks only at the oldest fifty envelopes of the caller's inbox: a requested
  envelope behind them stays in the store although the answer is a success.
\<close>

theorem ack_only_first_page:
  assumes "healthy w" "run (ack SQLite vf r pathID) w = (Some resp, w')"
    and "e \<in> set (senvs (db_view w))"
    and "\<forall>dir. e \<notin> set (take 50 (inbox (db_view w) pathID dir []))"
  shows "e \<in> set (senvs (db_view w'))"
proof (cases rule: spec_ack_cases [of "db_view w" pathID vf r])
  case (evict p k ids)
  have "e \<notin> set (ack_set (db_view w) pathID (readDirectionFor p k) ids)"
    using assms(4) by (auto simp: ack_set_def listLimit_def)
  then show ?thesis using ack_outcome(2) [OF assms(1,2)] evict(5) assms(3) by simp
qed (use ack_outcome(2) [OF assms(1,2)] assms(3) in simp)

section \<open>Delivery\<close>


end
