(* ===== verification/MailboxDemo.thy ===== *)
theory MailboxDemo
  imports MailboxProps
begin

text \<open>
  The mailbox properties on concrete inputs: a world with one pair, a PUT signed by
  its requester, and the GET and ack of the owner, under a toy signature scheme.
\<close>

section \<open>The example\<close>

definition demo_now :: time where "demo_now = 1781524800000000000"

definition demo_world :: world where
  "demo_world = \<lparr>wdb = empty_db\<lparr>pairs := [pair_to_row demo_pair]\<rparr>, faults = [], clock = \<lambda>_. demo_now,
     entropy = \<lambda>_. None, uv = \<lambda>c. ''UNIQUE constraint failed: '' @ c\<rparr>"

abbreviation demo_path :: string where "demo_path \<equiv> PairPathID demo_pair"

definition demo_env :: OuterEnvelope where
  "demo_env = \<lparr>Version = ''1'', EnvMsgID = ''0190a0b0-c0d0-7000-8000-000000000001'',
     Ts = ''2026-06-15T12:01:00Z'', EnvPathID = demo_path,
     CiphertextSHA256 = hex_EncodeToString (sha256 [0]), EnvCiphertext = ''AA''\<rparr>"

definition demo_hdr :: "string \<Rightarrow> header" where
  "demo_hdr sig = Set no_header ''X-Nexus-Signature'' sig"

definition demo_put :: request where
  "demo_put = \<lparr>meth = ''PUT'', path = ''/mailbox/'' @ demo_path, rawQuery = [], hdr = demo_hdr sig_A,
     body = canonicalJSON demo_env, bodyBroken = False, RemoteAddr = []\<rparr>"

definition sig_B :: string where "sig_B = replicate 86 CHR ''B''"

definition demo_get :: request where
  "demo_get = \<lparr>meth = ''GET'', path = ''/mailbox/'' @ demo_path, rawQuery = [], hdr = demo_hdr sig_B,
     body = [], bodyBroken = False, RemoteAddr = []\<rparr>"

definition demo_ack :: request where
  "demo_ack = \<lparr>meth = ''POST'', path = ''/mailbox/'' @ demo_path @ ''/ack'', rawQuery = [], hdr = demo_hdr sig_B,
     body = ''{'' @ quote False ''ids'' @ '':['' @ quote False ''0190a0b0-c0d0-7000-8000-000000000001'' @ '']}'', bodyBroken = False, RemoteAddr = []\<rparr>"

section \<open>Its evaluation\<close>

lemma length_escape_ascii: "length (escape_ascii html c) \<le> 6"
  by (simp add: escape_ascii_def hex_lower_def Let_def)

lemma length_escape: "length (escape html s) \<le> 6 * length s"
proof (induction html s rule: escape.induct)
  case (2 html c cs)
  let ?n = "rune_len (c # cs)"
  have n: "?n \<le> Suc (length cs)" using rune_len_le [of "c # cs"] by simp
  consider "?n = 1" | "?n = 0" | "1 < ?n" by linarith
  then show ?case
  proof cases
    case 1
    then show ?thesis using "2.IH"(1) [OF refl] length_escape_ascii [of html c] by simp
  next
    case 2
    then show ?thesis using "2.IH"(2) [OF refl] by (simp add: Let_def)
  next
    case 3
    then show ?thesis using "2.IH"(3-5) n by (auto simp: Let_def)
  qed
qed simp

lemma length_quote: "length (quote html s) \<le> 6 * length s + 2"
  using length_escape [of html s] by (simp add: quote_def)

lemma utf8_demo: "utf8_env demo_env"
proof -
  have "ascii ''0190a0b0-c0d0-7000-8000-000000000001''" "ascii ''2026-06-15T12:01:00Z''" "ascii demo_path" "ascii ''AA''" "ascii ''1''"
    by code_simp+
  then show ?thesis using hex_ascii [of "sha256 [0]"]
    by (simp add: utf8_env_def demo_env_def ascii_utf8 del: valid_utf8.simps)
qed

lemma short_body: "length (canonicalJSON demo_env) \<le> putLimit"
proof -
  have q: "length (quote False s) \<le> 400" if "length s \<le> 64" for s
    using length_quote [of False s] that by simp
  have "length (CiphertextSHA256 demo_env) \<le> 64" "length (EnvMsgID demo_env) \<le> 64" "length (Ts demo_env) \<le> 64"
    "length (EnvPathID demo_env) \<le> 64" "length (EnvCiphertext demo_env) \<le> 64" "length (Version demo_env) \<le> 64"
    by (simp_all add: demo_env_def demo_pair_def)
  note b = this [THEN q]
  have k: "length (quote False ''ciphertext'') \<le> 400" "length (quote False ''ciphertext_sha256'') \<le> 400"
    "length (quote False ''msg_id'') \<le> 400" "length (quote False ''path_id'') \<le> 400"
    "length (quote False ''ts'') \<le> 400" "length (quote False ''version'') \<le> 400"
    by (rule q; simp)+
  show ?thesis using b k
    by (simp add: canonicalJSON_render canonical_members_def render_strings_def putLimit_def)
qed

lemma demo_uv: "isUniqueViolation (''UNIQUE constraint failed: '' @ c)"
  using Contains_append [of "[]" "''UNIQUE constraint failed''" "'': '' @ c"] by (simp add: isUniqueViolation_def)

lemma demo_healthy: "healthy demo_world"
proof -
  have "times_ok (wdb demo_world)" by code_simp
  then show ?thesis
    using demo_uv by (simp add: healthy_def demo_world_def unique_keys_def empty_db_def)
qed

lemma demo_range: "wire_range demo_now" "clock demo_world n = demo_now"
  by (simp_all add: wire_range_def demo_now_def demo_world_def)

lemma demo_find: "find_pair (db_view demo_world) demo_path = Some demo_pair"
proof -
  have "pair_of_row (pair_to_row demo_pair) = demo_pair" by code_simp
  then show ?thesis by (simp add: db_view_def demo_world_def empty_db_def find_pair_def)
qed

lemma demo_decode:
  "decodeB64URL sig_A = Some (replicate 64 0)" "decodeB64URL key_A = Some (replicate 32 0)"
  "decodeB64URL sig_B = Some (concat (replicate 21 [4, 16, 65]) @ [4])"
  "decodeB64URL key_B = Some (concat (replicate 10 [4, 16, 65]) @ [4, 16])"
  by code_simp+

lemma demo_toy:
  "toy_ed (replicate 32 0) m (concat (replicate 21 [4, 16, 65]) @ [4]) = False"
  "toy_ed (concat (replicate 10 [4, 16, 65]) @ [4, 16]) m (concat (replicate 21 [4, 16, 65]) @ [4]) = True"
  unfolding toy_ed_def by code_simp+

lemma demo_verify:
  "EdVerifier_Identify toy_ed demo_pair sig_A m = Inr key_A"
  "EdVerifier_Identify toy_ed demo_pair sig_B m = Inr key_B"
proof -
  have p: "SigAlg demo_pair = ''ed25519''" "RequesterPubkey demo_pair = key_A" "OwnerPubkey demo_pair = key_B"
    by (simp_all add: demo_pair_def)
  have s: "sig_A \<noteq> []" "sig_B \<noteq> []" by (simp_all add: sig_A_def sig_B_def)
  note d = demo_decode
  show "EdVerifier_Identify toy_ed demo_pair sig_A m = Inr key_A"
    by (simp add: EdVerifier_Identify_def p s d SignatureSize_def PublicKeySize_def toy_ed_def)
  show "EdVerifier_Identify toy_ed demo_pair sig_B m = Inr key_B"
    by (simp add: EdVerifier_Identify_def p s d SignatureSize_def PublicKeySize_def demo_toy length_concat sum_list_replicate del: concat.simps replicate.simps concat_append replicate_Suc)
qed

lemma demo_header: "Get (demo_hdr s) ''X-Nexus-Signature'' = s"
  by (simp add: demo_hdr_def Get_Set)

lemma demo_parse: "put_parse demo_put demo_path = Inr (canonicalJSON demo_env, demo_env)"
proof -
  have "uuidv7Regex (EnvMsgID demo_env)" by (simp add: demo_env_def) code_simp
  moreover have "validEnvelopeSchema demo_env"
    by (simp add: validEnvelopeSchema_def demo_env_def demo_pair_def length_0_conv [symmetric] del: length_0_conv)
  ultimately show ?thesis using short_body unmarshal_canonicalJSON [OF utf8_demo]
    by (simp add: put_parse_def readLimited_def demo_put_def demo_env_def [THEN arg_cong [where f = EnvPathID]])
qed

lemma demo_admit: "put_admit (EdVerifier_Identify toy_ed) demo_pair demo_put demo_env demo_now = Inr AToB"
proof -
  have "tsInWindow (Ts demo_env) demo_now" by (simp add: demo_env_def) code_simp
  moreover have "base64urlDecode (EnvCiphertext demo_env) = Some [0]" by (simp add: demo_env_def) code_simp
  moreover have "CiphertextSHA256 demo_env = hex_EncodeToString (sha256 [0])" by (simp add: demo_env_def)
  moreover have "directionFrom demo_pair key_A = AToB" "key_A \<noteq> []" by (simp_all add: directionFrom_def demo_pair_def key_A_def)
  ultimately show ?thesis
    by (simp add: put_admit_def demo_put_def demo_header demo_verify AToB_def)
qed


section \<open>The witnesses\<close>

theorem canonicalJSON_roundtrip_witness: "unmarshalEnvelope (canonicalJSON demo_env) = Some demo_env"
  by (rule canonicalJSON_roundtrip [OF utf8_demo])

lemma demo_fresh: "senvs (db_view demo_world) = []"
  by (simp add: db_view_def demo_world_def empty_db_def)

lemma demo_admitted:
  "admitted (EdVerifier_Identify toy_ed) demo_put demo_path demo_now (db_view demo_world) demo_pair (canonicalJSON demo_env) demo_env AToB"
  by (simp add: admitted_def demo_find demo_parse demo_admit has_env_def demo_fresh)

lemma demo_put_run:
  obtains w1 where "run (put SQLite (EdVerifier_Identify toy_ed) demo_put demo_path) demo_world
      = (Some (writeJSON 202 (JObj [(''msg_id'', JStr (EnvMsgID demo_env))])), w1)"
    "senvs (db_view w1) = [put_envelope demo_put demo_path (canonicalJSON demo_env) demo_env AToB (truncSec demo_now)]"
    "find_pair (db_view w1) demo_path = Some demo_pair" "healthy w1"
proof -
  have r: "wire_range (clock demo_world 1)" by (simp add: demo_range)
  show ?thesis
    using mail_sq.put_refines [OF demo_healthy r, of "EdVerifier_Identify toy_ed" demo_put demo_path] that
      admitted_spec_put [OF demo_admitted, of demo_now] demo_find
    by (auto simp: demo_range demo_fresh find_pair_def)
qed


theorem put_authentic_witness:
  "\<exists>p k env. find_pair (db_view demo_world) demo_path = Some p \<and> k \<in> {RequesterPubkey p, OwnerPubkey p}
     \<and> signed_by toy_ed k (Get (hdr demo_put) ''X-Nexus-Signature'') (canonicalJSON env)"
proof -
  obtain w1 where w1: "run (put SQLite (EdVerifier_Identify toy_ed) demo_put demo_path) demo_world
      = (Some (writeJSON 202 (JObj [(''msg_id'', JStr (EnvMsgID demo_env))])), w1)"
    by (rule demo_put_run)
  have "wire_range (clock demo_world 1)" by (simp add: demo_range)
  from put_authentic [OF demo_healthy this w1] show ?thesis by auto
qed

lemma demo_identify_get:
  "identify_caller (EdVerifier_Identify toy_ed) demo_pair demo_get (signedPath demo_get) = Inr key_B"
  by (simp add: identify_caller_def demo_get_def demo_header demo_verify) (simp add: key_B_def)

lemma demo_since: "QueryGet demo_get ''since'' = []"
  by (simp add: demo_get_def QueryGet_def ParseQuery_def query_pair_def List.map_filter_def)

lemma demo_read: "readDirectionFor demo_pair key_B = AToB"
  by code_simp

lemma demo_get_run:
  assumes "healthy w" "find_pair (db_view w) demo_path = Some demo_pair"
  obtains w' where "run (get SQLite (EdVerifier_Identify toy_ed) demo_get demo_path) w
      = (Some (list_response (take listLimit (inbox (db_view w) demo_path AToB []))), w')"
  using mail_sq.get_refines [OF assms(1), of "EdVerifier_Identify toy_ed" demo_get demo_path] assms(2) that
  by (auto simp: spec_get_def demo_identify_get demo_since demo_read AToB_def)



text \<open>The demo envelope as the owner's whole inbox.\<close>

lemma demo_inbox:
  assumes "senvs (db_view w1) = [put_envelope demo_put demo_path (canonicalJSON demo_env) demo_env AToB (truncSec demo_now)]"
  shows "inbox (db_view w1) demo_path AToB []
    = [put_envelope demo_put demo_path (canonicalJSON demo_env) demo_env AToB (truncSec demo_now)]"
  by (simp add: inbox_def assms) (simp add: put_envelope_def demo_env_def)

theorem cursor_walk_witness:
  "\<exists>w1 w2 es. run (SQLite_ListEnvelopes demo_path AToB []) w1 = (Some (Inr es), w2) \<and> length es = 1
     \<and> inbox (db_view w1) demo_path AToB [] = es @ inbox (db_view w1) demo_path AToB (MsgID (last es))"
proof -
  obtain w1 where w1:
    "senvs (db_view w1) = [put_envelope demo_put demo_path (canonicalJSON demo_env) demo_env AToB (truncSec demo_now)]"
    "healthy w1"
    by (rule demo_put_run)
  obtain w2 where w2: "run (SQLite_ListEnvelopes demo_path AToB []) w1
      = (Some (Inr (take listLimit (inbox (db_view w1) demo_path AToB []))), w2)"
    using refinesE [OF SQLite_ListEnvelopes_refines [OF w1(2), of demo_path AToB "[]"]]
    by (metis fst_conv spec_ListEnvelopes_def)
  let ?es = "[put_envelope demo_put demo_path (canonicalJSON demo_env) demo_env AToB (truncSec demo_now)]"
  have l: "run (SQLite_ListEnvelopes demo_path AToB []) w1 = (Some (Inr ?es), w2)"
    using w2 by (simp add: demo_inbox [OF w1(1)] listLimit_def)
  from cursor_walk [OF w1(2) l] l show ?thesis
    by (intro exI [of _ w1] exI [of _ w2] exI [of _ ?es]) simp
qed

lemma AToB_not_Nil: "AToB \<noteq> []"
  by (simp add: AToB_def)

lemma demo_ack_ids: "ack_ids demo_ack = Inr [EnvMsgID demo_env]"
proof -
  let ?m = "''0190a0b0-c0d0-7000-8000-000000000001''"
  have "length (body demo_ack) = 48" by code_simp
  then have "readLimited ackLimit demo_ack = Some (body demo_ack)"
    by (simp add: readLimited_def ackLimit_def demo_ack_def)
  moreover have "lex LN (body demo_ack) = Some [TLBrace, TStr ''ids'', TColon, TLBrack, TStr ?m, TRBrack, TRBrace]"
    by code_simp
  then have "unmarshalIDs (body demo_ack) = Some [?m]"
    by (simp add: unmarshalIDs_def json_parse_def parse_step_def value_start_def attach_def close_def scalar_def
        maxNestingDepth_def match_field_def)
  ultimately show ?thesis by (simp add: ack_ids_def maxAckBatch_def demo_env_def)
qed

lemma demo_identify_ack:
  "identify_caller (EdVerifier_Identify toy_ed) demo_pair demo_ack (path demo_ack) = Inr key_B"
  by (simp add: identify_caller_def demo_ack_def demo_header demo_verify) (simp add: key_B_def)

theorem ack_own_inbox_witness:
  "\<exists>w1 w' gone. run (ack SQLite (EdVerifier_Identify toy_ed) demo_ack demo_path) w1 = (Some (evicted_response 1), w')
     \<and> db_view w' = (db_view w1)\<lparr>senvs := filter (\<lambda>e. e \<notin> gone) (senvs (db_view w1))\<rparr>
     \<and> length (senvs (db_view w1)) = 1 \<and> senvs (db_view w') = []"
proof -
  obtain w1 where w1:
    "senvs (db_view w1) = [put_envelope demo_put demo_path (canonicalJSON demo_env) demo_env AToB (truncSec demo_now)]"
    "find_pair (db_view w1) demo_path = Some demo_pair" "healthy w1"
    by (rule demo_put_run)
  have s: "ack_set (db_view w1) demo_path AToB [EnvMsgID demo_env] = senvs (db_view w1)"
    by (simp add: ack_set_def demo_inbox [OF w1(1)] w1(1) listLimit_def) (simp add: put_envelope_def)
  have sp: "spec_ack (EdVerifier_Identify toy_ed) demo_ack demo_path (db_view w1) = (evicted_response 1, (db_view w1)\<lparr>senvs := []\<rparr>)"
    using s by (simp add: spec_ack_def w1(1,2) demo_identify_ack demo_ack_ids demo_read AToB_not_Nil Let_def)
  obtain w' where w': "run (ack SQLite (EdVerifier_Identify toy_ed) demo_ack demo_path) w1 = (Some (evicted_response 1), w')"
    "senvs (db_view w') = []"
    using mail_sq.ack_refines [OF w1(3), of "EdVerifier_Identify toy_ed" demo_ack demo_path] sp by auto
  from ack_own_inbox [OF w1(3) w'(1)] w' w1(1) show ?thesis by force
qed

section \<open>Fifty-one envelopes\<close>

definition many_row :: "nat \<Rightarrow> env_row" where
  "many_row i = \<lparr>e_msg_id = pad 3 i, e_path_id = demo_path, e_direction = AToB, e_received_at = ''1970-01-01T00:00:00Z'',
     e_ciphertext = [], e_signature = [], e_outer_json = ''{}''\<rparr>"

definition many_world :: world where
  "many_world = demo_world\<lparr>wdb := (wdb demo_world)\<lparr>envelopes := map many_row [0..<51]\<rparr>\<rparr>"

lemma pad_less: "m < 1000 \<Longrightarrow> n < 1000 \<Longrightarrow> pad 3 m < pad 3 n \<longleftrightarrow> m < n"
  using pad_append_less [of m 3 n "[]" "[]"] by simp

lemma pad_eq: "m < 1000 \<Longrightarrow> n < 1000 \<Longrightarrow> pad 3 m = pad 3 n \<longleftrightarrow> m = n"
  using pad_less [of m n] pad_less [of n m] by (cases m n rule: linorder_cases) auto

lemma pad_not_Nil: "pad 3 i \<noteq> []"
  by (metis length_pad list.size(3) zero_neq_numeral)

lemma many_healthy: "healthy many_world"
proof -
  have "wire_time ''1970-01-01T00:00:00Z''" by code_simp
  moreover have "distinct (map (pad 3) [0..<51])"
    by (simp add: distinct_map inj_on_def pad_eq del: upt.simps upt_Suc)
  ultimately show ?thesis using demo_healthy
    by (simp add: healthy_def many_world_def unique_keys_def times_ok_def demo_world_def empty_db_def many_row_def
        comp_def list_all_iff del: upt.simps upt_Suc)
qed

lemma many_inbox:
  "inbox (db_view many_world) demo_path dir [] = (if dir = AToB then map (\<lambda>i. env_of_row (many_row i)) [0..<51] else [])"
proof -
  let ?all = "map (\<lambda>i. env_of_row (many_row i)) [0..<51]"
  have "sorted (map (pad 3) [0..<51])"
    by (rule sorted_map_mono) (auto simp: monotone_on_def pad_less pad_eq order_le_less simp del: upt.simps upt_Suc)
  then have "sort_key MsgID ?all = ?all"
    by (intro sort_key_id_if_sorted) (simp add: comp_def many_row_def del: upt.simps upt_Suc)
  moreover have "filter (\<lambda>e. PathID e = demo_path \<and> Direction e = dir \<and> [] < MsgID e) ?all = (if dir = AToB then ?all else [])"
    by (auto simp: filter_id_conv filter_empty_conv many_row_def pad_not_Nil simp del: upt.simps upt_Suc)
  ultimately show ?thesis
    by (simp add: inbox_def db_view_def many_world_def comp_def del: upt.simps upt_Suc)
qed

theorem ack_only_first_page_witness:
  "\<exists>resp w'. run (ack SQLite (EdVerifier_Identify toy_ed) demo_ack demo_path) many_world = (Some resp, w')
     \<and> env_of_row (many_row 50) \<in> set (senvs (db_view w'))"
proof -
  obtain resp w' where r: "run (ack SQLite (EdVerifier_Identify toy_ed) demo_ack demo_path) many_world = (Some resp, w')"
    using mail_sq.ack_refines [OF many_healthy, of "EdVerifier_Identify toy_ed" demo_ack demo_path] by auto
  have "\<forall>dir. env_of_row (many_row 50) \<notin> set (take 50 (inbox (db_view many_world) demo_path dir []))"
    by (auto simp: many_inbox take_map env_of_row_def many_row_def pad_eq simp del: upt.simps upt_Suc)
  moreover have "env_of_row (many_row 50) \<in> set (senvs (db_view many_world))"
    by (simp add: many_world_def db_view_def del: upt.simps upt_Suc)
  ultimately show ?thesis using ack_only_first_page [OF many_healthy r] r by blast
qed

end
