(* ===== verification/Pairflow.thy ===== *)
theory Pairflow
  imports Mailbox
begin

text \<open>
  \<open>internal/pairflow\<close>: the staged-approval registration.  A requester submits its
  half and polls, the owner lists, approves and denies; the handlers are effect
  programs over a \<open>storage\<close>, and \<open>ed25519.Verify\<close> is the argument \<open>ed\<close>.
\<close>

section \<open>Halves\<close>

definition pf_replayWindow :: duration where "pf_replayWindow = 5 * Minute"
definition requestTTL :: duration where "requestTTL = 24 * Hour"
definition maxBodySize :: nat where "maxBodySize = 65536"

record half =
  NexusID :: string
  HalfSigAlg :: string
  Pubkey :: string
  HalfDhAlg :: string
  DhPubkey :: string
  Endpoint :: string
  Nonce :: string
  HalfTs :: string
  SelfSig :: string
  pubkeyRaw :: bytes

definition half_fields :: "string list" where
  "half_fields = [''nexus_id'', ''sig_alg'', ''pubkey'', ''dh_alg'', ''dh_pubkey'', ''endpoint'', ''nonce'', ''ts'', ''self_sig'']"

definition half_of_fields :: "fields \<Rightarrow> half" where
  "half_of_fields f = \<lparr>NexusID = f ''nexus_id'', HalfSigAlg = f ''sig_alg'', Pubkey = f ''pubkey'',
     HalfDhAlg = f ''dh_alg'', DhPubkey = f ''dh_pubkey'', Endpoint = f ''endpoint'', Nonce = f ''nonce'',
     HalfTs = f ''ts'', SelfSig = f ''self_sig'', pubkeyRaw = []\<rparr>"

text \<open>\<open>json.Unmarshal\<close> into a \<open>half\<close>.\<close>

definition unmarshalHalf :: "string \<Rightarrow> half option" where
  "unmarshalHalf s = map_option half_of_fields (unmarshal_strings half_fields s)"

text \<open>
  Decoding into a struct of string fields and one nested \<open>half\<close>: an object for the
  nested field is decoded onto the value it already has.
\<close>

fun assign_nested :: "string list \<Rightarrow> string \<Rightarrow> (string \<times> json) list \<Rightarrow> fields \<times> fields \<times> bool \<Rightarrow> fields \<times> fields \<times> bool" where
  "assign_nested names sub [] st = st"
| "assign_nested names sub ((k, v) # ms) (env, henv, err) =
     (case match_field (names @ [sub]) k of None \<Rightarrow> assign_nested names sub ms (env, henv, err)
      | Some n \<Rightarrow>
         if v = JNull then assign_nested names sub ms (env, henv, err)
         else if n = sub then
           (case v of JObj hs \<Rightarrow> (let (henv', err') = assign_strings half_fields hs (henv, err)
                                in assign_nested names sub ms (env, henv', err'))
            | _ \<Rightarrow> assign_nested names sub ms (env, henv, True))
         else
           (case v of JStr s \<Rightarrow> assign_nested names sub ms (env(n := s), henv, err)
            | _ \<Rightarrow> assign_nested names sub ms (env, henv, True)))"

definition unmarshalNested :: "string list \<Rightarrow> string \<Rightarrow> string \<Rightarrow> (fields \<times> half) option" where
  "unmarshalNested names sub text' =
     (case json_parse text' of
        Some (JObj ms) \<Rightarrow>
          (let (env, henv, err) = assign_nested names sub ms (no_fields, no_fields, False)
           in if err then None else Some (env, half_of_fields henv))
      | Some JNull \<Rightarrow> Some (no_fields, half_of_fields no_fields)
      | _ \<Rightarrow> None)"

definition pf_decodeB64URL :: "string \<Rightarrow> bytes option" where
  "pf_decodeB64URL s = URLDecodeString (pad_b64 s)"

text \<open>The error code, or the half with its decoded key.\<close>

definition parseHalf :: "half \<Rightarrow> string + half" where
  "parseHalf h =
     (if NexusID h = [] \<or> HalfSigAlg h = [] \<or> Pubkey h = [] \<or> Nonce h = [] \<or> HalfTs h = [] \<or> SelfSig h = []
      then Inl ''missing_fields''
      else if length (NexusID h) > 256 then Inl ''nexus_id_too_long''
      else if length (Endpoint h) > 1024 then Inl ''endpoint_too_long''
      else if HalfSigAlg h \<noteq> ''ed25519'' then Inl ''unsupported_sig_alg''
      else (case pf_decodeB64URL (Pubkey h) of
          None \<Rightarrow> Inl ''pubkey_not_base64url''
        | Some pub \<Rightarrow>
            if length pub \<noteq> PublicKeySize then Inl ''pubkey_length''
            else if HalfDhAlg h \<noteq> [] \<or> DhPubkey h \<noteq> [] then
              (if HalfDhAlg h = [] \<or> DhPubkey h = [] then Inl ''dh_alg_or_dh_pubkey_missing''
               else if length (HalfDhAlg h) > 32 then Inl ''dh_alg_too_long''
               else if length (DhPubkey h) > 256 then Inl ''dh_pubkey_too_long''
               else if pf_decodeB64URL (DhPubkey h) = None then Inl ''dh_pubkey_not_base64url''
               else Inr (h\<lparr>pubkeyRaw := pub\<rparr>))
            else Inr (h\<lparr>pubkeyRaw := pub\<rparr>)))"

definition canonicalBytesV1 :: "half \<Rightarrow> string" where
  "canonicalBytesV1 h =
     Join [''v1'', NexusID h, HalfSigAlg h, Pubkey h, Endpoint h, Nonce h, HalfTs h] [CHR 0x0A]"

definition canonicalBytesV2 :: "half \<Rightarrow> string" where
  "canonicalBytesV2 h =
     Join [''v2'', NexusID h, HalfSigAlg h, Pubkey h, HalfDhAlg h, DhPubkey h, Endpoint h, Nonce h, HalfTs h] [CHR 0x0A]"

definition verifySelfSig :: "ed_verify \<Rightarrow> half \<Rightarrow> bool" where
  "verifySelfSig ed h =
     (case pf_decodeB64URL (SelfSig h) of None \<Rightarrow> False
      | Some sig \<Rightarrow>
          if length sig \<noteq> SignatureSize then False
          else if DhPubkey h \<noteq> [] then ed (pubkeyRaw h) (to_bytes (canonicalBytesV2 h)) sig
          else ed (pubkeyRaw h) (to_bytes (canonicalBytesV1 h)) sig)"

definition pf_parseTs :: "string \<Rightarrow> time option" where
  "pf_parseTs ts = (case Parse_RFC3339 ts of Some t \<Rightarrow> Some t | None \<Rightarrow> Parse_wire ts)"

definition pf_tsInWindow :: "string \<Rightarrow> time \<Rightarrow> bool" where
  "pf_tsInWindow ts now' =
     (case pf_parseTs ts of None \<Rightarrow> False
      | Some t \<Rightarrow>
         let d = time_Sub now' t;
             d' = (if d < 0 then neg64 d else d)
         in d' \<le> pf_replayWindow)"

text \<open>The stored form: \<open>dh_alg\<close> and \<open>dh_pubkey\<close> are left out when empty.\<close>

definition half_members :: "half \<Rightarrow> (string \<times> string) list" where
  "half_members h =
     [(''nexus_id'', NexusID h), (''sig_alg'', HalfSigAlg h), (''pubkey'', Pubkey h)]
     @ (if HalfDhAlg h = [] then [] else [(''dh_alg'', HalfDhAlg h)])
     @ (if DhPubkey h = [] then [] else [(''dh_pubkey'', DhPubkey h)])
     @ [(''endpoint'', Endpoint h), (''nonce'', Nonce h), (''ts'', HalfTs h), (''self_sig'', SelfSig h)]"

definition serializeHalf :: "half \<Rightarrow> string" where
  "serializeHalf h = render_strings True (half_members h)"

text \<open>The wire view of a half; Go writes the keys of a map in sorted order.\<close>

definition halfToWire :: "half \<Rightarrow> json" where
  "halfToWire h = JObj
     ((if HalfDhAlg h = [] then [] else [(''dh_alg'', JStr (HalfDhAlg h))])
      @ (if DhPubkey h = [] then [] else [(''dh_pubkey'', JStr (DhPubkey h))])
      @ [(''endpoint'', JStr (Endpoint h)), (''nexus_id'', JStr (NexusID h)), (''nonce'', JStr (Nonce h)),
         (''pubkey'', JStr (Pubkey h)), (''self_sig'', JStr (SelfSig h)), (''sig_alg'', JStr (HalfSigAlg h)),
         (''ts'', JStr (HalfTs h))])"

definition parsedRequesterHalf :: "string \<Rightarrow> json" where
  "parsedRequesterHalf stored = (case unmarshalHalf stored of None \<Rightarrow> JObj [] | Some h \<Rightarrow> halfToWire h)"

section \<open>Identifiers\<close>

fun bytesLess :: "bytes \<Rightarrow> bytes \<Rightarrow> bool" where
  "bytesLess (x # xs) (y # ys) = (if x \<noteq> y then x < y else bytesLess xs ys)"
| "bytesLess [] (y # ys) = True"
| "bytesLess _ [] = False"

definition computePathID :: "bytes \<Rightarrow> bytes \<Rightarrow> string" where
  "computePathID a b =
     (let (first, second) = (if bytesLess b a then (b, a) else (a, b))
      in ''nxc_'' @ RawURLEncode (sha256 (first @ second)))"

definition uuid_of_bytes :: "bytes \<Rightarrow> string" where
  "uuid_of_bytes b0 =
     (let b = b0[6 := ((b0 ! 6) AND 0x0F) OR 0x40, 8 := ((b0 ! 8) AND 0x3F) OR 0x80];
          part = (\<lambda>i j. hex_EncodeToString (take (j - i) (drop i b)))
      in part 0 4 @ ''-'' @ part 4 6 @ ''-'' @ part 6 8 @ ''-'' @ part 8 10 @ ''-'' @ part 10 16)"

text \<open>\<open>rand.Read\<close> fills sixteen bytes or fails; a failure panics.\<close>

definition newUUIDv4 :: "string prog" where
  "newUUIDv4 = Rand (\<lambda>r. case r of None \<Rightarrow> Panic
     | Some bs \<Rightarrow> if length bs = 16 then Ret (uuid_of_bytes bs) else Panic)"

section \<open>POST /pair/request\<close>

definition create_fields :: "string list" where
  "create_fields = [''target_nexus_id'']"

text \<open>The checks before the clock is read.\<close>

definition create_parse :: "request \<Rightarrow> response + (string \<times> half)" where
  "create_parse r =
     (case readLimited maxBodySize r of
        None \<Rightarrow> Inl (errorJSON 400 ''body_read_failed'')
      | Some raw \<Rightarrow> (case unmarshalNested create_fields ''requester'' raw of
          None \<Rightarrow> Inl (errorJSON 400 ''invalid_json'')
        | Some (env, h) \<Rightarrow>
            (let target = env ''target_nexus_id'' in
             if target = [] then Inl (errorJSON 400 ''missing_target'')
             else if length target > 256 then Inl (errorJSON 400 ''target_nexus_id_too_long'')
             else (case parseHalf h of Inl code \<Rightarrow> Inl (errorJSON 400 code)
                   | Inr parsed \<Rightarrow> Inr (target, parsed)))))"

definition new_request :: "string \<Rightarrow> time \<Rightarrow> half \<Rightarrow> string \<Rightarrow> pair_request" where
  "new_request rid t h target =
     \<lparr>RequestID = rid, Status = StatusPending, CreatedAt = t, ExpiresAt = time_Add t requestTTL, ReqPathID = [],
      RequesterJSON = serializeHalf h, OwnerJSON = [], TargetNexusID = target\<rparr>"

definition createRequest :: "ed_verify \<Rightarrow> storage \<Rightarrow> request \<Rightarrow> response prog" where
  "createRequest ed st r =
     (case create_parse r of Inl resp \<Rightarrow> Ret resp
      | Inr (target, parsed) \<Rightarrow> bind now (\<lambda>t.
          if \<not> pf_tsInWindow (HalfTs parsed) t then Ret (errorJSON 400 ''ts_out_of_window'')
          else if \<not> verifySelfSig ed parsed then Ret (errorJSON 400 ''bad_self_sig'')
          else bind newUUIDv4 (\<lambda>rid. bind now (\<lambda>t'.
            bind (InsertPairRequest st (new_request rid t' parsed target)) (\<lambda>e.
              Ret (case e of
                     Some ErrDuplicate \<Rightarrow> errorJSON 500 ''request_id_collision''
                   | Some _ \<Rightarrow> errorJSON 500 ''storage_error''
                   | None \<Rightarrow> writeJSON 201 (JObj
                       [(''expires_at'', JStr (Format_wire (time_Add t' requestTTL))),
                        (''request_id'', JStr rid), (''status'', JStr StatusPending)])))))))"

section \<open>GET /pair/requests/:id\<close>

definition status_response :: "pair_request \<Rightarrow> response" where
  "status_response q =
     writeJSON 200 (JObj
       ((if Status q = StatusApproved \<and> OwnerJSON q \<noteq> []
         then (case unmarshalHalf (OwnerJSON q) of None \<Rightarrow> [] | Some h \<Rightarrow> [(''owner_half'', halfToWire h)]) else [])
        @ (if ReqPathID q = [] then [] else [(''path_id'', JStr (ReqPathID q))])
        @ [(''request_id'', JStr (RequestID q)), (''status'', JStr (Status q))]))"

definition getRequestStatus :: "storage \<Rightarrow> string \<Rightarrow> response prog" where
  "getRequestStatus st rid =
     (if \<not> uuidRegex rid then Ret (errorJSON 400 ''invalid_request_id'')
      else bind (GetPairRequest st rid) (\<lambda>g. Ret (case g of
          Inl e \<Rightarrow> if e = ErrNotFound then errorJSON 404 ''request_not_found'' else errorJSON 500 ''storage_error''
        | Inr q \<Rightarrow> status_response q)))"

section \<open>GET /pair/requests\<close>

definition requesterView :: "half \<Rightarrow> json" where
  "requesterView h = JObj
     ((if HalfDhAlg h = [] then [] else [(''dh_alg'', JStr (HalfDhAlg h))])
      @ (if DhPubkey h = [] then [] else [(''dh_pubkey'', JStr (DhPubkey h))])
      @ [(''endpoint'', JStr (Endpoint h)), (''nexus_id'', JStr (NexusID h)),
         (''pubkey'', JStr (Pubkey h)), (''sig_alg'', JStr (HalfSigAlg h))])"

definition renderPending :: "pair_request \<Rightarrow> json" where
  "renderPending q = JObj
     ([(''created_at'', JStr (Format_wire (CreatedAt q))), (''request_id'', JStr (RequestID q))]
      @ (case unmarshalHalf (RequesterJSON q) of None \<Rightarrow> [] | Some h \<Rightarrow> [(''requester'', requesterView h)])
      @ [(''status'', JStr (Status q)), (''target_nexus_id'', JStr (TargetNexusID q))])"

definition listPending :: "storage \<Rightarrow> request \<Rightarrow> response prog" where
  "listPending st r =
     (let want = QueryGet r ''status'' in
      if want \<noteq> [] \<and> want \<noteq> StatusPending then
        Ret (writeJSON 400 (JObj [(''error'', JStr ''status_filter_unsupported''), (''only'', JStr ''pending'')]))
      else bind (ListPendingPairRequests st) (\<lambda>l. Ret (case l of
          Inl _ \<Rightarrow> errorJSON 500 ''storage_error''
        | Inr qs \<Rightarrow> writeJSON 200 (JObj [(''requests'', JArr (map renderPending qs))]))))"


section \<open>POST /pair/requests/:id/approve\<close>

definition approved_response :: "string \<Rightarrow> string \<Rightarrow> json \<Rightarrow> response" where
  "approved_response rid pathID requester =
     writeJSON 200 (JObj [(''path_id'', JStr pathID), (''request_id'', JStr rid),
       (''requester_half'', requester), (''status'', JStr ''approved'')])"

definition not_pending_response :: "pair_request \<Rightarrow> response" where
  "not_pending_response q =
     writeJSON 409 (JObj [(''error'', JStr ''request_not_pending''), (''status'', JStr (Status q))])"

text \<open>
  A decided request: approving again is idempotent for the owner who holds the key of
  the active pair, and a conflict for everybody else.
\<close>

definition approve_decided :: "ed_verify \<Rightarrow> storage \<Rightarrow> string \<Rightarrow> pair_request \<Rightarrow> half \<Rightarrow> response prog" where
  "approve_decided ed st rid req ownerIn =
     (if Status req = StatusApproved \<and> ReqPathID req \<noteq> [] then
        (case parseHalf ownerIn of
           Inl _ \<Rightarrow> Ret (not_pending_response req)
         | Inr owner \<Rightarrow>
             if verifySelfSig ed owner then
               bind (GetPair st (ReqPathID req)) (\<lambda>g. Ret (case g of
                   Inl _ \<Rightarrow> not_pending_response req
                 | Inr existing \<Rightarrow>
                     if OwnerPubkey existing = Pubkey owner
                     then approved_response rid (ReqPathID req) (parsedRequesterHalf (RequesterJSON req))
                     else not_pending_response req))
             else Ret (not_pending_response req))
      else Ret (not_pending_response req))"

definition new_pair :: "string \<Rightarrow> half \<Rightarrow> half \<Rightarrow> time \<Rightarrow> pair" where
  "new_pair pathID requester owner t =
     \<lparr>PairPathID = pathID, RequesterID = NexusID requester, RequesterPubkey = Pubkey requester,
      RequesterDHPubkey = [], OwnerID = NexusID owner, OwnerPubkey = Pubkey owner, OwnerDHPubkey = [],
      SigAlg = HalfSigAlg requester, DhAlg = ''P-256'', ActivatedAt = t\<rparr>"

text \<open>
  Activation: insert the pair, then claim the request.  \<open>raw\<close> is the request body, which
  the branch for an existing pair stores as the owner half.
\<close>

definition approve_activate :: "storage \<Rightarrow> string \<Rightarrow> string \<Rightarrow> half \<Rightarrow> half \<Rightarrow> response prog" where
  "approve_activate st raw rid requester owner =
     (let pathID = computePathID (pubkeyRaw requester) (pubkeyRaw owner);
          ok = approved_response rid pathID (halfToWire requester) in
      bind now (\<lambda>t.
      bind (InsertPair st (new_pair pathID requester owner t)) (\<lambda>e.
        case e of
          Some err \<Rightarrow>
            if err = ErrDuplicate then
              bind (GetPair st pathID) (\<lambda>g.
                case g of
                  Inl _ \<Rightarrow> Ret (errorJSON 409 ''pair_conflict'')
                | Inr existing \<Rightarrow>
                    if RequesterPubkey existing = Pubkey requester \<and> OwnerPubkey existing = Pubkey owner
                    then bind (UpdatePairRequestStatus st rid StatusApproved raw pathID) (\<lambda>_. Ret ok)
                    else Ret (errorJSON 409 ''pair_conflict''))
            else Ret (errorJSON 500 ''storage_error'')
        | None \<Rightarrow>
            bind (UpdatePairRequestStatus st rid StatusApproved (serializeHalf owner) pathID) (\<lambda>u.
              Ret (case u of
                     None \<Rightarrow> ok
                   | Some err \<Rightarrow>
                       if err = ErrConflict then errorJSON 409 ''request_not_pending_concurrent''
                       else errorJSON 500 ''storage_error'')))))"

text \<open>The stored requester with its decoded key.\<close>

definition stored_requester :: "pair_request \<Rightarrow> half option" where
  "stored_requester req =
     map_option (\<lambda>h. h\<lparr>pubkeyRaw := (case pf_decodeB64URL (Pubkey h) of Some b \<Rightarrow> b | None \<Rightarrow> [])\<rparr>)
       (unmarshalHalf (RequesterJSON req))"

definition approve_pending :: "ed_verify \<Rightarrow> storage \<Rightarrow> string \<Rightarrow> string \<Rightarrow> pair_request \<Rightarrow> half \<Rightarrow> response prog" where
  "approve_pending ed st raw rid req ownerIn =
     (case stored_requester req of
        None \<Rightarrow> Ret (errorJSON 500 ''stored_requester_corrupt'')
      | Some requester \<Rightarrow>
         (case parseHalf ownerIn of
            Inl code \<Rightarrow> Ret (errorJSON 400 code)
          | Inr owner \<Rightarrow>
              if HalfSigAlg owner \<noteq> HalfSigAlg requester then Ret (errorJSON 400 ''sig_alg_mismatch'')
              else bind now (\<lambda>t.
                if \<not> pf_tsInWindow (HalfTs owner) t then Ret (errorJSON 400 ''ts_out_of_window'')
                else if \<not> verifySelfSig ed owner then Ret (errorJSON 400 ''bad_self_sig'')
                else approve_activate st raw rid requester owner)))"

definition approve :: "ed_verify \<Rightarrow> storage \<Rightarrow> request \<Rightarrow> string \<Rightarrow> response prog" where
  "approve ed st r rid =
     (if \<not> uuidRegex rid then Ret (errorJSON 400 ''invalid_request_id'')
      else (case readLimited maxBodySize r of
        None \<Rightarrow> Ret (errorJSON 400 ''body_read_failed'')
      | Some raw \<Rightarrow> (case unmarshalNested [] ''owner'' raw of
          None \<Rightarrow> Ret (errorJSON 400 ''invalid_json'')
        | Some (_, ownerIn) \<Rightarrow>
            bind (GetPairRequest st rid) (\<lambda>g.
              case g of
                Inl e \<Rightarrow> Ret (if e = ErrNotFound then errorJSON 404 ''request_not_found'' else errorJSON 500 ''storage_error'')
              | Inr req \<Rightarrow>
                  if Status req \<noteq> StatusPending then approve_decided ed st rid req ownerIn
                  else approve_pending ed st raw rid req ownerIn))))"

section \<open>POST /pair/requests/:id/deny\<close>

definition deny :: "storage \<Rightarrow> string \<Rightarrow> response prog" where
  "deny st rid =
     (if \<not> uuidRegex rid then Ret (errorJSON 400 ''invalid_request_id'')
      else bind (UpdatePairRequestStatus st rid StatusDenied [] []) (\<lambda>u. Ret (case u of
          Some ErrNotFound \<Rightarrow> errorJSON 404 ''request_not_found''
        | Some ErrConflict \<Rightarrow> errorJSON 409 ''request_not_pending''
        | Some _ \<Rightarrow> errorJSON 500 ''storage_error''
        | None \<Rightarrow> writeJSON 200 (JObj [(''request_id'', JStr rid), (''status'', JStr StatusDenied)]))))"

section \<open>Dispatch\<close>

text \<open>Expire stale requests, ignoring an error, before anything else.\<close>

definition expire_first :: "storage \<Rightarrow> 'a prog \<Rightarrow> 'a prog" where
  "expire_first st k = bind now (\<lambda>t. bind (ExpirePendingRequests st t) (\<lambda>_. k))"

definition routePublic :: "ed_verify \<Rightarrow> storage \<Rightarrow> request \<Rightarrow> response prog" where
  "routePublic ed st r =
     (let p = TrimPrefix (path r) ''/pair/'' in
      if p = path r then Ret NotFound
      else let parts = Split CHR ''/'' p in
           if parts = [''request''] \<and> meth r = ''POST'' then createRequest ed st r
           else if length parts = 2 \<and> parts ! 0 = ''requests'' \<and> parts ! 1 \<noteq> [] \<and> meth r = ''GET''
             then getRequestStatus st (parts ! 1)
           else Ret NotFound)"

definition dispatchPublic :: "ed_verify \<Rightarrow> storage \<Rightarrow> request \<Rightarrow> response prog" where
  "dispatchPublic ed st r = expire_first st (routePublic ed st r)"

definition routeOwner :: "ed_verify \<Rightarrow> storage \<Rightarrow> request \<Rightarrow> response prog" where
  "routeOwner ed st r =
     (let p = TrimPrefix (path r) ''/pair/'' in
      if p = path r then Ret NotFound
      else let parts = Split CHR ''/'' p in
           if parts = [''requests''] \<and> meth r = ''GET'' then listPending st r
           else if length parts = 3 \<and> parts ! 0 = ''requests'' \<and> parts ! 2 \<noteq> [] \<and> meth r = ''POST'' then
             (if parts ! 2 = ''approve'' then approve ed st r (parts ! 1)
              else if parts ! 2 = ''deny'' then deny st (parts ! 1)
              else Ret NotFound)
           else Ret NotFound)"

definition ownerAuthorized :: "string \<Rightarrow> request \<Rightarrow> bool" where
  "ownerAuthorized secret r \<longleftrightarrow> secret = [] \<or> Get (hdr r) ''X-Owner-Secret'' = secret"

definition dispatchOwner :: "ed_verify \<Rightarrow> string \<Rightarrow> storage \<Rightarrow> request \<Rightarrow> response prog" where
  "dispatchOwner ed secret st r =
     (if \<not> ownerAuthorized secret r then Ret (errorJSON 401 ''owner_auth_required'')
      else expire_first st (routeOwner ed st r))"

end
