(* ===== verification/PairflowFacts.thy ===== *)
theory PairflowFacts
  imports Pairflow MailboxFacts
begin

text \<open>
  The pure part of the pair flow: path ids, request ids, the stored form of a half
  and the two self-signature preimages.
\<close>

section \<open>Path ids\<close>

lemma bytesLess_less: "bytesLess a b \<longleftrightarrow> a < b"
  by (induction a b rule: bytesLess.induct) (auto simp: Nil_less_iff)

lemma computePathID_pathID: "pathIDRegex (computePathID a b)"
  using RawURLEncode_chars
  by (simp add: computePathID_def pathIDRegex_def length_RawURLEncode Let_def split: prod.splits)

text \<open>
  Both sides derive the same path id whichever of them is called requester, and
  the mailbox accepts its syntax.
\<close>

theorem computePathID_symmetric:
  "computePathID a b = computePathID b a \<and> pathIDRegex (computePathID a b)"
proof -
  have "computePathID a b = computePathID b a"
    by (cases a b rule: linorder_cases) (auto simp: computePathID_def bytesLess_less)
  then show ?thesis using computePathID_pathID by blast
qed

section \<open>Request ids\<close>

definition seg_ok :: "nat list \<Rightarrow> nat \<Rightarrow> string \<Rightarrow> bool" where
  "seg_ok ps off s \<longleftrightarrow>
     (\<forall>i < length s. (s ! i = CHR ''-'') = (off + i \<in> set ps) \<and> (off + i \<in> set ps \<or> lower_hex (s ! i)))"

lemma seg_ok_append: "seg_ok ps off (a @ b) \<longleftrightarrow> seg_ok ps off a \<and> seg_ok ps (off + length a) b"
proof
  assume l: "seg_ok ps off (a @ b)"
  show "seg_ok ps off a \<and> seg_ok ps (off + length a) b"
    unfolding seg_ok_def
  proof (intro conjI allI impI)
    fix i assume "i < length a"
    then show "(a ! i = CHR ''-'') = (off + i \<in> set ps)" "off + i \<in> set ps \<or> lower_hex (a ! i)"
      using l [unfolded seg_ok_def, rule_format, of i] by (simp_all add: nth_append)
  next
    fix i assume "i < length b"
    then show "(b ! i = CHR ''-'') = (off + length a + i \<in> set ps)" "off + length a + i \<in> set ps \<or> lower_hex (b ! i)"
      using l [unfolded seg_ok_def, rule_format, of "length a + i"] by (simp_all add: nth_append add.assoc)
  qed
next
  assume r: "seg_ok ps off a \<and> seg_ok ps (off + length a) b"
  show "seg_ok ps off (a @ b)"
    unfolding seg_ok_def
  proof (intro allI impI)
    fix i assume i: "i < length (a @ b)"
    show "((a @ b) ! i = CHR ''-'') = (off + i \<in> set ps) \<and> (off + i \<in> set ps \<or> lower_hex ((a @ b) ! i))"
      using r i by (cases "i < length a") (auto simp: seg_ok_def nth_append dest: spec [of _ "i - length a"])
  qed
qed

lemma seg_ok_hex:
  assumes "list_all lower_hex s" "\<And>i. i < length s \<Longrightarrow> off + i \<notin> set ps"
  shows "seg_ok ps off s"
  using assms by (auto simp: seg_ok_def list_all_length lower_hex_def)

lemma seg_ok_dash: "seg_ok ps off ''-'' \<longleftrightarrow> off \<in> set ps"
  by (auto simp: seg_ok_def)

lemma dashes_at_seg: "dashes_at ps s = seg_ok ps 0 s"
  by (auto simp: dashes_at_def seg_ok_def list_all_iff)

lemma hex_digit_lower: "n < 16 \<Longrightarrow> lower_hex (hex_digit n)"
proof -
  have "list_all (\<lambda>n. lower_hex (hex_digit n)) [0..<16]" by code_simp
  then show "n < 16 \<Longrightarrow> ?thesis" by (simp add: list_all_iff del: upt.simps upt_Suc)
qed

lemma hex_byte_lower: "list_all lower_hex (hex_byte b)"
  using unat_byte_less [of b] by (simp add: hex_byte_def hex_digit_lower div_less_iff_less_mult)

lemma hex_lower_hex: "list_all lower_hex (hex_EncodeToString b)"
  by (induction b) (simp_all add: hex_EncodeToString_def hex_byte_lower)

lemma seg_hex:
  "(\<And>k. k < 2 * length cs \<Longrightarrow> off + k \<notin> set ps) \<Longrightarrow> seg_ok ps off (hex_EncodeToString cs)"
  by (rule seg_ok_hex [OF hex_lower_hex]) simp

lemma seg_ok_dash_Cons: "seg_ok ps off (CHR ''-'' # s) \<longleftrightarrow> off \<in> set ps \<and> seg_ok ps (Suc off) s"
  using seg_ok_append [of ps off "''-''" s] by (simp add: seg_ok_dash)

lemma uuid_regex:
  assumes "length b = 16"
  shows "uuidRegex (uuid_of_bytes b)"
  using assms
  by (simp add: uuidRegex_def dashes_at_seg uuid_of_bytes_def Let_def)
    (auto simp: seg_ok_append seg_ok_dash_Cons intro!: seg_hex)

lemma version_nibble: "unat ((x AND 0x0F) OR 0x40 :: byte) div 16 = 4"
proof -
  have "unat ((x AND 0x0F) OR 0x40 :: byte) div 16 = drop_bit 4 ((unat x AND 15) OR 64)"
    by (simp add: unsigned_or_eq unsigned_and_eq drop_bit_eq_div)
  also have "\<dots> = 4" by (simp add: drop_bit_or drop_bit_and)
  finally show ?thesis .
qed

lemma variant_nibble: "unat ((x AND 0x3F) OR 0x80 :: byte) div 16 \<in> {8, 9, 10, 11}"
proof -
  have "unat ((x AND 0x3F) OR 0x80 :: byte) div 16 = drop_bit 4 ((unat x AND 63) OR 128)"
    by (simp add: unsigned_or_eq unsigned_and_eq drop_bit_eq_div)
  also have "\<dots> = (drop_bit 4 (unat x) AND 3) OR 8" by (simp add: drop_bit_or drop_bit_and)
  finally have e: "unat ((x AND 0x3F) OR 0x80 :: byte) div 16 = (drop_bit 4 (unat x) AND 3) OR 8" .
  have "drop_bit 4 (unat x) AND 3 = drop_bit 4 (unat x) mod 4"
    using take_bit_eq_mask [of 2 "drop_bit 4 (unat x)"] by (simp add: take_bit_eq_mod mask_eq_exp_minus_1)
  then have "drop_bit 4 (unat x) AND 3 < 4" by simp
  then consider "drop_bit 4 (unat x) AND 3 = 0" | "drop_bit 4 (unat x) AND 3 = 1"
    | "drop_bit 4 (unat x) AND 3 = 2" | "drop_bit 4 (unat x) AND 3 = 3" by linarith
  then show ?thesis unfolding e by cases simp_all
qed

lemma hex_two: "hex_EncodeToString [a, b] = [hex_digit (unat a div 16), hex_digit (unat a mod 16),
    hex_digit (unat b div 16), hex_digit (unat b mod 16)]"
  by (simp add: hex_EncodeToString_def hex_byte_def)

lemma take_2_drop: "Suc i < length xs \<Longrightarrow> take 2 (drop i xs) = [xs ! i, xs ! Suc i]"
  by (simp add: Cons_nth_drop_Suc [symmetric] numeral_2_eq_2)

text \<open>
  C40. A minted request id is a version 4 UUID: it has the syntax the handlers accept,
  the version digit 4 and a variant digit 8, 9, a or b.
\<close>

theorem uuid_v4:
  assumes "length b = 16"
  shows "uuidRegex (uuid_of_bytes b) \<and> uuid_of_bytes b ! 14 = CHR ''4'' \<and> uuid_of_bytes b ! 19 \<in> set ''89ab''"
proof -
  let ?x = "(b ! 6 AND 0x0F) OR 0x40" and ?y = "(b ! 8 AND 0x3F) OR 0x80"
  have "uuid_of_bytes b ! 14 = hex_digit (unat ?x div 16)"
    using assms by (simp add: uuid_of_bytes_def Let_def nth_append take_2_drop hex_two)
  then have v: "uuid_of_bytes b ! 14 = CHR ''4''"
    by (simp only: version_nibble) code_simp
  have "uuid_of_bytes b ! 19 = hex_digit (unat ?y div 16)"
    using assms by (simp add: uuid_of_bytes_def Let_def nth_append take_2_drop hex_two)
  moreover have "hex_digit n \<in> set ''89ab''" if "n \<in> {8, 9, 10, 11}" for n
  proof -
    have "list_all (\<lambda>n. hex_digit n \<in> set ''89ab'') [8, 9, 10, 11]" by code_simp
    then show ?thesis using that by auto
  qed
  ultimately have "uuid_of_bytes b ! 19 \<in> set ''89ab''" using variant_nibble [of "b ! 8"] by simp
  then show ?thesis using v uuid_regex [OF assms] by blast
qed

theorem uuid_v4_witness:
  "length (replicate 16 (0xFF :: byte)) = 16 \<and> uuidRegex (uuid_of_bytes (replicate 16 0xFF))"
  using uuid_v4 [of "replicate 16 0xFF"] by simp

section \<open>The stored form of a half\<close>

definition utf8_half :: "half \<Rightarrow> bool" where
  "utf8_half h \<longleftrightarrow> list_all valid_utf8
     [NexusID h, HalfSigAlg h, Pubkey h, HalfDhAlg h, DhPubkey h, Endpoint h, Nonce h, HalfTs h, SelfSig h]"

lemma unmarshal_serializeHalf:
  assumes "utf8_half h"
  shows "unmarshalHalf (serializeHalf h) = Some (h\<lparr>pubkeyRaw := []\<rparr>)"
proof -
  have "\<forall>n \<in> set half_fields. valid_utf8 n"
    by (simp add: half_fields_def ascii_utf8 del: valid_utf8.simps)
  then have "unmarshal_strings half_fields (serializeHalf h)
      = Some (\<lambda>n. case map_of (half_members h) n of Some v \<Rightarrow> utf8_fix v | None \<Rightarrow> [])"
    unfolding serializeHalf_def
    by (rule unmarshal_render) (auto simp: half_members_def half_fields_def)
  then show ?thesis using assms
    by (simp add: unmarshalHalf_def half_of_fields_def half_members_def utf8_half_def valid_utf8_fix_id)
qed

text \<open>
  Storing a half and reading it back loses nothing but the cached key bytes, for
  halves of UTF-8 text and whether or not they carry ECDH material.
\<close>

theorem serializeHalf_roundtrip:
  assumes "utf8_half h"
  shows "unmarshalHalf (serializeHalf h) = Some (h\<lparr>pubkeyRaw := []\<rparr>)"
  by (rule unmarshal_serializeHalf [OF assms])

definition demo_half :: half where
  "demo_half = \<lparr>NexusID = ''alpha'', HalfSigAlg = ''ed25519'', Pubkey = replicate 43 CHR ''A'', HalfDhAlg = ''X25519'',
     DhPubkey = replicate 43 CHR ''C'', Endpoint = [], Nonce = ''bm9uY2U'', HalfTs = ''2026-06-15T12:00:00Z'',
     SelfSig = replicate 86 CHR ''A'', pubkeyRaw = []\<rparr>"

lemma demo_half_utf8: "utf8_half demo_half"
proof -
  have "list_all ascii [NexusID demo_half, HalfSigAlg demo_half, Pubkey demo_half, HalfDhAlg demo_half,
     DhPubkey demo_half, Endpoint demo_half, Nonce demo_half, HalfTs demo_half, SelfSig demo_half]"
    by code_simp
  then show ?thesis by (simp add: utf8_half_def ascii_utf8 del: valid_utf8.simps)
qed

theorem serializeHalf_roundtrip_witness: "unmarshalHalf (serializeHalf demo_half) = Some (demo_half\<lparr>pubkeyRaw := []\<rparr>)"
  by (rule serializeHalf_roundtrip [OF demo_half_utf8])

section \<open>The self-signature preimages\<close>

definition wire_fields :: "half \<Rightarrow> string list" where
  "wire_fields h = [NexusID h, HalfSigAlg h, Pubkey h, HalfDhAlg h, DhPubkey h, Endpoint h, Nonce h, HalfTs h]"

text \<open>
  The v2 preimage covers every field: when one of two halves has no newline in its
  fields, equal preimages mean equal fields, the ECDH key included.
\<close>

theorem canonicalBytesV2_covers:
  assumes "\<forall>f \<in> set (wire_fields g). CHR 0x0A \<notin> set f" and "canonicalBytesV2 g = canonicalBytesV2 h"
  shows "wire_fields g = wire_fields h"
proof -
  have "Join (''v2'' # wire_fields g) [CHR 0x0A] = Join (''v2'' # wire_fields h) [CHR 0x0A]"
    using assms(2) by (simp add: canonicalBytesV2_def wire_fields_def)
  moreover have "\<forall>f \<in> set (''v2'' # wire_fields g). CHR 0x0A \<notin> set f"
    using assms(1) by simp
  moreover have "length (''v2'' # wire_fields g) = length (''v2'' # wire_fields h)"
    by (simp add: wire_fields_def)
  ultimately have "''v2'' # wire_fields g = ''v2'' # wire_fields h"
    using Join_inj by blast
  then show ?thesis by simp
qed


theorem canonicalBytesV2_covers_witness: "wire_fields demo_half = wire_fields (demo_half\<lparr>SelfSig := []\<rparr>)"
proof (rule canonicalBytesV2_covers)
  show "\<forall>f \<in> set (wire_fields demo_half). CHR 0x0A \<notin> set f"
    by (simp add: wire_fields_def demo_half_def)
  show "canonicalBytesV2 demo_half = canonicalBytesV2 (demo_half\<lparr>SelfSig := []\<rparr>)"
    by (simp add: canonicalBytesV2_def)
qed

text \<open>
  With newlines the preimage is ambiguous, and \<open>parseHalf\<close> accepts newlines: two
  halves with different endpoints and nonces pass validation and have one preimage,
  so a signature over the one is a signature over the other.
\<close>

theorem canonicalBytesV2_ambiguous:
  "\<exists>g h. parseHalf g = Inr g \<and> parseHalf h = Inr h \<and> Endpoint g \<noteq> Endpoint h \<and> Nonce g \<noteq> Nonce h
     \<and> canonicalBytesV2 g = canonicalBytesV2 h \<and> SelfSig g = SelfSig h"
proof -
  let ?k = "demo_half\<lparr>pubkeyRaw := replicate 32 0\<rparr>"
  let ?g = "?k\<lparr>Endpoint := ''https://a'', Nonce := [CHR ''n'', CHR 0x0A, CHR ''m'']\<rparr>"
  let ?h = "?k\<lparr>Endpoint := ''https://a'' @ [CHR 0x0A, CHR ''n''], Nonce := ''m''\<rparr>"
  have "parseHalf ?g = Inr ?g" "parseHalf ?h = Inr ?h" by code_simp+
  moreover have "Endpoint ?g \<noteq> Endpoint ?h" "Nonce ?g \<noteq> Nonce ?h" "SelfSig ?g = SelfSig ?h" by simp_all
  moreover have "canonicalBytesV2 ?g = canonicalBytesV2 ?h" by (simp add: canonicalBytesV2_def)
  ultimately show ?thesis by blast
qed

end
