(* ===== verification/PairflowSpec.thy ===== *)
theory PairflowSpec
  imports PairflowFacts
begin

text \<open>
  The pair-flow handlers over the abstract store: what each answers and the store it
  leaves, as functions; the locale \<open>pair_store\<close> proves that the effect programs
  refine them for every store that keeps the contract.
\<close>

section \<open>Abstract handlers\<close>

definition created_response :: "string \<Rightarrow> time \<Rightarrow> response" where
  "created_response rid t = writeJSON 201 (JObj
     [(''expires_at'', JStr (Format_wire (time_Add t requestTTL))), (''request_id'', JStr rid), (''status'', JStr StatusPending)])"

definition create_checks :: "ed_verify \<Rightarrow> request \<Rightarrow> time \<Rightarrow> response + (string \<times> half)" where
  "create_checks ed r t =
     (case create_parse r of Inl resp \<Rightarrow> Inl resp
      | Inr (target, h) \<Rightarrow>
          if \<not> pf_tsInWindow (HalfTs h) t then Inl (errorJSON 400 ''ts_out_of_window'')
          else if \<not> verifySelfSig ed h then Inl (errorJSON 400 ''bad_self_sig'')
          else Inr (target, h))"

definition stored_new :: "string \<Rightarrow> time \<Rightarrow> half \<Rightarrow> string \<Rightarrow> pair_request" where
  "stored_new rid t h target = (let q = new_request rid t h target in
     q\<lparr>CreatedAt := truncSec (CreatedAt q), ExpiresAt := truncSec (ExpiresAt q)\<rparr>)"

definition spec_create :: "ed_verify \<Rightarrow> request \<Rightarrow> bytes \<Rightarrow> time \<Rightarrow> time \<Rightarrow> store_state \<Rightarrow> response \<times> store_state" where
  "spec_create ed r bs t t' s =
     (case create_checks ed r t of Inl resp \<Rightarrow> (resp, s)
      | Inr (target, h) \<Rightarrow>
          (let rid = uuid_of_bytes bs in
           if find_req s rid \<noteq> None then (errorJSON 500 ''request_id_collision'', s)
           else (created_response rid t', s\<lparr>sreqs := sreqs s @ [stored_new rid t' h target]\<rparr>)))"

definition spec_status :: "string \<Rightarrow> store_state \<Rightarrow> response" where
  "spec_status rid s =
     (if \<not> uuidRegex rid then errorJSON 400 ''invalid_request_id''
      else (case find_req s rid of None \<Rightarrow> errorJSON 404 ''request_not_found'' | Some q \<Rightarrow> status_response q))"

definition spec_decided :: "ed_verify \<Rightarrow> string \<Rightarrow> pair_request \<Rightarrow> half \<Rightarrow> store_state \<Rightarrow> response" where
  "spec_decided ed rid req ownerIn s =
     (if Status req = StatusApproved \<and> ReqPathID req \<noteq> [] then
        (case parseHalf ownerIn of Inl _ \<Rightarrow> not_pending_response req
         | Inr owner \<Rightarrow>
             if verifySelfSig ed owner then
               (case find_pair s (ReqPathID req) of None \<Rightarrow> not_pending_response req
                | Some existing \<Rightarrow>
                    if OwnerPubkey existing = Pubkey owner
                    then approved_response rid (ReqPathID req) (parsedRequesterHalf (RequesterJSON req))
                    else not_pending_response req)
             else not_pending_response req)
      else not_pending_response req)"

definition path_of :: "half \<Rightarrow> half \<Rightarrow> string" where
  "path_of requester owner = computePathID (pubkeyRaw requester) (pubkeyRaw owner)"

definition spec_activate :: "string \<Rightarrow> string \<Rightarrow> half \<Rightarrow> half \<Rightarrow> time \<Rightarrow> store_state \<Rightarrow> response \<times> store_state" where
  "spec_activate raw rid requester owner t s =
     (let pid = path_of requester owner; ok = approved_response rid pid (halfToWire requester) in
      case find_pair s pid of
        Some existing \<Rightarrow>
          if RequesterPubkey existing = Pubkey requester \<and> OwnerPubkey existing = Pubkey owner
          then (ok, snd (spec_UpdateStatus rid StatusApproved raw pid s))
          else (errorJSON 409 ''pair_conflict'', s)
      | None \<Rightarrow>
          (let (u, s') = spec_UpdateStatus rid StatusApproved (serializeHalf owner) pid
                  (snd (spec_InsertPair (new_pair pid requester owner t) s))
           in (case u of None \<Rightarrow> ok
               | Some err \<Rightarrow> if err = ErrConflict then errorJSON 409 ''request_not_pending_concurrent''
                             else errorJSON 500 ''storage_error'', s')))"

definition spec_pending :: "ed_verify \<Rightarrow> string \<Rightarrow> string \<Rightarrow> pair_request \<Rightarrow> half \<Rightarrow> time \<Rightarrow> time \<Rightarrow> store_state \<Rightarrow> response \<times> store_state" where
  "spec_pending ed raw rid req ownerIn t t' s =
     (case stored_requester req of None \<Rightarrow> (errorJSON 500 ''stored_requester_corrupt'', s)
      | Some requester \<Rightarrow> (case parseHalf ownerIn of Inl code \<Rightarrow> (errorJSON 400 code, s)
         | Inr owner \<Rightarrow>
             if HalfSigAlg owner \<noteq> HalfSigAlg requester then (errorJSON 400 ''sig_alg_mismatch'', s)
             else if \<not> pf_tsInWindow (HalfTs owner) t then (errorJSON 400 ''ts_out_of_window'', s)
             else if \<not> verifySelfSig ed owner then (errorJSON 400 ''bad_self_sig'', s)
             else spec_activate raw rid requester owner t' s))"

definition approve_input :: "request \<Rightarrow> string \<Rightarrow> response + (string \<times> half)" where
  "approve_input r rid =
     (if \<not> uuidRegex rid then Inl (errorJSON 400 ''invalid_request_id'')
      else (case readLimited maxBodySize r of None \<Rightarrow> Inl (errorJSON 400 ''body_read_failed'')
        | Some raw \<Rightarrow> (case unmarshalNested [] ''owner'' raw of None \<Rightarrow> Inl (errorJSON 400 ''invalid_json'')
           | Some (_, h) \<Rightarrow> Inr (raw, h))))"

definition spec_approve :: "ed_verify \<Rightarrow> request \<Rightarrow> string \<Rightarrow> time \<Rightarrow> time \<Rightarrow> store_state \<Rightarrow> response \<times> store_state" where
  "spec_approve ed r rid t t' s =
     (case approve_input r rid of Inl resp \<Rightarrow> (resp, s)
      | Inr (raw, ownerIn) \<Rightarrow>
          (case find_req s rid of None \<Rightarrow> (errorJSON 404 ''request_not_found'', s)
           | Some req \<Rightarrow>
               if Status req \<noteq> StatusPending then (spec_decided ed rid req ownerIn s, s)
               else spec_pending ed raw rid req ownerIn t t' s))"

definition spec_deny :: "string \<Rightarrow> store_state \<Rightarrow> response \<times> store_state" where
  "spec_deny rid s =
     (if \<not> uuidRegex rid then (errorJSON 400 ''invalid_request_id'', s)
      else (case spec_UpdateStatus rid StatusDenied [] [] s of
          (Some ErrNotFound, s') \<Rightarrow> (errorJSON 404 ''request_not_found'', s')
        | (Some ErrConflict, s') \<Rightarrow> (errorJSON 409 ''request_not_pending'', s')
        | (Some _, s') \<Rightarrow> (errorJSON 500 ''storage_error'', s')
        | (None, s') \<Rightarrow> (writeJSON 200 (JObj [(''request_id'', JStr rid), (''status'', JStr StatusDenied)]), s')))"

section \<open>Refinement\<close>

context pair_store
begin

lemma status_refines:
  assumes "good w"
  shows "\<exists>w'. run (getRequestStatus st rid) w = (Some (spec_status rid (view w)), w') \<and> view w' = view w \<and> good w'"
proof -
  obtain w1 where w1: "run (GetPairRequest st rid) w = (Some (fst (spec_GetPairRequest rid (view w))), w1)"
    "view w1 = view w" "good w1"
    using refinesE [OF get_req [OF assms, of rid]] by (metis snd_conv spec_GetPairRequest_def)
  then show ?thesis using assms
    by (auto simp: getRequestStatus_def run_bind spec_status_def spec_GetPairRequest_def split: option.splits)
qed

lemma deny_refines:
  assumes "good w"
  shows "\<exists>w'. run (deny st rid) w = (Some (fst (spec_deny rid (view w))), w')
    \<and> view w' = snd (spec_deny rid (view w)) \<and> good w'"
proof (cases "uuidRegex rid")
  case False
  then show ?thesis using assms by (simp add: deny_def spec_deny_def)
next
  case True
  obtain w1 where w1: "run (UpdatePairRequestStatus st rid StatusDenied [] []) w
      = (Some (fst (spec_UpdateStatus rid StatusDenied [] [] (view w))), w1)"
    "view w1 = snd (spec_UpdateStatus rid StatusDenied [] [] (view w))" "good w1"
    using refinesE [OF update_status [OF assms, of rid StatusDenied "[]" "[]"]] by metis
  then show ?thesis using True
    by (cases "spec_UpdateStatus rid StatusDenied [] [] (view w)")
      (auto simp: deny_def run_bind spec_deny_def split: option.splits sterr.splits)
qed

lemma decided_refines:
  assumes "good w"
  shows "\<exists>w'. run (approve_decided ed st rid req h) w = (Some (spec_decided ed rid req h (view w)), w')
    \<and> view w' = view w \<and> good w'"
proof -
  obtain w1 where w1: "run (GetPair st (ReqPathID req)) w = (Some (fst (spec_GetPair (ReqPathID req) (view w))), w1)"
    "view w1 = view w" "good w1"
    using refinesE [OF get_pair [OF assms, of "ReqPathID req"]] by (metis snd_conv spec_GetPair_def)
  then show ?thesis using assms
    by (cases "parseHalf h"; cases "find_pair (view w) (ReqPathID req)")
      (auto simp: approve_decided_def run_bind spec_decided_def spec_GetPair_def)
qed

lemma activate_refines:
  assumes "good w" "wire_range (clock w 0)"
  shows "\<exists>w'. run (approve_activate st raw rid rq ow) w
      = (Some (fst (spec_activate raw rid rq ow (clock w 0) (view w))), w')
    \<and> view w' = snd (spec_activate raw rid rq ow (clock w 0) (view w)) \<and> good w'"
proof -
  let ?pid = "path_of rq ow"
  let ?p = "new_pair ?pid rq ow (clock w 0)"
  let ?w1 = "w\<lparr>clock := \<lambda>n. clock w (Suc n)\<rparr>"
  have w1: "view ?w1 = view w" "good ?w1" using assms(1) by (simp_all add: view_clock good_clock)
  have "wire_range (ActivatedAt ?p)" using assms(2) by (simp add: new_pair_def)
  then obtain w2 where w2: "run (InsertPair st ?p) ?w1 = (Some (fst (spec_InsertPair ?p (view w))), w2)"
    "view w2 = snd (spec_InsertPair ?p (view w))" "good w2"
    using refinesE [OF insert_pair [OF w1(2), of ?p]] w1(1) by metis
  have key: "PairPathID ?p = ?pid" by (simp add: new_pair_def)
  show ?thesis
  proof (cases "find_pair (view w) ?pid")
    case None
    then have ins: "fst (spec_InsertPair ?p (view w)) = None" by (simp add: spec_InsertPair_def key)
    obtain w3 where w3: "run (UpdatePairRequestStatus st rid StatusApproved (serializeHalf ow) ?pid) w2
        = (Some (fst (spec_UpdateStatus rid StatusApproved (serializeHalf ow) ?pid (view w2))), w3)"
      "view w3 = snd (spec_UpdateStatus rid StatusApproved (serializeHalf ow) ?pid (view w2))" "good w3"
      using refinesE [OF update_status [OF w2(3), of rid StatusApproved "serializeHalf ow" ?pid]] by metis
    show ?thesis using None ins w2 w3
      by (simp add: approve_activate_def path_of_def [symmetric] run_bind spec_activate_def Let_def split_beta)
  next
    case (Some ex)
    then have ins: "fst (spec_InsertPair ?p (view w)) = Some ErrDuplicate" "view w2 = view w"
      using w2(2) by (simp_all add: spec_InsertPair_def key)
    obtain w3 where w3: "run (GetPair st ?pid) w2 = (Some (Inr ex), w3)" "view w3 = view w" "good w3"
      using refinesE [OF get_pair [OF w2(3), of ?pid]] ins(2) Some by (simp add: spec_GetPair_def) metis
    obtain w4 where w4: "run (UpdatePairRequestStatus st rid StatusApproved raw ?pid) w3
        = (Some (fst (spec_UpdateStatus rid StatusApproved raw ?pid (view w))), w4)"
      "view w4 = snd (spec_UpdateStatus rid StatusApproved raw ?pid (view w))" "good w4"
      using refinesE [OF update_status [OF w3(3), of rid StatusApproved raw ?pid]] w3(2) by metis
    show ?thesis using Some ins w2 w3 w4
      by (auto simp: approve_activate_def path_of_def [symmetric] run_bind spec_activate_def Let_def)
  qed
qed

lemma pending_refines:
  assumes "good w" "wire_range (clock w 1)"
  shows "\<exists>w'. run (approve_pending ed st raw rid req h) w
      = (Some (fst (spec_pending ed raw rid req h (clock w 0) (clock w 1) (view w))), w')
    \<and> view w' = snd (spec_pending ed raw rid req h (clock w 0) (clock w 1) (view w)) \<and> good w'"
proof (cases "stored_requester req")
  case None
  then show ?thesis using assms by (simp add: approve_pending_def spec_pending_def)
next
  case rq: (Some rq)
  show ?thesis
  proof (cases "parseHalf h")
    case (Inl code)
    then show ?thesis using rq assms by (simp add: approve_pending_def spec_pending_def)
  next
    case ow: (Inr ow)
    let ?w1 = "w\<lparr>clock := \<lambda>n. clock w (Suc n)\<rparr>"
    have w1: "view ?w1 = view w" "good ?w1" "wire_range (clock ?w1 0)" "clock ?w1 0 = clock w 1"
      using assms by (simp_all add: view_clock good_clock)
    show ?thesis
      using activate_refines [OF w1(2,3), of raw rid rq ow] rq ow w1 assms(1)
      by (auto simp: approve_pending_def spec_pending_def)
  qed
qed

lemma approve_refines:
  assumes "good w" "wire_range (clock w 1)"
  shows "\<exists>w'. run (approve ed st r rid) w
      = (Some (fst (spec_approve ed r rid (clock w 0) (clock w 1) (view w))), w')
    \<and> view w' = snd (spec_approve ed r rid (clock w 0) (clock w 1) (view w)) \<and> good w'"
proof (cases "approve_input r rid")
  case (Inl resp)
  then show ?thesis using assms(1)
    by (auto simp: approve_def spec_approve_def approve_input_def split: option.splits if_splits)
next
  case (Inr i)
  obtain raw h where i: "i = (raw, h)" by (cases i)
  have a: "approve ed st r rid = bind (GetPairRequest st rid) (\<lambda>g.
              case g of
                Inl e \<Rightarrow> Ret (if e = ErrNotFound then errorJSON 404 ''request_not_found'' else errorJSON 500 ''storage_error'')
              | Inr req \<Rightarrow>
                  if Status req \<noteq> StatusPending then approve_decided ed st rid req h
                  else approve_pending ed st raw rid req h)"
    using Inr i by (auto simp: approve_def approve_input_def split: option.splits if_splits)
  obtain w1 where w1: "run (GetPairRequest st rid) w = (Some (fst (spec_GetPairRequest rid (view w))), w1)"
    "view w1 = view w" "good w1" "clock w1 = clock w"
    using refinesE [OF get_req [OF assms(1), of rid]] by (metis snd_conv spec_GetPairRequest_def)
  show ?thesis
  proof (cases "find_req (view w) rid")
    case None
    then show ?thesis using w1 Inr i by (simp add: a run_bind spec_approve_def spec_GetPairRequest_def)
  next
    case (Some req)
    then show ?thesis
      using w1 Inr i decided_refines [OF w1(3), of ed rid req h] pending_refines [OF w1(3), of ed raw rid req h] assms(2)
      by (auto simp: a run_bind spec_approve_def spec_GetPairRequest_def)
  qed
qed

lemma create_refines:
  assumes "good w" "wire_range (clock w 1)" "wire_range (time_Add (clock w 1) requestTTL)"
    and "entropy w 0 = Some bs" "length bs = 16"
  shows "\<exists>w'. run (createRequest ed st r) w
      = (Some (fst (spec_create ed r bs (clock w 0) (clock w 1) (view w))), w')
    \<and> view w' = snd (spec_create ed r bs (clock w 0) (clock w 1) (view w)) \<and> good w'"
proof (cases "create_parse r")
  case (Inl resp)
  then show ?thesis using assms(1) by (simp add: createRequest_def spec_create_def create_checks_def)
next
  case (Inr i)
  obtain target h where i: "i = (target, h)" by (cases i)
  show ?thesis
  proof (cases "pf_tsInWindow (HalfTs h) (clock w 0) \<and> verifySelfSig ed h")
    case False
    then show ?thesis using Inr i assms(1)
      by (auto simp: createRequest_def spec_create_def create_checks_def view_clock good_clock)
  next
    case True
    let ?q = "new_request (uuid_of_bytes bs) (clock w 1) h target"
    let ?w2 = "w\<lparr>entropy := \<lambda>n. entropy w (Suc n), clock := \<lambda>n. clock w (Suc (Suc n))\<rparr>"
    have w2: "view ?w2 = view w" "good ?w2"
      using assms(1) by (simp_all add: view_clock good_clock view_entropy good_entropy)
    have "wire_range (CreatedAt ?q)" "wire_range (ExpiresAt ?q)" using assms(2,3) by (simp_all add: new_request_def)
    then obtain w3 where w3: "run (InsertPairRequest st ?q) ?w2 = (Some (fst (spec_InsertPairRequest ?q (view w))), w3)"
      "view w3 = snd (spec_InsertPairRequest ?q (view w))" "good w3"
      using refinesE [OF insert_req [OF w2(2), of ?q]] w2(1) by metis
    show ?thesis using True Inr i w3 assms(4,5)
      by (auto simp: createRequest_def run_bind newUUIDv4_def spec_create_def create_checks_def Let_def
          spec_InsertPairRequest_def stored_new_def created_response_def new_request_def)
  qed
qed

text \<open>The dispatchers first expire what is stale.\<close>

lemma expire_first_run:
  assumes "good w" "wire_range (clock w 0)"
  shows "\<exists>w1. run (expire_first st k) w = run k w1 \<and> view w1 = snd (spec_ExpirePending (clock w 0) (view w)) \<and> good w1
    \<and> (\<forall>n. clock w1 n = clock w (Suc n)) \<and> entropy w1 = entropy w"
proof -
  let ?w = "w\<lparr>clock := \<lambda>n. clock w (Suc n)\<rparr>"
  have w: "view ?w = view w" "good ?w" using assms(1) by (simp_all add: view_clock good_clock)
  obtain w1 where "run (ExpirePendingRequests st (clock w 0)) ?w
      = (Some (fst (spec_ExpirePending (clock w 0) (view ?w))), w1)"
    "view w1 = snd (spec_ExpirePending (clock w 0) (view ?w))" "good w1" "clock w1 = clock ?w" "entropy w1 = entropy ?w"
    using refinesE [OF expire [OF w(2) assms(2)]] by metis
  then show ?thesis using w(1) by (auto simp: expire_first_def run_bind)
qed

end

end
