(* ===== verification/PairflowProps.thy ===== *)
theory PairflowProps
  imports PairflowSpec MailboxDemo
begin

text \<open>
  The properties of the pair flow on SQLite: what creates, approves and denies a
  request, what the requester learns, and what the public listener cannot do.
\<close>

section \<open>Creating a request\<close>

lemma create_parse_Inl: "create_parse r = Inl resp \<Longrightarrow> refusal resp"
  by (auto simp: create_parse_def refusal_def Let_def split: option.splits if_splits sum.splits)

lemma create_checks_Inl: "create_checks ed r t = Inl resp \<Longrightarrow> refusal resp"
  by (auto simp: create_checks_def refusal_def dest: create_parse_Inl [unfolded refusal_def] split: sum.splits if_splits)

lemma create_outcome:
  assumes "healthy w" "wire_range (clock w 1)" "wire_range (time_Add (clock w 1) requestTTL)"
    and "entropy w 0 = Some bs" "length bs = 16" "run (createRequest ed SQLite r) w = (Some resp, w')"
  shows "resp = fst (spec_create ed r bs (clock w 0) (clock w 1) (db_view w))"
    "db_view w' = snd (spec_create ed r bs (clock w 0) (clock w 1) (db_view w))" "healthy w'"
  using pair_sq.create_refines [OF assms(1-5), of ed r] assms(6) by auto

lemma stored_new_eq:
  "stored_new rid t h target = \<lparr>RequestID = rid, Status = StatusPending, CreatedAt = truncSec t,
     ExpiresAt = truncSec (time_Add t (24 * Hour)), ReqPathID = [], RequesterJSON = serializeHalf h,
     OwnerJSON = [], TargetNexusID = target\<rparr>"
  by (simp add: stored_new_def new_request_def requestTTL_def)

text \<open>
  C11. A pairing request is accepted exactly when it validates, its timestamp is in the
  replay window, its half is signed by its own key and the minted id is new; then the
  store gains exactly one request, pending, expiring a day later, and otherwise the
  answer is an error and the store is unchanged.
\<close>

theorem create_correct:
  assumes "healthy w" "wire_range (clock w 1)" "wire_range (time_Add (clock w 1) requestTTL)"
    and "entropy w 0 = Some bs" "length bs = 16" "run (createRequest ed SQLite r) w = (Some resp, w')"
  shows "(status resp = 201 \<longleftrightarrow> (\<exists>target h. create_parse r = Inr (target, h) \<and> pf_tsInWindow (HalfTs h) (clock w 0)
        \<and> verifySelfSig ed h \<and> find_req (db_view w) (uuid_of_bytes bs) = None))
    \<and> (if status resp = 201
       then \<exists>target h. create_parse r = Inr (target, h)
          \<and> db_view w' = (db_view w)\<lparr>sreqs := sreqs (db_view w) @ [\<lparr>RequestID = uuid_of_bytes bs, Status = StatusPending,
                CreatedAt = truncSec (clock w 1), ExpiresAt = truncSec (time_Add (clock w 1) (24 * Hour)), ReqPathID = [],
                RequesterJSON = serializeHalf h, OwnerJSON = [], TargetNexusID = target\<rparr>]\<rparr>
       else refusal resp \<and> db_view w' = db_view w)"
proof (cases "create_checks ed r (clock w 0)")
  case (Inl e)
  have "\<not> (create_parse r = Inr (target, h) \<and> pf_tsInWindow (HalfTs h) (clock w 0) \<and> verifySelfSig ed h)" for target h
    using Inl by (auto simp: create_checks_def)
  moreover have "resp = e" "db_view w' = db_view w"
    using create_outcome(1,2) [OF assms] Inl by (simp_all add: spec_create_def)
  ultimately show ?thesis using create_checks_Inl [OF Inl] by (auto simp: refusal_def)
next
  case (Inr i)
  obtain target h where i: "i = (target, h)" by (cases i)
  have "create_parse r = Inr (target, h)" "pf_tsInWindow (HalfTs h) (clock w 0)" "verifySelfSig ed h"
    using Inr i by (auto simp: create_checks_def split: sum.splits if_splits prod.splits)
  then show ?thesis
    using create_outcome(1,2) [OF assms] Inr i
    by (auto simp: spec_create_def Let_def refusal_def created_response_def stored_new_eq split: if_splits)
qed

text \<open>What \<open>parseHalf\<close> lets through.\<close>

lemma parseHalf_Inr:
  assumes "parseHalf h = Inr p"
  obtains pub where "p = h\<lparr>pubkeyRaw := pub\<rparr>" "pf_decodeB64URL (Pubkey h) = Some pub" "length pub = PublicKeySize"
    "HalfSigAlg h = ''ed25519''" "NexusID h \<noteq> []" "Pubkey h \<noteq> []" "HalfDhAlg h = [] \<longleftrightarrow> DhPubkey h = []"
proof -
  obtain pub where pub: "pf_decodeB64URL (Pubkey h) = Some pub"
    using assms by (auto simp: parseHalf_def split: if_splits option.splits)
  have "length pub = PublicKeySize" "p = h\<lparr>pubkeyRaw := pub\<rparr>" "HalfDhAlg h = [] \<longleftrightarrow> DhPubkey h = []"
    "HalfSigAlg h = ''ed25519''" "NexusID h \<noteq> []" "Pubkey h \<noteq> []"
    using assms pub by (auto simp: parseHalf_def split: if_splits)
  then show ?thesis using pub that by blast
qed

lemma stored_requester_roundtrip:
  assumes "parseHalf h0 = Inr h" "utf8_half h" "RequesterJSON q = serializeHalf h"
  shows "stored_requester q = Some h"
proof -
  obtain pub where "h = h0\<lparr>pubkeyRaw := pub\<rparr>" "pf_decodeB64URL (Pubkey h0) = Some pub"
    using assms(1) by (rule parseHalf_Inr)
  then show ?thesis using unmarshal_serializeHalf [OF assms(2)] assms(3)
    by (simp add: stored_requester_def)
qed


section \<open>Approving\<close>

lemma approve_outcome:
  assumes "healthy w" "wire_range (clock w 1)" "run (approve ed SQLite r rid) w = (Some resp, w')"
  shows "resp = fst (spec_approve ed r rid (clock w 0) (clock w 1) (db_view w))"
    "db_view w' = snd (spec_approve ed r rid (clock w 0) (clock w 1) (db_view w))" "healthy w'"
  using pair_sq.approve_refines [OF assms(1,2), of ed r rid] assms(3) by auto

lemma find_req_update:
  assumes "find_req s rid = Some q" "Status q = StatusPending"
  shows "fst (spec_UpdateStatus rid to own pid s) = None"
    "find_req (snd (spec_UpdateStatus rid to own pid s)) rid
      = Some (q\<lparr>Status := to, OwnerJSON := keep_or own (OwnerJSON q), ReqPathID := keep_or pid (ReqPathID q)\<rparr>)"
    "sprs (snd (spec_UpdateStatus rid to own pid s)) = sprs s"
    "senvs (snd (spec_UpdateStatus rid to own pid s)) = senvs s"
proof -
  have "find (\<lambda>r. RequestID r = rid) (map (\<lambda>r. if RequestID r = rid
      then r\<lparr>Status := to, OwnerJSON := keep_or own (OwnerJSON r), ReqPathID := keep_or pid (ReqPathID r)\<rparr> else r) (sreqs s))
    = Some (q\<lparr>Status := to, OwnerJSON := keep_or own (OwnerJSON q), ReqPathID := keep_or pid (ReqPathID q)\<rparr>)"
    using assms(1) find_Some_mem [OF assms(1) [unfolded find_req_def]]
    by (subst find_map_same_key) (auto simp: find_req_def)
  then show "find_req (snd (spec_UpdateStatus rid to own pid s)) rid
      = Some (q\<lparr>Status := to, OwnerJSON := keep_or own (OwnerJSON q), ReqPathID := keep_or pid (ReqPathID q)\<rparr>)"
    using assms by (simp add: spec_UpdateStatus_def) (simp add: find_req_def)
qed (use assms in \<open>simp_all add: spec_UpdateStatus_def\<close>)

lemma find_pair_insert:
  assumes "find_pair s (PairPathID p) = None"
  shows "find_pair (snd (spec_InsertPair p s)) (PairPathID p) = Some (p\<lparr>ActivatedAt := truncSec (ActivatedAt p)\<rparr>)"
    "sreqs (snd (spec_InsertPair p s)) = sreqs s"
proof -
  show "sreqs (snd (spec_InsertPair p s)) = sreqs s" by (simp add: spec_InsertPair_def)
  have "PairPathID p \<notin> set (map PairPathID (sprs s))"
    using assms find_key_None [of PairPathID "PairPathID p" "sprs s"] by (simp add: find_pair_def)
  then show "find_pair (snd (spec_InsertPair p s)) (PairPathID p) = Some (p\<lparr>ActivatedAt := truncSec (ActivatedAt p)\<rparr>)"
    using assms by (simp add: spec_InsertPair_def) (simp add: find_pair_def find_snoc_key)
qed

text \<open>The owner's half a pending request was approved with, and its checks.\<close>

definition approvable :: "ed_verify \<Rightarrow> request \<Rightarrow> string \<Rightarrow> time \<Rightarrow> pair_request \<Rightarrow> string \<Rightarrow> half \<Rightarrow> half \<Rightarrow> bool" where
  "approvable ed r rid t req raw requester owner \<longleftrightarrow>
     (\<exists>h. approve_input r rid = Inr (raw, h) \<and> parseHalf h = Inr owner) \<and> stored_requester req = Some requester
     \<and> HalfSigAlg owner = HalfSigAlg requester \<and> pf_tsInWindow (HalfTs owner) t \<and> verifySelfSig ed owner"

lemma approve_input_Inl: "approve_input r rid = Inl resp \<Longrightarrow> refusal resp"
  by (auto simp: approve_input_def refusal_def split: option.splits if_splits)

lemma spec_approve_pending:
  assumes "find_req s rid = Some req" "Status req = StatusPending"
  obtains (active) raw requester owner where "approvable ed r rid t req raw requester owner"
      "spec_approve ed r rid t t' s = spec_activate raw rid requester owner t' s"
  | (refused) resp where "refusal resp" "spec_approve ed r rid t t' s = (resp, s)"
proof (cases "approve_input r rid")
  case (Inl resp)
  then show ?thesis using approve_input_Inl [OF Inl] by (intro refused [of resp]) (simp_all add: spec_approve_def)
next
  case (Inr i)
  obtain raw h where i: "i = (raw, h)" by (cases i)
  show ?thesis
  proof (cases "\<exists>requester owner. stored_requester req = Some requester \<and> parseHalf h = Inr owner
      \<and> HalfSigAlg owner = HalfSigAlg requester \<and> pf_tsInWindow (HalfTs owner) t \<and> verifySelfSig ed owner")
    case True
    then show ?thesis using Inr i assms
      by (elim exE conjE) (rule active [of raw], auto simp: approvable_def spec_approve_def spec_pending_def)
  next
    case False
    then have "\<exists>resp. refusal resp \<and> spec_approve ed r rid t t' s = (resp, s)"
      using Inr i assms
      by (auto simp: spec_approve_def spec_pending_def refusal_def split: option.splits sum.splits)
    then show ?thesis using refused by blast
  qed
qed

lemma spec_activate_pending:
  assumes "find_req s rid = Some req" "Status req = StatusPending"
  shows "find_pair s (path_of requester owner) = None \<Longrightarrow>
      fst (spec_activate raw rid requester owner t' s) = approved_response rid (path_of requester owner) (halfToWire requester)
      \<and> find_pair (snd (spec_activate raw rid requester owner t' s)) (path_of requester owner)
          = Some (new_pair (path_of requester owner) requester owner (truncSec t'))
      \<and> find_req (snd (spec_activate raw rid requester owner t' s)) rid
          = Some (req\<lparr>Status := StatusApproved, OwnerJSON := keep_or (serializeHalf owner) (OwnerJSON req),
              ReqPathID := keep_or (path_of requester owner) (ReqPathID req)\<rparr>)"
proof -
  let ?pid = "path_of requester owner" and ?p = "new_pair (path_of requester owner) requester owner t'"
  assume n: "find_pair s ?pid = None"
  have k: "PairPathID ?p = ?pid" "?p\<lparr>ActivatedAt := truncSec (ActivatedAt ?p)\<rparr> = new_pair ?pid requester owner (truncSec t')"
    by (simp_all add: new_pair_def)
  let ?s = "snd (spec_InsertPair ?p s)"
  note ip = find_pair_insert [of s ?p, unfolded k, OF n]
  have q: "find_req ?s rid = Some req" using assms(1) ip(2) by (simp add: find_req_def)
  note up = find_req_update [OF q assms(2), of StatusApproved "serializeHalf owner" ?pid]
  have "spec_activate raw rid requester owner t' s
      = (approved_response rid ?pid (halfToWire requester), snd (spec_UpdateStatus rid StatusApproved (serializeHalf owner) ?pid ?s))"
    using n up(1) by (simp add: spec_activate_def Let_def split_beta)
  then show ?thesis using up ip(1) by (simp add: find_pair_def)
qed


lemma path_of_not_Nil: "path_of a b \<noteq> []"
  by (simp add: path_of_def computePathID_def Let_def split: prod.splits)

lemma path_of_pathID: "pathIDRegex (path_of a b)"
  by (simp add: path_of_def computePathID_pathID)

lemma status_approved [simp]: "status (approved_response rid pid h) = 200"
  by (simp add: approved_response_def)

definition same_keys :: "pair \<Rightarrow> half \<Rightarrow> half \<Rightarrow> bool" where
  "same_keys p requester owner \<longleftrightarrow> RequesterPubkey p = Pubkey requester \<and> OwnerPubkey p = Pubkey owner"

definition activated :: "string \<Rightarrow> half \<Rightarrow> half \<Rightarrow> response \<Rightarrow> store_state \<Rightarrow> bool" where
  "activated rid requester owner resp s \<longleftrightarrow>
     (\<exists>p q. find_pair s (path_of requester owner) = Some p \<and> same_keys p requester owner
        \<and> find_req s rid = Some q \<and> Status q = StatusApproved \<and> ReqPathID q = path_of requester owner)
     \<and> resp = approved_response rid (path_of requester owner) (halfToWire requester)"

lemma spec_activate_cases:
  assumes "find_req s rid = Some req" "Status req = StatusPending"
  shows "(case spec_activate raw rid requester owner t' s of (resp, s') \<Rightarrow>
      activated rid requester owner resp s' \<or> refusal resp \<and> s' = s)"
proof (cases "find_pair s (path_of requester owner)")
  case None
  then show ?thesis using spec_activate_pending [OF assms None, of raw t']
    by (auto simp: activated_def same_keys_def new_pair_def keep_or_def path_of_not_Nil split_beta)
next
  case (Some ex)
  show ?thesis
  proof (cases "same_keys ex requester owner")
    case True
    then show ?thesis using Some find_req_update [OF assms, of StatusApproved raw "path_of requester owner"]
      by (auto simp: spec_activate_def Let_def activated_def same_keys_def keep_or_def path_of_not_Nil find_pair_def)
  next
    case False
    then show ?thesis using Some by (auto simp: spec_activate_def Let_def same_keys_def refusal_def)
  qed
qed


text \<open>
  C23. A decided request is frozen: approving it again changes nothing, and is answered
  200 only for an approved request and an owner half signed by the very key of its
  active pair.
\<close>

theorem approve_decided_frozen:
  assumes "healthy w" "wire_range (clock w 1)" "run (approve ed SQLite r rid) w = (Some resp, w')"
    and "find_req (db_view w) rid = Some req" "Status req \<noteq> StatusPending"
  shows "db_view w' = db_view w \<and> (status resp = 200 \<longrightarrow>
    Status req = StatusApproved \<and> (\<exists>raw h owner p. approve_input r rid = Inr (raw, h) \<and> parseHalf h = Inr owner
      \<and> verifySelfSig ed owner \<and> find_pair (db_view w) (ReqPathID req) = Some p \<and> OwnerPubkey p = Pubkey owner))"
proof (cases "approve_input r rid")
  case (Inl e)
  then show ?thesis using approve_outcome [OF assms(1-3)] approve_input_Inl [OF Inl]
    by (auto simp: spec_approve_def refusal_def)
next
  case (Inr i)
  obtain raw h where "i = (raw, h)" by (cases i)
  then show ?thesis using approve_outcome [OF assms(1-3)] Inr assms(4,5)
    by (auto simp: spec_approve_def spec_decided_def not_pending_response_def split: sum.splits option.splits if_splits)
qed

section \<open>Denying\<close>

lemma deny_outcome:
  assumes "healthy w" "run (deny SQLite rid) w = (Some resp, w')"
  shows "resp = fst (spec_deny rid (db_view w))" "db_view w' = snd (spec_deny rid (db_view w))" "healthy w'"
  using pair_sq.deny_refines [OF assms(1), of rid] assms(2) by auto


section \<open>A race and a misplaced body\<close>



lemma unmarshalHalf_owner_only:
  assumes "json_parse raw = Some (JObj [(''owner'', v)])"
  shows "unmarshalHalf raw = Some (half_of_fields no_fields)"
proof -
  have "match_field half_fields ''owner'' = None" by code_simp
  then show ?thesis using assms by (simp add: unmarshalHalf_def unmarshal_strings_def)
qed

lemma status_outcome:
  assumes "healthy w" "run (getRequestStatus SQLite rid) w = (Some resp, w')"
  shows "resp = spec_status rid (db_view w)" "db_view w' = db_view w"
  using pair_sq.status_refines [OF assms(1), of rid] assms(2) by auto

text \<open>
  When the pair already exists with the same keys, approval stores the whole
  request body where the owner's half belongs; the requester who polls then gets an
  owner half whose fields are all empty.
\<close>

theorem reapproval_hides_owner:
  assumes "healthy w" "wire_range (clock w 0)" "find_req (db_view w) rid = Some req" "Status req = StatusPending"
    and "find_pair (db_view w) (path_of requester owner) = Some p" "same_keys p requester owner"
    and "json_parse raw = Some (JObj [(''owner'', v)])" "raw \<noteq> []" "uuidRegex rid"
    and "run (approve_activate SQLite raw rid requester owner) w = (Some resp, w1)"
    and "run (getRequestStatus SQLite rid) w1 = (Some resp2, w2)"
  shows "status resp = 200 \<and> (\<exists>ms. payload resp2 = Json (JObj ms)
    \<and> map_of ms ''owner_half'' = Some (halfToWire (half_of_fields no_fields)))"
proof -
  let ?pid = "path_of requester owner"
  have out: "resp = fst (spec_activate raw rid requester owner (clock w 0) (db_view w))"
    "db_view w1 = snd (spec_activate raw rid requester owner (clock w 0) (db_view w))" "healthy w1"
    using pair_sq.activate_refines [OF assms(1,2), of raw rid requester owner] assms(10) by auto
  have a: "spec_activate raw rid requester owner (clock w 0) (db_view w)
      = (approved_response rid ?pid (halfToWire requester), snd (spec_UpdateStatus rid StatusApproved raw ?pid (db_view w)))"
    using assms(5,6) by (simp add: spec_activate_def Let_def same_keys_def)
  have q: "find_req (db_view w1) rid = Some (req\<lparr>Status := StatusApproved, OwnerJSON := raw, ReqPathID := ?pid\<rparr>)"
    using find_req_update(2) [OF assms(3,4), of StatusApproved raw ?pid] a out(2) assms(8)
    by (simp add: keep_or_def path_of_not_Nil)
  have "resp2 = status_response (req\<lparr>Status := StatusApproved, OwnerJSON := raw, ReqPathID := ?pid\<rparr>)"
    using status_outcome(1) [OF out(3) assms(11)] q assms(9) by (simp add: spec_status_def)
  then show ?thesis
    using out(1) a unmarshalHalf_owner_only [OF assms(7)] assms(8) by (simp add: status_response_def)
qed

section \<open>End to end\<close>


end
