(* ===== verification/PairflowDemo.thy ===== *)
theory PairflowDemo
  imports PairflowProps
begin

text \<open>
  The pair-flow properties on concrete inputs: the halves of two parties, the bodies
  they send, and worlds with a pending, a denied and an already paired request, under
  the toy signature scheme of the mailbox example.
\<close>

section \<open>The example\<close>

definition half_A :: half where
  "half_A = \<lparr>NexusID = ''alpha'', HalfSigAlg = ''ed25519'', Pubkey = key_A, HalfDhAlg = [], DhPubkey = [], Endpoint = [],
     Nonce = ''n'', HalfTs = ''2026-06-15T12:00:00Z'', SelfSig = sig_A, pubkeyRaw = replicate 32 0\<rparr>"

definition half_B :: half where
  "half_B = \<lparr>NexusID = ''beta'', HalfSigAlg = ''ed25519'', Pubkey = key_B, HalfDhAlg = [], DhPubkey = [], Endpoint = [],
     Nonce = ''n'', HalfTs = ''2026-06-15T12:00:00Z'', SelfSig = sig_B,
     pubkeyRaw = concat (replicate 10 [4, 16, 65]) @ [4, 16]\<rparr>"

definition create_body :: string where
  "create_body = ''{'' @ quote False ''target_nexus_id'' @ '':'' @ quote False ''beta'' @ '','' @ quote False ''requester''
     @ '':'' @ serializeHalf half_A @ ''}''"

definition approve_body :: string where
  "approve_body = ''{'' @ quote False ''owner'' @ '':'' @ serializeHalf half_B @ ''}''"

definition demo_request :: "string \<Rightarrow> string \<Rightarrow> request" where
  "demo_request p b = \<lparr>meth = ''POST'', path = p, rawQuery = [], hdr = no_header, body = b, bodyBroken = False, RemoteAddr = []\<rparr>"

definition demo_rid :: string where "demo_rid = uuid_of_bytes (replicate 16 0)"

definition demo_req :: "string \<Rightarrow> pair_request" where
  "demo_req st = \<lparr>RequestID = demo_rid, Status = st, CreatedAt = 0, ExpiresAt = 0, ReqPathID = [],
     RequesterJSON = serializeHalf half_A, OwnerJSON = [], TargetNexusID = ''beta''\<rparr>"

definition demo_active :: pair where
  "demo_active = new_pair (path_of half_A half_B) half_A half_B 0"

definition pf_world :: "pair_request list \<Rightarrow> pair list \<Rightarrow> world" where
  "pf_world qs ps = demo_world\<lparr>wdb := \<lparr>envelopes = [], pair_requests = map req_to_row qs, pairs = map pair_to_row ps\<rparr>,
     entropy := \<lambda>_. Some (replicate 16 0)\<rparr>"

section \<open>Its evaluation\<close>

lemma lex_create: "case unmarshalNested create_fields ''requester'' create_body of
    Some (env, h) \<Rightarrow> env ''target_nexus_id'' = ''beta'' \<and> h = half_A\<lparr>pubkeyRaw := []\<rparr> | None \<Rightarrow> False"
  by code_simp

lemma lex_approve: "case unmarshalNested [] ''owner'' approve_body of Some (_, h) \<Rightarrow> h = half_B\<lparr>pubkeyRaw := []\<rparr> | None \<Rightarrow> False"
  by code_simp

lemma parse_approve: "case json_parse approve_body of Some (JObj [(k, v)]) \<Rightarrow> k = ''owner'' | _ \<Rightarrow> False"
  by code_simp

lemma parse_halves: "parseHalf (half_A\<lparr>pubkeyRaw := []\<rparr>) = Inr half_A" "parseHalf (half_B\<lparr>pubkeyRaw := []\<rparr>) = Inr half_B"
  by code_simp+

lemma demo_bodies: "length create_body \<le> 1000" "length approve_body \<le> 1000"
  by code_simp+

lemma verify_halves: "verifySelfSig toy_ed half_A" "verifySelfSig toy_ed half_B"
  by code_simp+

lemma demo_fresh_ts: "pf_tsInWindow ''2026-06-15T12:00:00Z'' demo_now"
  by code_simp

lemma demo_create: "create_parse (demo_request p create_body) = Inr (''beta'', half_A)"
proof -
  have "readLimited maxBodySize (demo_request p create_body) = Some create_body"
    using demo_bodies by (simp add: readLimited_def demo_request_def maxBodySize_def)
  moreover obtain env where "unmarshalNested create_fields ''requester'' create_body = Some (env, half_A\<lparr>pubkeyRaw := []\<rparr>)"
    "env ''target_nexus_id'' = ''beta''"
    using lex_create by (auto split: option.splits)
  ultimately show ?thesis by (simp add: create_parse_def parse_halves)
qed

lemma demo_rid: "uuidRegex demo_rid"
  by (simp add: demo_rid_def uuid_regex)

lemma demo_approve: "approve_input (demo_request p approve_body) demo_rid = Inr (approve_body, half_B\<lparr>pubkeyRaw := []\<rparr>)"
proof -
  have "readLimited maxBodySize (demo_request p approve_body) = Some approve_body"
    using demo_bodies by (simp add: readLimited_def demo_request_def maxBodySize_def)
  moreover obtain env where "unmarshalNested [] ''owner'' approve_body = Some (env, half_B\<lparr>pubkeyRaw := []\<rparr>)"
    using lex_approve by (auto split: option.splits)
  ultimately show ?thesis by (simp add: approve_input_def demo_rid)
qed

lemma demo_utf8: "utf8_half half_A" "utf8_half half_B"
proof -
  have "list_all ascii [NexusID h, HalfSigAlg h, Pubkey h, HalfDhAlg h, DhPubkey h, Endpoint h, Nonce h, HalfTs h, SelfSig h]
      \<Longrightarrow> utf8_half h" for h
    by (simp add: utf8_half_def ascii_utf8 del: valid_utf8.simps)
  moreover have "list_all ascii [NexusID half_A, HalfSigAlg half_A, Pubkey half_A, HalfDhAlg half_A, DhPubkey half_A,
      Endpoint half_A, Nonce half_A, HalfTs half_A, SelfSig half_A]"
    "list_all ascii [NexusID half_B, HalfSigAlg half_B, Pubkey half_B, HalfDhAlg half_B, DhPubkey half_B,
      Endpoint half_B, Nonce half_B, HalfTs half_B, SelfSig half_B]"
    by code_simp+
  ultimately show "utf8_half half_A" "utf8_half half_B" by blast+
qed

text \<open>The worlds.\<close>

lemma zero_range: "wire_range 0"
  by (simp add: wire_range_def)

lemma pf_healthy: "set qs \<subseteq> {demo_req st} \<Longrightarrow> length qs \<le> 1 \<Longrightarrow> set ps \<subseteq> {demo_active} \<Longrightarrow> length ps \<le> 1 \<Longrightarrow> healthy (pf_world qs ps)"
  using demo_healthy zero_range
  by (cases qs; cases ps)
    (auto simp: healthy_def pf_world_def unique_keys_def times_ok_def demo_world_def req_to_row_def pair_to_row_def
      demo_req_def demo_active_def new_pair_def)

lemma pf_clock: "clock (pf_world qs ps) n = demo_now" "entropy (pf_world qs ps) n = Some (replicate 16 0)"
  by (simp_all add: pf_world_def demo_world_def)

lemma demo_ranges: "wire_range demo_now" "wire_range (time_Add demo_now requestTTL)"
  by (simp_all add: demo_range wire_range_def demo_now_def time_Add_def requestTTL_def duration_defs)

lemma trunc0: "truncSec 0 = 0"
  by (simp add: truncSec_def)

lemma pf_view:
  "db_view (pf_world [demo_req st] ps) = \<lparr>senvs = [], sreqs = [demo_req st], sprs = map (\<lambda>p. p\<lparr>ActivatedAt := truncSec (ActivatedAt p)\<rparr>) ps\<rparr>"
  if "\<forall>p \<in> set ps. wire_range (ActivatedAt p)"
  using that zero_range trunc0 by (simp add: db_view_def pf_world_def demo_req_def)

lemma pf_view_empty: "db_view (pf_world [] []) = \<lparr>senvs = [], sreqs = [], sprs = []\<rparr>"
  by (simp add: db_view_def pf_world_def)

lemma pf_find:
  "find_req (db_view (pf_world [demo_req st] [])) demo_rid = Some (demo_req st)"
  "find_req (db_view (pf_world [demo_req st] [demo_active])) demo_rid = Some (demo_req st)"
  "find_pair (db_view (pf_world [demo_req st] [])) pid = None"
  "find_pair (db_view (pf_world [demo_req st] [demo_active])) (path_of half_A half_B) = Some demo_active"
  using zero_range trunc0
  by (simp_all add: pf_view find_req_def find_pair_def demo_active_def new_pair_def) (simp_all add: demo_req_def)

lemma clock_of_run: "\<exists>k. \<forall>n. clock (snd (run p w)) n = clock w (n + k)"
proof (induction p arbitrary: w)
  case (Exec s k)
  have "clock (snd (exec_world s w)) = clock w"
    by (auto simp: exec_world_def split_beta Let_def split: list.splits option.splits)
  then show ?case using Exec [OF rangeI, of "fst (exec_world s w)" "snd (exec_world s w)"] by (simp add: split_beta Let_def)
next
  case (Now k)
  obtain j where "\<forall>n. clock (snd (run (k (clock w 0)) (w\<lparr>clock := \<lambda>n. clock w (Suc n)\<rparr>))) n = clock w (Suc (n + j))"
    using Now [OF rangeI, of "clock w 0" "w\<lparr>clock := \<lambda>n. clock w (Suc n)\<rparr>"] by auto
  then show ?case by (intro exI [of _ "Suc j"]) simp
next
  case (Rand k)
  show ?case using Rand [OF rangeI, of "entropy w 0" "w\<lparr>entropy := \<lambda>n. entropy w (Suc n)\<rparr>"] by simp
qed (auto intro: exI [of _ 0])

section \<open>The witnesses\<close>

abbreviation create_req :: request where "create_req \<equiv> demo_request ''/pair/request'' create_body"
abbreviation approve_req :: request where "approve_req \<equiv> demo_request ''/pair/requests/x/approve'' approve_body"

lemma demo_created:
  obtains w1 where "run (createRequest toy_ed SQLite create_req) (pf_world [] []) = (Some (created_response demo_rid demo_now), w1)"
    "db_view w1 = \<lparr>senvs = [], sreqs = [stored_new demo_rid demo_now half_A ''beta''], sprs = []\<rparr>" "healthy w1"
    "\<And>n. clock w1 n = demo_now"
proof -
  have h: "healthy (pf_world [] [])" by (rule pf_healthy) auto
  have s: "spec_create toy_ed create_req (replicate 16 0) demo_now demo_now (db_view (pf_world [] []))
      = (created_response demo_rid demo_now, \<lparr>senvs = [], sreqs = [stored_new demo_rid demo_now half_A ''beta''], sprs = []\<rparr>)"
    using demo_fresh_ts verify_halves
    by (simp add: spec_create_def create_checks_def demo_create pf_view_empty find_req_def demo_rid_def [symmetric] half_A_def [THEN arg_cong [where f = HalfTs]])
  obtain w1 where w1: "run (createRequest toy_ed SQLite create_req) (pf_world [] []) = (Some (created_response demo_rid demo_now), w1)"
    "db_view w1 = \<lparr>senvs = [], sreqs = [stored_new demo_rid demo_now half_A ''beta''], sprs = []\<rparr>" "healthy w1"
    using pair_sq.create_refines [OF h, of "replicate 16 0" toy_ed create_req] demo_ranges s by (auto simp: pf_clock)
  moreover have "clock w1 n = demo_now" for n
    using clock_of_run [of "createRequest toy_ed SQLite create_req" "pf_world [] []"] w1(1) by (auto simp: pf_clock)
  ultimately show ?thesis using that by blast
qed

theorem create_correct_witness:
  "\<exists>resp w'. run (createRequest toy_ed SQLite create_req) (pf_world [] []) = (Some resp, w') \<and> status resp = 201
     \<and> (\<exists>target h. create_parse create_req = Inr (target, h) \<and> verifySelfSig toy_ed h)"
proof -
  obtain w1 where w1: "run (createRequest toy_ed SQLite create_req) (pf_world [] []) = (Some (created_response demo_rid demo_now), w1)"
    by (rule demo_created)
  have h: "healthy (pf_world [] [])" by (rule pf_healthy) auto
  show ?thesis using create_correct [OF h _ _ _ _ w1, of "replicate 16 0"] w1 demo_ranges
    by (auto simp: pf_clock created_response_def)
qed

lemma demo_approved:
  obtains resp w1 where "run (approve toy_ed SQLite approve_req demo_rid) (pf_world [demo_req StatusPending] []) = (Some resp, w1)"
    "status resp = 200" "healthy (pf_world [demo_req StatusPending] [])"
proof -
  let ?w = "pf_world [demo_req StatusPending] []"
  have h: "healthy ?w" by (rule pf_healthy) auto
  obtain w1 where w1: "run (approve toy_ed SQLite approve_req demo_rid) ?w
      = (Some (fst (spec_approve toy_ed approve_req demo_rid demo_now demo_now (db_view ?w))), w1)"
    using pair_sq.approve_refines [OF h, of toy_ed approve_req demo_rid] demo_ranges by (auto simp: pf_clock)
  have p: "Status (demo_req StatusPending) = StatusPending" "RequesterJSON (demo_req StatusPending) = serializeHalf half_A"
    by (simp_all add: demo_req_def)
  have "stored_requester (demo_req StatusPending) = Some half_A"
    by (rule stored_requester_roundtrip [OF parse_halves(1) demo_utf8(1) p(2)])
  then have "spec_approve toy_ed approve_req demo_rid demo_now demo_now (db_view ?w)
      = spec_activate approve_body demo_rid half_A half_B demo_now (db_view ?w)"
    using demo_fresh_ts verify_halves p pf_find(1) [of StatusPending] parse_halves
    by (simp add: spec_approve_def demo_approve spec_pending_def half_A_def half_B_def)
  then have "fst (spec_approve toy_ed approve_req demo_rid demo_now demo_now (db_view ?w))
      = approved_response demo_rid (path_of half_A half_B) (halfToWire half_A)"
    using spec_activate_pending [OF pf_find(1) p(1) pf_find(3), where requester = half_A and owner = half_B and raw = approve_body and t' = demo_now] by simp
  then show ?thesis using that w1 h by simp
qed


theorem approve_decided_frozen_witness:
  "\<exists>resp w'. run (approve toy_ed SQLite approve_req demo_rid) (pf_world [demo_req StatusDenied] []) = (Some resp, w')
     \<and> db_view w' = db_view (pf_world [demo_req StatusDenied] []) \<and> status resp \<noteq> 200"
proof -
  have h: "healthy (pf_world [demo_req StatusDenied] [])" by (rule pf_healthy) auto
  obtain resp w' where r: "run (approve toy_ed SQLite approve_req demo_rid) (pf_world [demo_req StatusDenied] []) = (Some resp, w')"
    using pair_sq.approve_refines [OF h, of toy_ed approve_req demo_rid] demo_ranges by (auto simp: pf_clock)
  have "Status (demo_req StatusDenied) \<noteq> StatusPending" "Status (demo_req StatusDenied) \<noteq> StatusApproved"
    by (simp_all add: demo_req_def status_defs)
  with approve_decided_frozen [OF h _ r pf_find(1)] r demo_ranges show ?thesis by (auto simp: pf_clock)
qed



theorem reapproval_hides_owner_witness:
  "\<exists>resp2 w1 w2 ms. run (getRequestStatus SQLite demo_rid) w1 = (Some resp2, w2) \<and> payload resp2 = Json (JObj ms)
     \<and> map_of ms ''owner_half'' = Some (halfToWire (half_of_fields no_fields))"
proof -
  let ?w = "pf_world [demo_req StatusPending] [demo_active]"
  have h: "healthy ?w" by (rule pf_healthy) auto
  have c: "wire_range (clock ?w 0)" using demo_ranges by (simp add: pf_clock)
  obtain resp w1 where r: "run (approve_activate SQLite approve_body demo_rid half_A half_B) ?w = (Some resp, w1)" "healthy w1"
    using pair_sq.activate_refines [OF h c, of approve_body demo_rid half_A half_B] by auto
  obtain resp2 w2 where r2: "run (getRequestStatus SQLite demo_rid) w1 = (Some resp2, w2)"
    using pair_sq.status_refines [OF r(2), of demo_rid] by auto
  obtain v where v: "json_parse approve_body = Some (JObj [(''owner'', v)])"
    using parse_approve by (auto split: option.splits json.splits list.splits)
  have p: "Status (demo_req StatusPending) = StatusPending" by (simp add: demo_req_def)
  have k: "same_keys demo_active half_A half_B" by (simp add: same_keys_def demo_active_def new_pair_def)
  have n: "approve_body \<noteq> []" by (simp add: approve_body_def)
  from reapproval_hides_owner [OF h c pf_find(2) p pf_find(4) k v n demo_rid r(1) r2] r2 show ?thesis by blast
qed

lemma demo_paired:
  assumes "db_view w1 = \<lparr>senvs = [], sreqs = [stored_new demo_rid demo_now half_A ''beta''], sprs = []\<rparr>" "healthy w1"
    and c: "\<And>n. clock w1 n = demo_now"
  obtains resp w2 where "run (approve toy_ed SQLite approve_req demo_rid) w1 = (Some resp, w2)" "status resp = 200" "healthy w2"
proof -
  let ?q = "stored_new demo_rid demo_now half_A ''beta''"
  have q: "find_req (db_view w1) demo_rid = Some ?q" "Status ?q = StatusPending" "RequesterJSON ?q = serializeHalf half_A"
    "find_pair (db_view w1) (path_of half_A half_B) = None"
    using assms(1) by (simp_all add: find_req_def find_pair_def stored_new_def new_request_def)
  have sr: "stored_requester ?q = Some half_A"
    by (rule stored_requester_roundtrip [OF parse_halves(1) demo_utf8(1) q(3)])
  have "spec_approve toy_ed approve_req demo_rid demo_now demo_now (db_view w1)
      = spec_activate approve_body demo_rid half_A half_B demo_now (db_view w1)"
    using demo_fresh_ts verify_halves q sr parse_halves
    by (simp add: spec_approve_def demo_approve spec_pending_def half_A_def half_B_def)
  then have "fst (spec_approve toy_ed approve_req demo_rid demo_now demo_now (db_view w1))
      = approved_response demo_rid (path_of half_A half_B) (halfToWire half_A)"
    using spec_activate_pending [OF q(1,2,4), where raw = approve_body and t' = demo_now] by simp
  then show ?thesis
    using that pair_sq.approve_refines [OF assms(2), of toy_ed approve_req demo_rid] demo_ranges by (auto simp: c)
qed


end
