(* ===== verification/Net.thy ===== *)
theory Net
  imports Http
begin

text \<open>
  Two pieces of Go's network packages the servers use: \<open>net.SplitHostPort\<close>, and the
  routing of \<open>http.ServeMux\<close> for patterns without methods, hosts or wildcards.
\<close>

section \<open>SplitHostPort\<close>

text \<open>The index of the last occurrence of a byte.\<close>

fun LastIndexByte :: "string \<Rightarrow> char \<Rightarrow> nat option" where
  "LastIndexByte [] d = None"
| "LastIndexByte (c # cs) d =
     (case LastIndexByte cs d of Some i \<Rightarrow> Some (Suc i) | None \<Rightarrow> if c = d then Some 0 else None)"

text \<open>The host and port of an address, or None for any of its errors.\<close>

definition SplitHostPort :: "string \<Rightarrow> (string \<times> string) option" where
  "SplitHostPort a =
     (case LastIndexByte a CHR '':'' of
        None \<Rightarrow> None
      | Some i \<Rightarrow>
          if a ! 0 = CHR ''['' then
            (case IndexByte a CHR '']'' of
               None \<Rightarrow> None
             | Some e \<Rightarrow>
                 if e + 1 \<noteq> i then None
                 else if CHR ''['' \<in> set (drop 1 a) \<or> CHR '']'' \<in> set (drop (e + 1) a) then None
                 else Some (drop 1 (take e a), drop (i + 1) a))
          else if CHR '':'' \<in> set (take i a) \<or> CHR ''['' \<in> set a \<or> CHR '']'' \<in> set a then None
          else Some (take i a, drop (i + 1) a))"

section \<open>ServeMux\<close>

text \<open>\<open>path.Clean\<close> of a rooted path, by its segments; the stack is reversed.\<close>

fun clean_segs :: "string list \<Rightarrow> string list \<Rightarrow> string list" where
  "clean_segs st [] = rev st"
| "clean_segs st (s # ss) =
     (if s = [] \<or> s = ''.'' then clean_segs st ss
      else if s = ''..'' then clean_segs (tl st) ss
      else clean_segs (s # st) ss)"

definition cleanPath :: "string \<Rightarrow> string" where
  "cleanPath p0 =
     (if p0 = [] then ''/''
      else let p = (if hd p0 = CHR ''/'' then p0 else CHR ''/'' # p0);
               np = CHR ''/'' # Join (clean_segs [] (Split CHR ''/'' (tl p))) ''/''
           in if last p = CHR ''/'' \<and> np \<noteq> ''/'' then np @ ''/'' else np)"

text \<open>\<open>url.PathUnescape\<close>; a bad escape leaves the segment as it is.\<close>

fun PathUnescape :: "string \<Rightarrow> string option" where
  "PathUnescape [] = Some []"
| "PathUnescape (c # cs) =
     (if c = CHR ''%'' then
        (case cs of a # b # r \<Rightarrow>
           (case (hex_val a, hex_val b) of
              (Some x, Some y) \<Rightarrow> map_option ((#) (char_of (16 * x + y))) (PathUnescape r)
            | _ \<Rightarrow> None)
         | _ \<Rightarrow> None)
      else map_option ((#) c) (PathUnescape cs))"

definition unescape_seg :: "string \<Rightarrow> string" where
  "unescape_seg s = (case PathUnescape s of None \<Rightarrow> s | Some t \<Rightarrow> t)"

definition segments :: "string \<Rightarrow> string list" where
  "segments p = map unescape_seg (Split CHR ''/'' (tl p))"

text \<open>
  A pattern is its segments; one that ends in a slash has an empty last segment and
  matches every path below it.  Of the patterns that match, an exact one wins, then
  the longest.
\<close>

definition pattern_matches :: "string list \<Rightarrow> string list \<Rightarrow> bool" where
  "pattern_matches pat segs \<longleftrightarrow>
     (if last pat = [] then length pat \<le> length segs \<and> take (length pat - 1) segs = butlast pat else pat = segs)"

definition preferred :: "(string list \<times> 'h) list \<Rightarrow> (string list \<times> 'h) option" where
  "preferred ms =
     (if ms = [] then None
      else case find (\<lambda>m. last (fst m) \<noteq> []) ms of
          Some m \<Rightarrow> Some m
        | None \<Rightarrow> Some (hd (sort_key (\<lambda>m. - int (length (fst m))) ms)))"

definition best_match :: "(string list \<times> 'h) list \<Rightarrow> string list \<Rightarrow> (string list \<times> 'h) option" where
  "best_match pats segs = preferred (filter (\<lambda>m. pattern_matches (fst m) segs) pats)"

text \<open>Whether the pattern that matches is the path itself rather than one above it.\<close>

definition exact_match :: "string list \<Rightarrow> string list \<Rightarrow> bool" where
  "exact_match pat segs \<longleftrightarrow> last pat \<noteq> [] \<or> last segs = [] \<and> length pat = length segs"

datatype 'h routed = Redirect string | Serve 'h | Unmatched

text \<open>
  \<open>esc\<close> is the request's escaped path, \<open>upath\<close> its decoded one: an unclean path and a
  path that lacks only the slash of a pattern are redirected.
\<close>

definition mux :: "(string list \<times> 'h) list \<Rightarrow> string \<Rightarrow> string \<Rightarrow> string \<Rightarrow> 'h routed" where
  "mux pats method esc upath =
     (if method = ''CONNECT'' then
        (case best_match pats (segments esc) of None \<Rightarrow> Unmatched | Some (_, h) \<Rightarrow> Serve h)
      else
        let p = cleanPath esc; segs = segments p; m = best_match pats segs;
            exact = (case m of None \<Rightarrow> False | Some (pat, _) \<Rightarrow> exact_match pat segs);
            slashed = (last p \<noteq> CHR ''/'' \<and> \<not> exact \<and>
              (case best_match pats (segs @ [[]]) of None \<Rightarrow> False | Some (pat, _) \<Rightarrow> exact_match pat (segs @ [[]])))
        in if slashed then Redirect (cleanPath upath @ ''/'')
           else if p \<noteq> esc then Redirect p
           else (case m of None \<Rightarrow> Unmatched | Some (_, h) \<Rightarrow> Serve h))"

definition redirect_response :: "string \<Rightarrow> response" where
  "redirect_response loc = \<lparr>status = 307, headers = [(''Location'', loc)], payload = Text []\<rparr>"

text \<open>The mux hands a handler only a clean path.\<close>

lemma mux_Serve_clean: "mux pats m esc p = Serve h \<Longrightarrow> m \<noteq> ''CONNECT'' \<Longrightarrow> cleanPath esc = esc"
  by (auto simp: mux_def Let_def split: if_splits option.splits)

lemma hd_sort_key: "xs \<noteq> [] \<Longrightarrow> hd (sort_key f xs) \<in> set xs"
  by (metis hd_in_set length_0_conv length_sort set_sort)

lemma preferred_mem: "preferred ms = Some m \<Longrightarrow> m \<in> set ms"
  using hd_sort_key [of ms] find_Some_mem [of _ ms]
  by (fastforce simp: preferred_def split: if_splits option.splits)

lemma best_match_mem: "best_match pats segs = Some m \<Longrightarrow> m \<in> set pats \<and> pattern_matches (fst m) segs"
  using preferred_mem by (fastforce simp: best_match_def)

lemma mux_Serve_mem:
  assumes "mux pats m esc p = Serve h"
  shows "h \<in> snd ` set pats"
proof -
  obtain pat segs where "best_match pats segs = Some (pat, h)"
    using assms by (auto simp: mux_def Let_def split: if_splits option.splits)
  then show ?thesis using best_match_mem by force
qed

end
