(* ===== verification/Gateway.thy ===== *)
theory Gateway
  imports Net
begin

text \<open>
  \<open>internal/gateway\<close>: the auth-aware reverse proxy.  A handler is a function from a
  request to what becomes of it: answered, forwarded to a backend, or called on a
  pillar's gRPC mux.
\<close>

section \<open>Identities and replies\<close>

record Identity =
  Subject :: string
  Kind :: string
  Org :: string
  ResponsibleHuman :: string
  Scopes :: "string list"
  Products :: "string list"
  Audience :: "string list"

definition zero_Identity :: Identity where
  "zero_Identity = \<lparr>Subject = [], Kind = [], Org = [], ResponsibleHuman = [], Scopes = [], Products = [], Audience = []\<rparr>"

text \<open>\<open>Verifier.Verify\<close>; None is an error.\<close>

type_synonym token_verifier = "string \<Rightarrow> Identity option"

text \<open>A parsed backend URL: scheme and host, path, query.\<close>

record backend_url =
  authority :: string
  base_path :: string
  base_query :: string

text \<open>
  \<open>Rpc mux md r\<close>: request \<open>r\<close> reached the gRPC mux of a pillar with the metadata \<open>md\<close>
  its annotator sets, in order; None when it sets none.
\<close>

type_synonym metadata_sets = "(string \<times> string) list"

datatype reply =
    Respond response
  | Forward backend_url request
  | Rpc string "metadata_sets option" request

type_synonym handler = "request \<Rightarrow> reply"

section \<open>httputil.NewSingleHostReverseProxy\<close>

definition singleJoiningSlash :: "string \<Rightarrow> string \<Rightarrow> string" where
  "singleJoiningSlash a b =
     (if HasSuffix a ''/'' \<and> HasPrefix b ''/'' then a @ drop 1 b
      else if \<not> HasSuffix a ''/'' \<and> \<not> HasPrefix b ''/'' then a @ ''/'' @ b
      else a @ b)"

definition join_query :: "string \<Rightarrow> string \<Rightarrow> string" where
  "join_query t q = (if t = [] \<or> q = [] then t @ q else t @ ''&'' @ q)"

text \<open>The hop-by-hop headers: those \<open>Connection\<close> lists, and the standard ones.\<close>

definition hopHeaders :: "string list" where
  "hopHeaders = [''Connection'', ''Proxy-Connection'', ''Keep-Alive'', ''Proxy-Authenticate'',
     ''Proxy-Authorization'', ''Te'', ''Trailer'', ''Transfer-Encoding'', ''Upgrade'']"

definition trim_blank :: "string \<Rightarrow> string" where
  "trim_blank s = (let b = (\<lambda>c. c \<in> {CHR '' '', CHR 0x09, CHR 0x0A, CHR 0x0D}) in rev (dropWhile b (rev (dropWhile b s))))"

definition connection_listed :: "header \<Rightarrow> string list" where
  "connection_listed h =
     filter (\<lambda>s. s \<noteq> []) (map trim_blank (concat (map (Split CHR '','') (h (canonicalKey ''Connection'')))))"

definition Del_all :: "string list \<Rightarrow> header \<Rightarrow> header" where
  "Del_all ks h = foldl Del h ks"

definition removeHopByHopHeaders :: "header \<Rightarrow> header" where
  "removeHopByHopHeaders h = Del_all hopHeaders (Del_all (connection_listed h) h)"

text \<open>
  The director joins the paths and queries; then the hop-by-hop headers are removed
  and the client's address is appended to \<open>X-Forwarded-For\<close>.  Upgrades are not
  modelled.
\<close>

definition forwarded_for :: "request \<Rightarrow> header \<Rightarrow> header" where
  "forwarded_for r h =
     (case SplitHostPort (RemoteAddr r) of None \<Rightarrow> h
      | Some (ip, _) \<Rightarrow> Set h ''X-Forwarded-For'' (Join (h (canonicalKey ''X-Forwarded-For'') @ [ip]) '', ''))"

definition ReverseProxy :: "backend_url \<Rightarrow> handler" where
  "ReverseProxy u r = Forward u (r\<lparr>path := singleJoiningSlash (base_path u) (path r),
     rawQuery := join_query (base_query u) (rawQuery r),
     hdr := forwarded_for r (removeHopByHopHeaders (hdr r))\<rparr>)"

section \<open>Configuration and routes\<close>

text \<open>The maps of the configuration are lists in the order an iteration visits them.\<close>

record gw_config =
  Verifier :: "token_verifier option"
  AuthBypass :: bool
  Routes :: "(string \<times> string) list"
  PublicPaths :: "string list"
  RouteProducts :: "string \<rightharpoonup> string"
  GRPCHandlers :: "(string \<times> handler) list"

record route =
  prefix :: string
  target :: "backend_url + handler"
  product :: string

record gateway =
  bypass :: bool
  verify :: "token_verifier option"
  routes :: "route list"
  publicEx :: "string list"
  publicPx :: "string list"

definition trustedHeaders :: "string list" where
  "trustedHeaders = [''X-CWB-Org'', ''X-CWB-Subject'', ''X-CWB-Kind'', ''X-CWB-Scopes'', ''X-CWB-Responsible-Human'', ''X-CWB-Products'']"

datatype gw_error = VerifierRequired | BadBackend string string

fun proxy_routes :: "(string \<Rightarrow> backend_url option) \<Rightarrow> (string \<rightharpoonup> string) \<Rightarrow> (string \<times> string) list \<Rightarrow> gw_error + route list" where
  "proxy_routes parse ps [] = Inr []"
| "proxy_routes parse ps ((p, b) # rs) =
     (case parse b of None \<Rightarrow> Inl (BadBackend p b)
      | Some u \<Rightarrow> (case proxy_routes parse ps rs of Inl e \<Rightarrow> Inl e
         | Inr ts \<Rightarrow>
             let q = TrimRight CHR ''/'' p in
             Inr (\<lparr>prefix = q, target = Inl u, product = (case ps q of None \<Rightarrow> [] | Some x \<Rightarrow> x)\<rparr> # ts)))"

definition grpc_route :: "string \<times> handler \<Rightarrow> route" where
  "grpc_route e = \<lparr>prefix = TrimRight CHR ''/'' (fst e), target = Inr (snd e), product = []\<rparr>"

definition longest_first :: "route list \<Rightarrow> route list" where
  "longest_first rs = sort_key (\<lambda>r. - int (length (prefix r))) rs"

definition New :: "(string \<Rightarrow> backend_url option) \<Rightarrow> gw_config \<Rightarrow> gw_error + gateway" where
  "New parse c =
     (if \<not> AuthBypass c \<and> Verifier c = None then Inl VerifierRequired
      else let ps = filter (\<lambda>p. p \<noteq> []) (map TrimSpace (PublicPaths c)) in
        (case proxy_routes parse (RouteProducts c) (Routes c) of Inl e \<Rightarrow> Inl e
         | Inr rs \<Rightarrow> Inr \<lparr>bypass = AuthBypass c, verify = Verifier c,
             routes = longest_first (rs @ map grpc_route (GRPCHandlers c)),
             publicEx = filter (\<lambda>p. \<not> HasSuffix p ''/'') ps, publicPx = filter (\<lambda>p. HasSuffix p ''/'') ps\<rparr>))"

section \<open>Serving\<close>

definition under :: "string \<Rightarrow> string \<Rightarrow> bool" where
  "under p pre \<longleftrightarrow> p = pre \<or> HasPrefix p (pre @ ''/'')"

definition match :: "gateway \<Rightarrow> string \<Rightarrow> (route \<times> string) option" where
  "match g p =
     (case find (\<lambda>rt. under p (prefix rt)) (routes g) of None \<Rightarrow> None
      | Some rt \<Rightarrow> (let rest = TrimPrefix p (prefix rt) in Some (rt, if rest = [] then ''/'' else rest)))"

definition isPublic :: "gateway \<Rightarrow> string \<Rightarrow> bool" where
  "isPublic g p \<longleftrightarrow> p \<in> set (publicEx g) \<or> list_ex (HasPrefix p) (publicPx g)"

definition injectIdentity :: "Identity \<Rightarrow> header \<Rightarrow> header" where
  "injectIdentity i h =
     (let h1 = Set (Set (Set (Set (Set h ''X-CWB-Org'' (Org i)) ''X-CWB-Subject'' (Subject i)) ''X-CWB-Kind'' (Kind i))
            ''X-CWB-Scopes'' (Join (Scopes i) '' '')) ''X-CWB-Products'' (Join (Products i) '' '')
      in if ResponsibleHuman i \<noteq> [] then Set h1 ''X-CWB-Responsible-Human'' (ResponsibleHuman i) else h1)"

definition hasProduct :: "string list \<Rightarrow> string \<Rightarrow> bool" where
  "hasProduct ps p \<longleftrightarrow> p \<in> set ps"

definition bearer :: "request \<Rightarrow> string" where
  "bearer r =
     (let h = Get (hdr r) ''Authorization''; p = ''Bearer '' in
      if length p < length h \<and> EqualFold_ascii (take (length p) h) p then drop (length p) h else [])"

text \<open>The text of \<open>{"error": code}\<close> as \<open>http.Error\<close> answers it.\<close>

definition error_text :: "nat \<Rightarrow> string \<Rightarrow> reply" where
  "error_text st code = Respond (httpError st (''{'' @ quote False ''error'' @ '':'' @ quote False code @ ''}''))"

text \<open>
  \<open>serve\<close>: the verified identity, or None where no verification is asked for, or the
  refusal.
\<close>

definition authenticate :: "gateway \<Rightarrow> route \<Rightarrow> request \<Rightarrow> reply + Identity option" where
  "authenticate g rt r =
     (if bypass g \<or> isPublic g (path r) then Inr None
      else let tok = bearer r in
        if tok = [] then Inl (error_text 401 ''missing bearer token'')
        else (case verify g of None \<Rightarrow> Inl (error_text 401 ''invalid token'')
          | Some v \<Rightarrow> (case v tok of None \<Rightarrow> Inl (error_text 401 ''invalid token'')
             | Some i \<Rightarrow>
                 if product rt \<noteq> [] \<and> \<not> hasProduct (Products i) (product rt)
                 then Inl (error_text 403 ''product not enabled for org'')
                 else Inr (Some i))))"

definition serve :: "gateway \<Rightarrow> request \<Rightarrow> reply" where
  "serve g r =
     (case match g (path r) of None \<Rightarrow> error_text 404 ''no route''
      | Some (rt, rest) \<Rightarrow>
         (case target rt of
            Inr h \<Rightarrow> h (r\<lparr>path := rest\<rparr>)
          | Inl u \<Rightarrow>
             (let r1 = r\<lparr>hdr := Del_all trustedHeaders (hdr r)\<rparr> in
              case authenticate g rt r1 of Inl e \<Rightarrow> e
              | Inr None \<Rightarrow> ReverseProxy u (r1\<lparr>path := rest\<rparr>)
              | Inr (Some i) \<Rightarrow> ReverseProxy u (r1\<lparr>path := rest, hdr := injectIdentity i (hdr r1)\<rparr>))))"

definition healthz :: response where
  "healthz = \<lparr>status = 200, headers = [(''Content-Type'', ''application/json'')],
     payload = Text (''{'' @ quote False ''status'' @ '':'' @ quote False ''ok'' @ '',''
       @ quote False ''service'' @ '':'' @ quote False ''interchange-gateway'' @ ''}'')\<rparr>"

definition Handler :: "gateway \<Rightarrow> string \<Rightarrow> request \<Rightarrow> reply" where
  "Handler g esc r =
     (case mux [([''healthz''], \<lambda>_. Respond healthz), ([[]], serve g)] (meth r) esc (path r) of
        Serve h \<Rightarrow> h r
      | Redirect loc \<Rightarrow> Respond (redirect_response loc)
      | Unmatched \<Rightarrow> Respond NotFound)"

end
