(* ===== verification/Edge.thy ===== *)
theory Edge
  imports Gateway
begin

text \<open>
  \<open>internal/edge\<close> and \<open>cmd/interchange-gateway\<close>: the gRPC edges behind the gateway, how
  they authenticate, and how the command builds the gateway from its environment.
\<close>

section \<open>internal/edge\<close>

record edge_identity =
  eSubject :: string
  eKind :: string
  eOrg :: string
  eResponsibleHuman :: string
  eScopes :: "string list"
  eProducts :: "string list"

definition cwbMetaKeys :: "string list" where
  "cwbMetaKeys = [''cwb-org'', ''cwb-subject'', ''cwb-kind'', ''cwb-scopes'', ''cwb-products'', ''cwb-responsible-human'']"

text \<open>\<open>metadata.MD\<close> is the argument type; \<open>md_delete\<close> is its \<open>Delete\<close>.\<close>

definition StripClientMetadata :: "('md \<Rightarrow> string \<Rightarrow> 'md) \<Rightarrow> 'md \<Rightarrow> 'md" where
  "StripClientMetadata md_delete md = foldl md_delete md cwbMetaKeys"

text \<open>The \<open>Set\<close> calls on the fresh metadata, in order.\<close>

definition OutgoingContext :: "edge_identity \<Rightarrow> metadata_sets" where
  "OutgoingContext i =
     [(''cwb-org'', eOrg i), (''cwb-subject'', eSubject i), (''cwb-kind'', eKind i),
      (''cwb-scopes'', Join (eScopes i) '' ''), (''cwb-products'', Join (eProducts i) '' '')]
     @ (if eResponsibleHuman i \<noteq> [] then [(''cwb-responsible-human'', eResponsibleHuman i)] else [])"

definition HasProduct :: "edge_identity \<Rightarrow> string \<Rightarrow> bool" where
  "HasProduct i p \<longleftrightarrow> p \<in> set (eProducts i)"

text \<open>
  \<open>DialPillar\<close>, over what it calls: loading the key pair, reading and parsing the CA
  file, and \<open>grpc.NewClient\<close>.
\<close>

definition DialPillar ::
    "(string \<Rightarrow> string \<Rightarrow> 'cert option) \<Rightarrow> (string \<Rightarrow> string option) \<Rightarrow> (string \<Rightarrow> 'pool option)
     \<Rightarrow> (string \<Rightarrow> 'cert \<Rightarrow> 'pool \<Rightarrow> 'conn option) \<Rightarrow> string \<Rightarrow> string \<Rightarrow> string \<Rightarrow> string \<Rightarrow> 'conn option" where
  "DialPillar loadPair readFile parseCA newClient addr certFile keyFile caFile =
     (case loadPair certFile keyFile of None \<Rightarrow> None
      | Some cert \<Rightarrow> (case readFile caFile of None \<Rightarrow> None
         | Some pem \<Rightarrow> (case parseCA pem of None \<Rightarrow> None
            | Some pool \<Rightarrow> newClient addr cert pool)))"

section \<open>The annotator of the gRPC muxes\<close>

definition annotator :: "edge_identity option \<Rightarrow> metadata_sets option" where
  "annotator ctx =
     (case ctx of None \<Rightarrow> None
      | Some i \<Rightarrow> Some (
          [(''cwb-org'', eOrg i), (''cwb-subject'', eSubject i), (''cwb-kind'', eKind i)]
          @ (if eScopes i \<noteq> [] then [(''cwb-scopes'', Join (eScopes i) '' '')] else [])
          @ (if eProducts i \<noteq> [] then [(''cwb-products'', Join (eProducts i) '' '')] else [])
          @ (if eResponsibleHuman i \<noteq> [] then [(''cwb-responsible-human'', eResponsibleHuman i)] else [])))"

text \<open>A mux of \<open>newGRPCMux\<close>, serving a request whose context carries an identity or none.\<close>

definition newGRPCMux :: "string \<Rightarrow> edge_identity option \<Rightarrow> handler" where
  "newGRPCMux name ctx r = Rpc name (annotator ctx) r"

section \<open>Authentication at the edges\<close>

definition audienceOK :: "Identity \<Rightarrow> string \<Rightarrow> bool" where
  "audienceOK g p \<longleftrightarrow> p = [] \<or> Audience g = [] \<or> p \<in> set (Audience g)"

definition main_bearer :: "request \<Rightarrow> string" where
  "main_bearer r =
     (let h = Get (hdr r) ''Authorization''; p = ''Bearer '' in
      if length p < length h \<and> EqualFold_ascii (take (length p) h) p then drop (length p) h else [])"

definition edge_of :: "Identity \<Rightarrow> edge_identity" where
  "edge_of g = \<lparr>eSubject = Subject g, eKind = Kind g, eOrg = Org g, eResponsibleHuman = ResponsibleHuman g,
     eScopes = Scopes g, eProducts = Products g\<rparr>"

text \<open>The identity of the caller: in bypass mode there is no verifier and it is the zero one.\<close>

definition edge_verify :: "token_verifier option \<Rightarrow> request \<Rightarrow> reply + Identity" where
  "edge_verify v r =
     (let tok = main_bearer r in
      if tok = [] then Inl (error_text 401 ''missing bearer token'')
      else (case v of None \<Rightarrow> Inr zero_Identity
        | Some f \<Rightarrow> (case f tok of None \<Rightarrow> Inl (error_text 401 ''invalid token'') | Some g \<Rightarrow> Inr g)))"

definition grpc_spoof :: "string list" where
  "grpc_spoof = concat (map (\<lambda>k. [k, ''Grpc-Metadata-'' @ k])
     [''cwb-org'', ''cwb-subject'', ''cwb-kind'', ''cwb-scopes'', ''cwb-products'', ''cwb-responsible-human''])"

definition authInject :: "(edge_identity option \<Rightarrow> handler) \<Rightarrow> token_verifier option \<Rightarrow> string \<Rightarrow> handler" where
  "authInject next' v p r =
     (case edge_verify v r of Inl e \<Rightarrow> e
      | Inr g \<Rightarrow>
          if p \<noteq> [] \<and> \<not> HasProduct (edge_of g) p then error_text 403 ''product not enabled for org''
          else if \<not> audienceOK g p then error_text 403 ''token audience does not include this service''
          else next' (Some (edge_of g)) (r\<lparr>hdr := Del_all grpc_spoof (hdr r)\<rparr>))"

definition cwb_headers :: "string list" where
  "cwb_headers = [''X-CWB-Org'', ''X-CWB-Subject'', ''X-CWB-Kind'', ''X-CWB-Scopes'', ''X-CWB-Products'', ''X-CWB-Responsible-Human'']"

definition stripSpoofedIdentity :: "header \<Rightarrow> header" where
  "stripSpoofedIdentity h = Del_all cwb_headers (Del_all grpc_spoof h)"

definition injectCWBHeaders :: "edge_identity \<Rightarrow> header \<Rightarrow> header" where
  "injectCWBHeaders i h =
     (let h1 = Set (Set (Set (Set (Set h ''X-CWB-Org'' (eOrg i)) ''X-CWB-Subject'' (eSubject i)) ''X-CWB-Kind'' (eKind i))
            ''X-CWB-Scopes'' (Join (eScopes i) '' '')) ''X-CWB-Products'' (Join (eProducts i) '' '')
      in if eResponsibleHuman i \<noteq> [] then Set h1 ''X-CWB-Responsible-Human'' (eResponsibleHuman i) else h1)"

definition cairnComposite :: "(edge_identity option \<Rightarrow> handler) \<Rightarrow> handler \<Rightarrow> token_verifier option \<Rightarrow> string \<Rightarrow> handler" where
  "cairnComposite api git v p r =
     (case edge_verify v r of Inl e \<Rightarrow> e
      | Inr g \<Rightarrow>
          if \<not> HasProduct (edge_of g) p then error_text 403 ''product not enabled for org''
          else if \<not> audienceOK g p then error_text 403 ''token audience does not include this service''
          else let r1 = r\<lparr>hdr := stripSpoofedIdentity (hdr r)\<rparr> in
            if HasPrefix (path r) ''/api/'' then api (Some (edge_of g)) r1
            else git (r1\<lparr>hdr := injectCWBHeaders (edge_of g) (hdr r1)\<rparr>))"

definition herald_admin :: "string \<Rightarrow> bool" where
  "herald_admin p \<longleftrightarrow> HasPrefix p ''/api/orgs'' \<or> HasPrefix p ''/api/humans/'' \<or> p = ''/api/me''"

definition heraldComposite :: "(edge_identity option \<Rightarrow> handler) \<Rightarrow> handler \<Rightarrow> token_verifier option \<Rightarrow> handler" where
  "heraldComposite api http v r =
     (if \<not> herald_admin (path r) then http (r\<lparr>hdr := stripSpoofedIdentity (hdr r)\<rparr>)
      else (case edge_verify v r of Inl e \<Rightarrow> e
        | Inr g \<Rightarrow> api (Some (edge_of g)) (r\<lparr>hdr := stripSpoofedIdentity (hdr r)\<rparr>)))"

text \<open>\<open>heraldVerifier\<close> copies the seven fields of the library's identity, here a tuple.\<close>

type_synonym herald_id = "string \<times> string \<times> string \<times> string \<times> string list \<times> string list \<times> string list"

definition heraldVerifier :: "(string \<Rightarrow> herald_id option) \<Rightarrow> token_verifier" where
  "heraldVerifier hv tok =
     (case hv tok of None \<Rightarrow> None
      | Some (subj, kind, org, human, scopes, prods, aud) \<Rightarrow>
          Some \<lparr>Subject = subj, Kind = kind, Org = org, ResponsibleHuman = human, Scopes = scopes,
                Products = prods, Audience = aud\<rparr>)"

section \<open>Configuration from the environment\<close>

type_synonym environment = "string \<Rightarrow> string"

definition env :: "environment \<Rightarrow> string \<Rightarrow> string \<Rightarrow> string" where
  "env e key def = (if e key \<noteq> [] then e key else def)"

definition routeProducts :: "string \<rightharpoonup> string" where
  "routeProducts = [''/cairn'' \<mapsto> ''cairn'', ''/ledger'' \<mapsto> ''ledger'', ''/knowledge'' \<mapsto> ''commonplace'']"

text \<open>The routes as an association list with distinct keys; a later entry replaces an earlier.\<close>

fun map_put :: "string \<Rightarrow> string \<Rightarrow> (string \<times> string) list \<Rightarrow> (string \<times> string) list" where
  "map_put k v [] = [(k, v)]"
| "map_put k v ((k', v') # m) = (if k = k' then (k, v) # m else (k', v') # map_put k v m)"

definition map_delete :: "string \<Rightarrow> (string \<times> string) list \<Rightarrow> (string \<times> string) list" where
  "map_delete k m = filter (\<lambda>e. fst e \<noteq> k) m"

fun parse_entries :: "string list \<Rightarrow> (string \<times> string) list \<Rightarrow> string + (string \<times> string) list" where
  "parse_entries [] out = Inr out"
| "parse_entries (e # es) out =
     (let entry = TrimSpace e in
      if entry = [] then parse_entries es out
      else (case Cut CHR ''='' entry of None \<Rightarrow> Inl entry
        | Some (k, v) \<Rightarrow>
            if TrimSpace k = [] \<or> TrimSpace v = [] then Inl entry
            else parse_entries es (map_put (TrimSpace k) (TrimSpace v) out)))"

definition parseError :: "string \<Rightarrow> string" where
  "parseError entry = ''bad route entry (want prefix=backend): '' @ entry"

definition parseRoutes :: "string \<Rightarrow> string + (string \<times> string) list" where
  "parseRoutes s =
     (let t = TrimSpace s in
      if t = [] then Inr []
      else (case parse_entries (Split CHR '','' t) [] of Inl e \<Rightarrow> Inl (parseError e) | Inr m \<Rightarrow> Inr m))"

definition parsePublicPaths :: "string \<Rightarrow> string list" where
  "parsePublicPaths s =
     (let t = TrimSpace s in if t = [] then [] else filter (\<lambda>p. p \<noteq> []) (map TrimSpace (Split CHR '','' t)))"

text \<open>\<open>parseDur\<close> is \<open>time.ParseDuration\<close>.\<close>

definition shutdownTimeout :: "(string \<Rightarrow> int option) \<Rightarrow> environment \<Rightarrow> int" where
  "shutdownTimeout parseDur e =
     (let v = e ''INTERCHANGE_SHUTDOWN_TIMEOUT'' in
      if v = [] then 25 * 1000000000
      else (case parseDur v of None \<Rightarrow> 25 * 1000000000 | Some d \<Rightarrow> if d > 0 then d else 25 * 1000000000))"

end
