(* ===== verification/Startup.thy ===== *)
theory Startup
  imports Edge
begin

text \<open>
  The wiring of \<open>cmd/interchange-gateway\<close>: what \<open>main\<close> builds from the environment, and
  how it stops.  Dialing a pillar, registering a generated service handler, herald's
  token library and \<open>url.Parse\<close> are the fields of \<open>platform\<close>.
\<close>

section \<open>Outcomes\<close>

datatype fatal =
    BadRoutes string
  | IssuerRequired
  | VerifierFailed string
  | DialFailed string string
  | RegisterFailed string
  | BadURL string string
  | GatewayFailed gw_error

record 'c platform =
  dial :: "string \<Rightarrow> string \<Rightarrow> string \<Rightarrow> string \<Rightarrow> 'c option"
  register :: "string \<Rightarrow> 'c \<Rightarrow> bool"
  herald_new :: "string \<Rightarrow> string \<Rightarrow> (string \<Rightarrow> herald_id option) option"
  url_Parse :: "string \<Rightarrow> backend_url option"

definition bindE :: "'e + 'a \<Rightarrow> ('a \<Rightarrow> 'e + 'b) \<Rightarrow> 'e + 'b" where
  "bindE m f = (case m of Inl e \<Rightarrow> Inl e | Inr a \<Rightarrow> f a)"

lemma bindE_simps [simp]: "bindE (Inl e) f = Inl e" "bindE (Inr a) f = f a"
  by (simp_all add: bindE_def)

lemma bindE_Inr: "bindE m f = Inr b \<longleftrightarrow> (\<exists>a. m = Inr a \<and> f a = Inr b)"
  by (cases m) simp_all

section \<open>The edges\<close>

definition verifier_from_env :: "'c platform \<Rightarrow> environment \<Rightarrow> fatal + token_verifier option" where
  "verifier_from_env p e =
     (if e ''INTERCHANGE_AUTH_BYPASS'' = ''1'' then Inr None
      else let issuer = e ''INTERCHANGE_HERALD_ISSUER'' in
        if issuer = [] then Inl IssuerRequired
        else (case herald_new p issuer (e ''INTERCHANGE_HERALD_JWKS_URL'') of
            None \<Rightarrow> Inl (VerifierFailed issuer)
          | Some hv \<Rightarrow> Inr (Some (heraldVerifier hv))))"

text \<open>Dial a pillar and register its services on a fresh mux.\<close>

definition connect :: "'c platform \<Rightarrow> environment \<Rightarrow> string \<Rightarrow> string \<Rightarrow> string \<Rightarrow> string list
    \<Rightarrow> fatal + (edge_identity option \<Rightarrow> handler)" where
  "connect p e name var def services =
     (let addr = env e var def in
      case dial p addr (e ''INTERCHANGE_TLS_CERT'') (e ''INTERCHANGE_TLS_KEY'') (e ''INTERCHANGE_TLS_CA'') of
        None \<Rightarrow> Inl (DialFailed name addr)
      | Some c \<Rightarrow> if list_all (\<lambda>s. register p s c) services then Inr (newGRPCMux name) else Inl (RegisterFailed name))"

definition pillar_edge :: "'c platform \<Rightarrow> environment \<Rightarrow> token_verifier option \<Rightarrow> string \<Rightarrow> string \<Rightarrow> string \<Rightarrow> string list
    \<Rightarrow> string \<Rightarrow> fatal + handler" where
  "pillar_edge p e v name var def services gate =
     bindE (connect p e name var def services) (\<lambda>mx. Inr (authInject mx v gate))"

definition knowledge_edge :: "'c platform \<Rightarrow> environment \<Rightarrow> token_verifier option \<Rightarrow> fatal + handler" where
  "knowledge_edge p e v = pillar_edge p e v ''commonplace'' ''INTERCHANGE_COMMONPLACE_GRPC'' ''commonplace.cwb.svc:50051''
     [''cwbv1.KnowledgeService''] ''commonplace''"

definition ledger_edge :: "'c platform \<Rightarrow> environment \<Rightarrow> token_verifier option \<Rightarrow> fatal + handler" where
  "ledger_edge p e v = pillar_edge p e v ''ledger'' ''INTERCHANGE_LEDGER_GRPC'' ''ledger.cwb.svc:50051''
     [''cwbv1.IssueService'', ''cwbv1.ProjectService'', ''cwbv1.OrgService'', ''cwbv1.AdminService''] ''ledger''"

definition almanac_edge :: "'c platform \<Rightarrow> environment \<Rightarrow> token_verifier option \<Rightarrow> fatal + handler" where
  "almanac_edge p e v = pillar_edge p e v ''almanac'' ''INTERCHANGE_ALMANAC_GRPC'' ''almanac.cwb.svc:8083''
     [''cwbv1.ConfigService'', ''cwbv1.SecretService'', ''cwbv1.AlmanacAdminService''] []"

definition mason_edge :: "'c platform \<Rightarrow> environment \<Rightarrow> token_verifier option \<Rightarrow> fatal + handler" where
  "mason_edge p e v = pillar_edge p e v ''mason'' ''INTERCHANGE_MASON_GRPC'' ''mason.cwb.svc:8086'' [''cwbv1.AppService''] []"

definition atlas_edge :: "'c platform \<Rightarrow> environment \<Rightarrow> token_verifier option \<Rightarrow> fatal + handler" where
  "atlas_edge p e v = pillar_edge p e v ''atlas'' ''INTERCHANGE_ATLAS_GRPC'' ''atlas.cwb.svc.cluster.local:8089'' [''cwbv1.StrataService''] []"

text \<open>A composite edge takes its HTTP backend over from the plain routes.\<close>

definition route_or :: "(string \<times> string) list \<Rightarrow> string \<Rightarrow> string \<Rightarrow> string" where
  "route_or rs k def = (case map_of rs k of None \<Rightarrow> def | Some b \<Rightarrow> if b = [] then def else b)"

definition backend_of :: "'c platform \<Rightarrow> string \<Rightarrow> string \<Rightarrow> fatal + backend_url" where
  "backend_of p name b = (case url_Parse p b of None \<Rightarrow> Inl (BadURL name b) | Some u \<Rightarrow> Inr u)"

definition cairn_edge :: "'c platform \<Rightarrow> environment \<Rightarrow> token_verifier option \<Rightarrow> (string \<times> string) list \<Rightarrow> fatal + handler" where
  "cairn_edge p e v rs =
     bindE (connect p e ''cairn'' ''INTERCHANGE_CAIRN_GRPC'' ''cairn.cwb.svc:8102'' [''cairnv1.RepoService'', ''cairnv1.PullService'', ''cairnv1.OrgService'']) (\<lambda>mx.
     bindE (backend_of p ''cairn'' (route_or rs ''/cairn'' ''http://cairn.cwb.svc:8100'')) (\<lambda>u.
       Inr (cairnComposite mx (ReverseProxy u) v ''cairn'')))"

definition herald_edge :: "'c platform \<Rightarrow> environment \<Rightarrow> token_verifier option \<Rightarrow> (string \<times> string) list \<Rightarrow> fatal + handler" where
  "herald_edge p e v rs =
     bindE (connect p e ''herald'' ''INTERCHANGE_HERALD_GRPC'' ''herald.cwb.svc:8098'' [''heraldv1.AdminService'']) (\<lambda>mx.
     bindE (backend_of p ''herald'' (route_or rs ''/herald'' ''http://herald.cwb.svc:8099'')) (\<lambda>u.
       Inr (heraldComposite mx (ReverseProxy u) v)))"

section \<open>Startup and shutdown\<close>

definition main_config :: "'c platform \<Rightarrow> environment \<Rightarrow> fatal + gw_config" where
  "main_config p e =
     bindE (case parseRoutes (e ''INTERCHANGE_ROUTES'') of Inl m \<Rightarrow> Inl (BadRoutes m) | Inr rs \<Rightarrow> Inr rs) (\<lambda>rs.
     bindE (verifier_from_env p e) (\<lambda>v.
     bindE (knowledge_edge p e v) (\<lambda>knowledge.
     bindE (ledger_edge p e v) (\<lambda>ledger.
     bindE (almanac_edge p e v) (\<lambda>almanac.
     bindE (mason_edge p e v) (\<lambda>mason.
     bindE (atlas_edge p e v) (\<lambda>atlas.
     bindE (cairn_edge p e v rs) (\<lambda>cairn.
     bindE (herald_edge p e v rs) (\<lambda>herald.
       Inr \<lparr>Verifier = v, AuthBypass = (e ''INTERCHANGE_AUTH_BYPASS'' = ''1''),
         Routes = map_delete ''/herald'' (map_delete ''/cairn'' rs),
         PublicPaths = parsePublicPaths (e ''INTERCHANGE_PUBLIC_PATHS''), RouteProducts = routeProducts,
         GRPCHandlers = [(''/knowledge'', knowledge), (''/ledger'', ledger), (''/cairn'', cairn), (''/herald'', herald),
           (''/almanac'', almanac), (''/mason'', mason), (''/atlas'', atlas)]\<rparr>)))))))))"

definition main_start :: "'c platform \<Rightarrow> environment \<Rightarrow> fatal + gateway" where
  "main_start p e = bindE (main_config p e) (\<lambda>c.
     case New (url_Parse p) c of Inl err \<Rightarrow> Inl (GatewayFailed err) | Inr g \<Rightarrow> Inr g)"

text \<open>The end of \<open>main\<close>: a listener error is fatal, a signal drains within the timeout.\<close>

datatype main_event = ListenFailed | Signalled
datatype main_exit = Crashed | DrainFailed | Drained

definition main_wait :: "(string \<Rightarrow> int option) \<Rightarrow> environment \<Rightarrow> (int \<Rightarrow> bool) \<Rightarrow> main_event \<Rightarrow> main_exit" where
  "main_wait parseDur e drains ev =
     (case ev of ListenFailed \<Rightarrow> Crashed
      | Signalled \<Rightarrow> if drains (shutdownTimeout parseDur e) then Drained else DrainFailed)"

end
