(* ===== verification/GatewayFacts.thy ===== *)
theory GatewayFacts
  imports Gateway "HOL-Library.Multiset"
begin

text \<open>
  The gateway's properties: which route wins, when a request is let through, what
  identity headers a backend can see, and the contract that makes a gRPC-mode handler
  blind to forged identity headers.
\<close>

section \<open>Headers\<close>

lemma Del_all_apply: "Del_all ks h k = (if k \<in> canonicalKey ` set ks then [] else h k)"
  by (induction ks arbitrary: h) (auto simp: Del_all_def Del_def)

definition agree_off :: "string list \<Rightarrow> header \<Rightarrow> header \<Rightarrow> bool" where
  "agree_off ks h h' \<longleftrightarrow> Del_all ks h = Del_all ks h'"

lemma agree_off_iff: "agree_off ks h h' \<longleftrightarrow> (\<forall>k. k \<notin> canonicalKey ` set ks \<longrightarrow> h k = h' k)"
  by (auto simp: agree_off_def Del_all_apply fun_eq_iff)

lemma agree_off_Get: "agree_off ks h h' \<Longrightarrow> canonicalKey k \<notin> canonicalKey ` set ks \<Longrightarrow> Get h k = Get h' k"
  by (simp add: agree_off_iff Get_def)

lemma agree_off_Del: "agree_off ks h h' \<Longrightarrow> Del_all ks h = Del_all ks h'"
  by (simp add: agree_off_def)

lemma Get_Del_all: "Get (Del_all ks h) k = (if canonicalKey k \<in> canonicalKey ` set ks then [] else Get h k)"
  by (simp add: Get_def Del_all_apply)

lemma trusted_keys:
  "map canonicalKey trustedHeaders =
     [''X-Cwb-Org'', ''X-Cwb-Subject'', ''X-Cwb-Kind'', ''X-Cwb-Scopes'', ''X-Cwb-Responsible-Human'', ''X-Cwb-Products'']"
  by code_simp

lemma trusted_set: "canonicalKey ` set trustedHeaders =
     {''X-Cwb-Org'', ''X-Cwb-Subject'', ''X-Cwb-Kind'', ''X-Cwb-Scopes'', ''X-Cwb-Responsible-Human'', ''X-Cwb-Products''}"
proof -
  have "canonicalKey ` set trustedHeaders = set (map canonicalKey trustedHeaders)" by simp
  also have "\<dots> = set [''X-Cwb-Org'', ''X-Cwb-Subject'', ''X-Cwb-Kind'', ''X-Cwb-Scopes'', ''X-Cwb-Responsible-Human'', ''X-Cwb-Products'']"
    by (simp only: trusted_keys)
  finally show ?thesis by simp
qed

lemma key_simps:
  "canonicalKey ''Authorization'' = ''Authorization''" "canonicalKey ''X-Forwarded-For'' = ''X-Forwarded-For''"
  "canonicalKey ''X-CWB-Org'' = ''X-Cwb-Org''" "canonicalKey ''X-CWB-Subject'' = ''X-Cwb-Subject''"
  "canonicalKey ''X-CWB-Kind'' = ''X-Cwb-Kind''" "canonicalKey ''X-CWB-Scopes'' = ''X-Cwb-Scopes''"
  "canonicalKey ''X-CWB-Responsible-Human'' = ''X-Cwb-Responsible-Human''"
  "canonicalKey ''X-CWB-Products'' = ''X-Cwb-Products''" "canonicalKey ''Connection'' = ''Connection''"
  by code_simp+

lemma hop_keys: "canonicalKey ` set hopHeaders =
   {''Connection'', ''Proxy-Connection'', ''Keep-Alive'', ''Proxy-Authenticate'', ''Proxy-Authorization'', ''Te'', ''Trailer'', ''Transfer-Encoding'', ''Upgrade''}"
proof -
  have "map canonicalKey hopHeaders = hopHeaders" by code_simp
  then have "canonicalKey ` set hopHeaders = set hopHeaders" by (metis list.set_map)
  then show ?thesis by (simp add: hopHeaders_def)
qed

section \<open>Routes\<close>

lemma under_TrimPrefix: "under p pre \<Longrightarrow> p = pre @ TrimPrefix p pre"
  by (auto simp: under_def HasPrefix_iff TrimPrefix_def)

lemma under_same_length: "under p a \<Longrightarrow> under p b \<Longrightarrow> length a = length b \<Longrightarrow> a = b"
  by (metis append_eq_append_conv under_TrimPrefix)

lemma find_sorted_max:
  fixes f :: "'a \<Rightarrow> int"
  assumes "find P (sort_key f xs) = Some x"
  shows "x \<in> set xs \<and> P x \<and> (\<forall>y \<in> set xs. P y \<longrightarrow> f x \<le> f y)"
proof -
  have "sorted (map f (sort_key f xs))" by simp
  then have "\<forall>y \<in> set ys. P y \<longrightarrow> f x \<le> f y" if "find P ys = Some x" "sorted (map f ys)" for ys
    using that by (induction ys) (auto split: if_splits)
  then show ?thesis using assms find_Some_mem [OF assms] by (metis set_sort sorted_sort_key)
qed

text \<open>
  C27. A request goes to the registered route with the longest prefix that covers its
  path on a segment boundary, with that prefix stripped and a leading slash kept; no
  registered route covers it when none is found.
\<close>

theorem match_longest:
  assumes "New parse c = Inr g"
  shows "case match g p of
      None \<Rightarrow> \<forall>rt \<in> set (routes g). \<not> under p (prefix rt)
    | Some (rt, rest) \<Rightarrow> rt \<in> set (routes g) \<and> under p (prefix rt)
        \<and> (\<forall>rt' \<in> set (routes g). under p (prefix rt') \<longrightarrow> length (prefix rt') \<le> length (prefix rt))
        \<and> (p = prefix rt \<and> rest = ''/'' \<or> p = prefix rt @ rest \<and> HasPrefix rest ''/'')"
proof -
  obtain rs where r: "routes g = longest_first rs"
    using assms by (auto simp: New_def Let_def split: if_splits sum.splits)
  show ?thesis
  proof (cases "find (\<lambda>rt. under p (prefix rt)) (routes g)")
    case None
    then have "\<forall>rt \<in> set (routes g). \<not> under p (prefix rt)" by (simp add: find_None_all)
    then show ?thesis by (simp add: match_def None)
  next
    case (Some rt)
    note m = find_sorted_max [OF Some [unfolded r longest_first_def]]
    have rest: "p = prefix rt \<or> HasPrefix (TrimPrefix p (prefix rt)) ''/''"
      using m by (auto simp: under_def HasPrefix_iff)
    have "p = prefix rt @ TrimPrefix p (prefix rt)" using m under_TrimPrefix by blast
    then show ?thesis using Some m rest
      by (auto simp: match_def Let_def r longest_first_def)
  qed
qed

definition proxy_route :: "(string \<Rightarrow> backend_url option) \<Rightarrow> (string \<rightharpoonup> string) \<Rightarrow> string \<times> string \<Rightarrow> route" where
  "proxy_route parse ps e = \<lparr>prefix = TrimRight CHR ''/'' (fst e), target = Inl (the (parse (snd e))),
     product = (case ps (TrimRight CHR ''/'' (fst e)) of None \<Rightarrow> [] | Some x \<Rightarrow> x)\<rparr>"

lemma proxy_routes_ok: "proxy_routes parse ps rs = Inr ts \<Longrightarrow> ts = map (proxy_route parse ps) rs"
  by (induction parse ps rs arbitrary: ts rule: proxy_routes.induct)
    (auto simp: proxy_route_def Let_def split: option.splits sum.splits)

lemma proxy_routes_fails: "(\<exists>e. proxy_routes parse ps rs = Inl e) \<longleftrightarrow> list_ex (\<lambda>e. parse (snd e) = None) rs"
  by (induction parse ps rs rule: proxy_routes.induct) (auto simp: Let_def split: option.splits sum.splits)

text \<open>
  The gateway fails to start exactly when authentication is on without a verifier,
  or a backend URL does not parse.
\<close>

theorem New_fails:
  "(\<exists>e. New parse c = Inl e) \<longleftrightarrow>
     (\<not> AuthBypass c \<and> Verifier c = None) \<or> list_ex (\<lambda>e. parse (snd e) = None) (Routes c)"
  using proxy_routes_fails [of parse "RouteProducts c" "Routes c"]
  by (auto simp: New_def Let_def split: sum.splits)

lemma find_perm:
  assumes "mset xs = mset ys" "\<And>x y. x \<in> set xs \<Longrightarrow> y \<in> set xs \<Longrightarrow> P x \<Longrightarrow> P y \<Longrightarrow> f x = f y \<Longrightarrow> x = y"
  shows "find P (sort_key f xs) = find P (sort_key (f :: 'a \<Rightarrow> int) ys)"
proof -
  have set: "set xs = set ys" using assms(1) by (metis set_mset_mset)
  show ?thesis
  proof (cases "find P (sort_key f xs)")
    case None
    then have "find P (sort_key f ys) = None" by (simp add: find_None_all set)
    then show ?thesis by (simp add: None)
  next
    case (Some x)
    then have "find P (sort_key f ys) \<noteq> None" using find_Some_mem [OF Some] by (auto simp: find_None_all set)
    then obtain y where y: "find P (sort_key f ys) = Some y" by auto
    have "x \<in> set xs" "y \<in> set xs" "P x" "P y" "f x = f y"
      using find_sorted_max [OF Some] find_sorted_max [OF y] set by (auto intro: order_antisym)
    then show ?thesis using assms(2) Some y by metis
  qed
qed

text \<open>
  C28. Routing does not depend on the order in which the configuration's maps are
  iterated, as long as no two prefixes are equal once their trailing slashes are gone.
\<close>

theorem match_order_independent:
  assumes "New parse c = Inr g" "New parse c' = Inr g'"
    and "mset (Routes c) = mset (Routes c')" "mset (GRPCHandlers c) = mset (GRPCHandlers c')"
    and "RouteProducts c = RouteProducts c'"
    and "distinct (map (TrimRight CHR ''/'') (map fst (Routes c) @ map fst (GRPCHandlers c)))"
  shows "match g p = match g' p"
proof -
  let ?rs = "\<lambda>c. map (proxy_route parse (RouteProducts c)) (Routes c) @ map grpc_route (GRPCHandlers c)"
  have r: "routes g = longest_first (?rs c)" "routes g' = longest_first (?rs c')"
    using assms(1,2) by (auto simp: New_def Let_def dest!: proxy_routes_ok split: if_splits sum.splits)
  have m: "mset (?rs c) = mset (?rs c')" using assms(3-5) by simp
  have d: "distinct (map prefix (?rs c))"
    using assms(6) by (simp add: comp_def proxy_route_def grpc_route_def)
  have "find (\<lambda>rt. under p (prefix rt)) (routes g) = find (\<lambda>rt. under p (prefix rt)) (routes g')"
    unfolding r longest_first_def
  proof (rule find_perm [OF m])
    fix x y assume xy: "x \<in> set (?rs c)" "y \<in> set (?rs c)" "under p (prefix x)" "under p (prefix y)"
      "- int (length (prefix x)) = - int (length (prefix y))"
    then have "prefix x = prefix y" using under_same_length by auto
    then show "x = y" using distinct_map_inj [OF d xy(1,2)] by blast
  qed
  then show ?thesis by (simp add: match_def)
qed

section \<open>Letting a request through\<close>

text \<open>The value a backend sees of a verified identity under a trusted header.\<close>

definition identity_header :: "Identity \<Rightarrow> string \<Rightarrow> string list" where
  "identity_header i k = injectIdentity i no_header (canonicalKey k)"

lemma injectIdentity_trusted:
  assumes "k \<in> canonicalKey ` set trustedHeaders"
  shows "injectIdentity i (Del_all trustedHeaders h) k = injectIdentity i no_header k"
  using assms unfolding trusted_set
  by (auto simp: injectIdentity_def Let_def Set_def key_simps no_header_def Del_all_apply trusted_set)

lemma Connection_kept:
  "connection_listed (injectIdentity i (Del_all trustedHeaders h)) = connection_listed h"
  "connection_listed (Del_all trustedHeaders h) = connection_listed h"
proof -
  have "canonicalKey ''Connection'' \<notin> canonicalKey ` set trustedHeaders" by (simp add: trusted_set key_simps)
  then show "connection_listed (Del_all trustedHeaders h) = connection_listed h"
    by (simp add: connection_listed_def Del_all_apply)
  moreover have "connection_listed (injectIdentity i h') = connection_listed h'" for h'
    by (simp add: connection_listed_def injectIdentity_def Let_def Set_def key_simps)
  ultimately show "connection_listed (injectIdentity i (Del_all trustedHeaders h)) = connection_listed h" by simp
qed

lemma proxied_trusted:
  assumes "k \<in> canonicalKey ` set trustedHeaders"
  shows "forwarded_for r (removeHopByHopHeaders h) k
    = (if k \<in> canonicalKey ` set (connection_listed h) then [] else h k)"
proof -
  have k: "k \<noteq> ''X-Forwarded-For''" "k \<notin> canonicalKey ` set hopHeaders"
    using assms by (auto simp: trusted_set hop_keys)
  then show ?thesis
    by (auto simp: forwarded_for_def removeHopByHopHeaders_def Del_all_apply Set_def key_simps split: option.splits)
qed

lemma authenticate_strip: "bearer (r\<lparr>hdr := Del_all trustedHeaders (hdr r)\<rparr>) = bearer r"
  by (simp add: bearer_def Get_Del_all trusted_set key_simps)

lemma serve_decides:
  assumes "match g (path r) = Some (rt, rest)" "target rt = Inl u"
  shows "(case serve g r of
      Forward u' r' \<Rightarrow> u' = u \<and> path r' = singleJoiningSlash (base_path u) rest
        \<and> (\<exists>i. (if i = None then bypass g \<or> isPublic g (path r)
              else \<exists>v. verify g = Some v \<and> bearer r \<noteq> [] \<and> v (bearer r) = i
                \<and> (product rt = [] \<or> hasProduct (Products (the i)) (product rt)))
            \<and> (\<forall>k \<in> set trustedHeaders. hdr r' (canonicalKey k) =
                (if i = None \<or> canonicalKey k \<in> canonicalKey ` set (connection_listed (hdr r)) then []
                 else identity_header (the i) k)))
    | Respond resp \<Rightarrow> status resp \<in> {401, 403} \<and> \<not> bypass g \<and> \<not> isPublic g (path r)
        \<and> (bearer r = [] \<or> verify g = None \<or> the (verify g) (bearer r) = None
           \<or> product rt \<noteq> [] \<and> \<not> hasProduct (Products (the (the (verify g) (bearer r)))) (product rt))
    | Rpc _ _ _ \<Rightarrow> False)"
proof -
  let ?r1 = "r\<lparr>hdr := Del_all trustedHeaders (hdr r)\<rparr>"
  consider (refused) e where "authenticate g rt ?r1 = Inl e" | (anon) "authenticate g rt ?r1 = Inr None"
    | (known) i where "authenticate g rt ?r1 = Inr (Some i)"
    by (metis not_None_eq obj_sumE)
  then show ?thesis
  proof cases
    case refused
    then show ?thesis using assms
      by (auto simp: serve_def Let_def authenticate_def authenticate_strip error_text_def split: if_splits option.splits)
  next
    case anon
    then have "bypass g \<or> isPublic g (path r)"
      by (auto simp: authenticate_def Let_def split: if_splits option.splits)
    then show ?thesis using assms anon
      by (auto simp: serve_def Let_def ReverseProxy_def proxied_trusted Del_all_apply intro!: exI [of _ None])
  next
    case (known i)
    then have "\<exists>v. verify g = Some v \<and> bearer r \<noteq> [] \<and> v (bearer r) = Some i
        \<and> (product rt = [] \<or> hasProduct (Products i) (product rt))"
      by (auto simp: authenticate_def Let_def authenticate_strip split: if_splits option.splits)
    then show ?thesis using assms known
      by (auto simp: serve_def Let_def ReverseProxy_def proxied_trusted Connection_kept injectIdentity_trusted
          identity_header_def intro!: exI [of _ "Some i"])
  qed
qed

text \<open>
  C7. On a reverse-proxy route a request reaches the backend exactly when the gateway
  is in bypass mode, the path is public, or the bearer token verifies and its identity
  has the route's product; and the only identity headers the backend can see are those
  of the verified identity, less the ones the client lists in \<open>Connection\<close>.
\<close>

theorem serve_gate:
  assumes "match g (path r) = Some (rt, rest)" "target rt = Inl u"
  shows "(case serve g r of
      Forward u' r' \<Rightarrow> u' = u \<and> path r' = singleJoiningSlash (base_path u) rest
        \<and> (\<exists>i. (if i = None then bypass g \<or> isPublic g (path r)
              else \<exists>v. verify g = Some v \<and> bearer r \<noteq> [] \<and> v (bearer r) = i
                \<and> (product rt = [] \<or> hasProduct (Products (the i)) (product rt)))
            \<and> (\<forall>k \<in> set trustedHeaders. hdr r' (canonicalKey k) =
                (if i = None \<or> canonicalKey k \<in> canonicalKey ` set (connection_listed (hdr r)) then []
                 else identity_header (the i) k)))
    | Respond resp \<Rightarrow> status resp \<in> {401, 403} \<and> \<not> bypass g \<and> \<not> isPublic g (path r)
        \<and> (bearer r = [] \<or> verify g = None \<or> the (verify g) (bearer r) = None
           \<or> product rt \<noteq> [] \<and> \<not> hasProduct (Products (the (the (verify g) (bearer r)))) (product rt))
    | Rpc _ _ _ \<Rightarrow> False)"
  by (rule serve_decides [OF assms])

section \<open>Forged headers\<close>

text \<open>
  The contract of a handler that trusts no identity header of the client: two requests
  that differ only in such headers are treated alike.
\<close>

locale identity_blind =
  fixes ks :: "string list" and h :: handler
  assumes blind: "agree_off ks (hdr r) H \<Longrightarrow> h (r\<lparr>hdr := H\<rparr>) = h r"
begin

lemma blind_paths:
  assumes "agree_off ks (hdr r) H"
  shows "h (r\<lparr>hdr := H, path := p\<rparr>) = h (r\<lparr>path := p\<rparr>)"
proof -
  have "(r\<lparr>path := p\<rparr>)\<lparr>hdr := H\<rparr> = r\<lparr>hdr := H, path := p\<rparr>" by simp
  moreover have "h ((r\<lparr>path := p\<rparr>)\<lparr>hdr := H\<rparr>) = h (r\<lparr>path := p\<rparr>)" using assms by (intro blind) simp
  ultimately show ?thesis by metis
qed

lemma blind_set: "canonicalKey k \<in> canonicalKey ` set ks \<Longrightarrow> h (r\<lparr>hdr := Set (hdr r) k v\<rparr>) = h r"
  by (rule blind) (auto simp: agree_off_iff Set_def)

end

lemma serve_proxy_blind:
  assumes "match g (path r) = Some (rt, rest)" "target rt = Inl u" "agree_off trustedHeaders (hdr r) H"
  shows "serve g (r\<lparr>hdr := H\<rparr>) = serve g r"
proof -
  have "Del_all trustedHeaders H = Del_all trustedHeaders (hdr r)" using assms(3) by (simp add: agree_off_def)
  then show ?thesis using assms(1,2) by (simp add: serve_def Let_def)
qed


end
