(* ===== verification/EdgeFacts.thy ===== *)
theory EdgeFacts
  imports Startup GatewayFacts
begin

text \<open>
  The properties of the gRPC edges and of the gateway that \<open>main\<close> starts: who reaches a
  pillar, with which metadata, and what gets through without a token.
\<close>

section \<open>Forged headers at the edges\<close>

lemma main_bearer: "main_bearer r = bearer r"
  by (simp add: main_bearer_def bearer_def)

lemma spoof_keys:
  "canonicalKey ` set grpc_spoof = set
     [''Cwb-Org'', ''Grpc-Metadata-Cwb-Org'', ''Cwb-Subject'', ''Grpc-Metadata-Cwb-Subject'', ''Cwb-Kind'', ''Grpc-Metadata-Cwb-Kind'',
      ''Cwb-Scopes'', ''Grpc-Metadata-Cwb-Scopes'', ''Cwb-Products'', ''Grpc-Metadata-Cwb-Products'',
      ''Cwb-Responsible-Human'', ''Grpc-Metadata-Cwb-Responsible-Human'']"
proof -
  have "map canonicalKey grpc_spoof =
     [''Cwb-Org'', ''Grpc-Metadata-Cwb-Org'', ''Cwb-Subject'', ''Grpc-Metadata-Cwb-Subject'', ''Cwb-Kind'', ''Grpc-Metadata-Cwb-Kind'',
      ''Cwb-Scopes'', ''Grpc-Metadata-Cwb-Scopes'', ''Cwb-Products'', ''Grpc-Metadata-Cwb-Products'',
      ''Cwb-Responsible-Human'', ''Grpc-Metadata-Cwb-Responsible-Human'']" by code_simp
  then show ?thesis by (metis list.set_map)
qed

lemma cwb_keys: "canonicalKey ` set cwb_headers = canonicalKey ` set trustedHeaders"
  by (auto simp: cwb_headers_def trustedHeaders_def)

lemma Authorization_kept:
  "canonicalKey ''Authorization'' \<notin> canonicalKey ` set grpc_spoof"
  "canonicalKey ''Authorization'' \<notin> canonicalKey ` set (grpc_spoof @ cwb_headers)"
  unfolding set_append image_Un cwb_keys spoof_keys trusted_set by (simp_all add: key_simps)

lemma edge_verify_blind:
  "agree_off ks (hdr r) H \<Longrightarrow> canonicalKey ''Authorization'' \<notin> canonicalKey ` set ks \<Longrightarrow>
     edge_verify v (r\<lparr>hdr := H\<rparr>) = edge_verify v r"
  using agree_off_Get [of ks "hdr r" H "''Authorization''"] by (simp add: edge_verify_def main_bearer_def)

lemma Del_all_append: "Del_all (ks @ ls) h = Del_all ls (Del_all ks h)"
  by (simp add: Del_all_def)

interpretation inject_edge: identity_blind grpc_spoof "authInject mx v p" for mx v p
proof
  fix r :: request and H assume a: "agree_off grpc_spoof (hdr r) H"
  then show "authInject mx v p (r\<lparr>hdr := H\<rparr>) = authInject mx v p r"
    using edge_verify_blind [OF a Authorization_kept(1), of v] agree_off_Del [OF a]
    by (simp add: authInject_def split: sum.split)
qed

interpretation cairn_edge: identity_blind "grpc_spoof @ cwb_headers" "cairnComposite mx git v p" for mx git v p
proof
  fix r :: request and H assume a: "agree_off (grpc_spoof @ cwb_headers) (hdr r) H"
  then have "stripSpoofedIdentity H = stripSpoofedIdentity (hdr r)"
    by (simp add: agree_off_def stripSpoofedIdentity_def Del_all_append)
  then show "cairnComposite mx git v p (r\<lparr>hdr := H\<rparr>) = cairnComposite mx git v p r"
    using edge_verify_blind [OF a Authorization_kept(2), of v] by (simp add: cairnComposite_def Let_def split: sum.split)
qed

interpretation herald_edge: identity_blind "grpc_spoof @ cwb_headers" "heraldComposite mx http v" for mx http v
proof
  fix r :: request and H assume a: "agree_off (grpc_spoof @ cwb_headers) (hdr r) H"
  then have "stripSpoofedIdentity H = stripSpoofedIdentity (hdr r)"
    by (simp add: agree_off_def stripSpoofedIdentity_def Del_all_append)
  then show "heraldComposite mx http v (r\<lparr>hdr := H\<rparr>) = heraldComposite mx http v r"
    using edge_verify_blind [OF a Authorization_kept(2), of v] by (simp add: heraldComposite_def split: sum.split)
qed

text \<open>
  The edges ignore forged identity: setting any \<open>cwb-*\<close> or \<open>Grpc-Metadata-cwb-*\<close>
  header changes nothing at any edge, nor does any \<open>X-CWB-*\<close> header at the two
  composite ones, whatever the verifier, the pillar and the request.
\<close>

theorem edges_ignore_forgery:
  assumes "k \<in> set grpc_spoof"
  shows "authInject mx v p (r\<lparr>hdr := Set (hdr r) k x\<rparr>) = authInject mx v p r
    \<and> cairnComposite mx git v p (r\<lparr>hdr := Set (hdr r) k x\<rparr>) = cairnComposite mx git v p r
    \<and> heraldComposite mx http v (r\<lparr>hdr := Set (hdr r) k x\<rparr>) = heraldComposite mx http v r
    \<and> (\<forall>l \<in> set cwb_headers. cairnComposite mx git v p (r\<lparr>hdr := Set (hdr r) l x\<rparr>) = cairnComposite mx git v p r
         \<and> heraldComposite mx http v (r\<lparr>hdr := Set (hdr r) l x\<rparr>) = heraldComposite mx http v r)"
  using assms by (auto intro!: inject_edge.blind_set cairn_edge.blind_set herald_edge.blind_set)

section \<open>Who reaches a pillar\<close>

definition entitled :: "Identity \<Rightarrow> string \<Rightarrow> bool" where
  "entitled i p \<longleftrightarrow> p \<in> set (Products i) \<and> audienceOK i p"

definition verified :: "token_verifier option \<Rightarrow> request \<Rightarrow> Identity \<Rightarrow> bool" where
  "verified v r i \<longleftrightarrow> bearer r \<noteq> [] \<and> (case v of None \<Rightarrow> i = zero_Identity | Some f \<Rightarrow> f (bearer r) = Some i)"

lemma edge_verify_Inr: "edge_verify v r = Inr i \<longleftrightarrow> verified v r i"
  by (auto simp: edge_verify_def verified_def main_bearer Let_def split: option.splits)

lemma edge_verify_Inl: "edge_verify v r = Inl e \<Longrightarrow> e = error_text 401 ''missing bearer token'' \<or> e = error_text 401 ''invalid token''"
  by (auto simp: edge_verify_def Let_def split: option.splits if_splits)

lemma hasproduct_edge [simp]: "HasProduct (edge_of i) p \<longleftrightarrow> p \<in> set (Products i)"
  by (simp add: HasProduct_def edge_of_def)

lemma authInject_decides:
  "case authInject (newGRPCMux name) v p r of
     Rpc n md r' \<Rightarrow> n = name \<and> (\<exists>i. verified v r i \<and> (p = [] \<or> entitled i p) \<and> md = annotator (Some (edge_of i)))
       \<and> (\<forall>k \<in> set grpc_spoof. hdr r' (canonicalKey k) = []) \<and> path r' = path r
   | Respond resp \<Rightarrow> status resp \<in> {401, 403} \<and> \<not> (\<exists>i. verified v r i \<and> (p = [] \<or> entitled i p))
   | Forward _ _ \<Rightarrow> False"
proof (cases "edge_verify v r")
  case (Inl e)
  then have "\<not> verified v r i" for i by (simp add: edge_verify_Inr [symmetric])
  then show ?thesis using edge_verify_Inl [OF Inl] Inl by (auto simp: authInject_def error_text_def)
next
  case (Inr i)
  then have i: "verified v r i" by (simp add: edge_verify_Inr)
  have u: "verified v r j \<Longrightarrow> j = i" for j using i by (auto simp: verified_def split: option.splits)
  show ?thesis
  proof (cases "p = [] \<or> entitled i p")
    case True
    then have "authInject (newGRPCMux name) v p r = newGRPCMux name (Some (edge_of i)) (r\<lparr>hdr := Del_all grpc_spoof (hdr r)\<rparr>)"
      using Inr by (auto simp: authInject_def audienceOK_def entitled_def)
    then show ?thesis using i True by (auto simp: newGRPCMux_def Del_all_apply)
  next
    case False
    then obtain code where c: "authInject (newGRPCMux name) v p r = error_text 403 code"
      using Inr by (cases "p \<noteq> [] \<and> p \<notin> set (Products i)") (simp_all add: authInject_def audienceOK_def entitled_def)
    have "\<not> (verified v r j \<and> (p = [] \<or> entitled j p))" for j using False u by blast
    then show ?thesis by (simp add: c error_text_def)
  qed
qed

text \<open>
  C8. An edge calls its pillar exactly for a verified bearer token whose identity owns
  the gating product and, if the token names audiences, names this one; the metadata
  is the verified identity's, and no forged \<open>cwb-*\<close> header is left on the request.
  Otherwise it answers 401 or 403.
\<close>

theorem authInject_gate:
  "case authInject (newGRPCMux name) v p r of
     Rpc n md r' \<Rightarrow> n = name \<and> (\<exists>i. verified v r i \<and> (p = [] \<or> entitled i p) \<and> md = annotator (Some (edge_of i)))
       \<and> (\<forall>k \<in> set grpc_spoof. hdr r' (canonicalKey k) = []) \<and> path r' = path r
   | Respond resp \<Rightarrow> status resp \<in> {401, 403} \<and> \<not> (\<exists>i. verified v r i \<and> (p = [] \<or> entitled i p))
   | Forward _ _ \<Rightarrow> False"
  by (rule authInject_decides)

text \<open>
  In bypass mode there is no verifier, yet the pillars gated by a product are
  locked: every request is refused with 401 or 403, since the zero identity owns no
  product.
\<close>

theorem bypass_locks_gated_pillars:
  assumes "p \<noteq> []"
  shows "\<exists>resp. authInject mx None p r = Respond resp \<and> status resp \<in> {401, 403}
    \<and> cairnComposite mx git None p r = Respond resp"
proof (cases "main_bearer r = []")
  case True
  then show ?thesis by (simp add: authInject_def cairnComposite_def edge_verify_def error_text_def)
next
  case False
  then show ?thesis using assms
    by (simp add: authInject_def cairnComposite_def edge_verify_def error_text_def) (simp add: zero_Identity_def)
qed

section \<open>The started gateway\<close>

definition gates :: "(string \<times> string) set" where
  "gates = {(''commonplace'', ''commonplace''), (''ledger'', ''ledger''), (''almanac'', []), (''mason'', []), (''atlas'', [])}"

definition known_edge :: "token_verifier option \<Rightarrow> string \<Rightarrow> handler \<Rightarrow> bool" where
  "known_edge v pre h \<longleftrightarrow>
     (\<exists>name p. (name, p) \<in> gates \<and> h = authInject (newGRPCMux name) v p)
     \<or> (\<exists>u. pre = ''/cairn'' \<and> h = cairnComposite (newGRPCMux ''cairn'') (ReverseProxy u) v ''cairn'')
     \<or> (\<exists>u. pre = ''/herald'' \<and> h = heraldComposite (newGRPCMux ''herald'') (ReverseProxy u) v)"

lemma connect_mux: "connect p e name var def services = Inr mx \<Longrightarrow> mx = newGRPCMux name"
  by (auto simp: connect_def Let_def split: option.splits if_splits)

lemma pillar_known: "pillar_edge p e v name var def services gate = Inr h \<Longrightarrow> h = authInject (newGRPCMux name) v gate"
  by (auto simp: pillar_edge_def bindE_Inr dest: connect_mux)

lemma started_edges:
  assumes "main_config p e = Inr c" "(pre, h) \<in> set (GRPCHandlers c)"
  shows "known_edge (Verifier c) pre h \<and> TrimRight CHR ''/'' pre = pre"
proof -
  have t: "TrimRight CHR ''/'' ''/cairn'' = ''/cairn''" "TrimRight CHR ''/'' ''/herald'' = ''/herald''"
    "TrimRight CHR ''/'' ''/knowledge'' = ''/knowledge''" "TrimRight CHR ''/'' ''/ledger'' = ''/ledger''"
    "TrimRight CHR ''/'' ''/almanac'' = ''/almanac''" "TrimRight CHR ''/'' ''/mason'' = ''/mason''"
    "TrimRight CHR ''/'' ''/atlas'' = ''/atlas''" by code_simp+
  obtain v rs kn le al ma at ca he where c: "Verifier c = v"
      "GRPCHandlers c = [(''/knowledge'', kn), (''/ledger'', le), (''/cairn'', ca), (''/herald'', he),
           (''/almanac'', al), (''/mason'', ma), (''/atlas'', at)]"
    and e: "knowledge_edge p e v = Inr kn" "ledger_edge p e v = Inr le" "almanac_edge p e v = Inr al"
      "mason_edge p e v = Inr ma" "atlas_edge p e v = Inr at" "cairn_edge p e v rs = Inr ca" "herald_edge p e v rs = Inr he"
    using assms(1) by (auto simp: main_config_def bindE_Inr)
  have "known_edge v x kn" "known_edge v x le" "known_edge v x al" "known_edge v x ma" "known_edge v x at" for x
    using e(1-5) [unfolded knowledge_edge_def ledger_edge_def almanac_edge_def mason_edge_def atlas_edge_def, THEN pillar_known]
    unfolding known_edge_def gates_def by blast+
  moreover have "known_edge v ''/cairn'' ca" "known_edge v ''/herald'' he"
    using e(6,7) connect_mux unfolding known_edge_def cairn_edge_def herald_edge_def bindE_Inr by blast+
  ultimately show ?thesis using assms(2) t unfolding c by auto
qed

lemma started:
  assumes "main_start p e = Inr g"
  shows "(bypass g \<longleftrightarrow> verify g = None)
    \<and> (\<forall>rt \<in> set (routes g). case target rt of Inl _ \<Rightarrow> True | Inr h \<Rightarrow> known_edge (verify g) (prefix rt) h)"
proof -
  obtain c where c: "main_config p e = Inr c" "New (url_Parse p) c = Inr g"
  proof -
    obtain c where "main_config p e = Inr c" using assms by (auto simp: main_start_def bindE_Inr)
    moreover from this have "New (url_Parse p) c = Inr g" using assms by (simp add: main_start_def split: sum.splits)
    ultimately show ?thesis using that by blast
  qed
  have b: "AuthBypass c \<longleftrightarrow> Verifier c = None"
    using c(1) by (auto simp: main_config_def bindE_Inr verifier_from_env_def Let_def split: if_splits option.splits)
  obtain rs where g: "verify g = Verifier c" "bypass g = AuthBypass c" "proxy_routes (url_Parse p) (RouteProducts c) (Routes c) = Inr rs"
    "routes g = longest_first (rs @ map grpc_route (GRPCHandlers c))"
    using c(2) by (auto simp: New_def Let_def split: if_splits sum.splits)
  have "case target rt of Inl _ \<Rightarrow> True | Inr h \<Rightarrow> known_edge (verify g) (prefix rt) h" if "rt \<in> set (routes g)" for rt
  proof -
    have "rt \<in> set rs \<or> rt \<in> grpc_route ` set (GRPCHandlers c)" using that g(4) by (simp add: longest_first_def)
    then show ?thesis
    proof
      assume "rt \<in> set rs"
      then show ?thesis using proxy_routes_ok [OF g(3)] by (auto simp: proxy_route_def)
    next
      assume "rt \<in> grpc_route ` set (GRPCHandlers c)"
      then obtain pre h where "(pre, h) \<in> set (GRPCHandlers c)" "rt = grpc_route (pre, h)" by auto
      then show ?thesis using started_edges [OF c(1)] g(1) by (simp add: grpc_route_def)
    qed
  qed
  then show ?thesis using b g by auto
qed

lemma match_route: "match g p = Some (rt, rest) \<Longrightarrow> rt \<in> set (routes g)"
  using find_Some_mem by (fastforce simp: match_def Let_def split: option.splits)


section \<open>The cairn edge\<close>

lemma inject_same: "injectCWBHeaders (edge_of i) h = injectIdentity i h"
  by (simp add: injectCWBHeaders_def injectIdentity_def edge_of_def Let_def)

lemma strip_connection: "connection_listed (stripSpoofedIdentity h) = connection_listed h"
proof -
  have "canonicalKey ''Connection'' \<notin> canonicalKey ` set cwb_headers" "canonicalKey ''Connection'' \<notin> canonicalKey ` set grpc_spoof"
    unfolding cwb_keys trusted_set spoof_keys by (simp_all add: key_simps)
  then show ?thesis by (simp add: connection_listed_def stripSpoofedIdentity_def Del_all_apply)
qed

lemma strip_trusted: "k \<in> canonicalKey ` set trustedHeaders \<Longrightarrow> stripSpoofedIdentity h k = []"
  by (simp add: stripSpoofedIdentity_def Del_all_apply cwb_keys)

lemma git_lane_header:
  assumes "k \<in> set trustedHeaders"
  shows "forwarded_for r (removeHopByHopHeaders (injectIdentity i (stripSpoofedIdentity h))) (canonicalKey k)
    = (if canonicalKey k \<in> canonicalKey ` set (connection_listed h) then [] else identity_header i k)"
proof -
  have k: "canonicalKey k \<in> canonicalKey ` set trustedHeaders" using assms by simp
  have "Del_all trustedHeaders (stripSpoofedIdentity h) = stripSpoofedIdentity h"
    by (auto simp: fun_eq_iff Del_all_apply strip_trusted)
  then have "injectIdentity i (stripSpoofedIdentity h) = injectIdentity i (Del_all trustedHeaders (stripSpoofedIdentity h))" by simp
  then show ?thesis
    using proxied_trusted [OF k] Connection_kept(1) [of i "stripSpoofedIdentity h"] strip_connection
      injectIdentity_trusted [OF k]
    by (simp add: identity_header_def)
qed

lemma cairn_decides:
  "case cairnComposite (newGRPCMux name) (ReverseProxy u) v p r of
     Rpc n md r' \<Rightarrow> n = name \<and> HasPrefix (path r) ''/api/''
       \<and> (\<exists>i. verified v r i \<and> entitled i p \<and> md = annotator (Some (edge_of i)))
       \<and> (\<forall>k \<in> set (grpc_spoof @ cwb_headers). hdr r' (canonicalKey k) = [])
   | Forward u' r' \<Rightarrow> u' = u \<and> \<not> HasPrefix (path r) ''/api/''
       \<and> (\<exists>i. verified v r i \<and> entitled i p \<and> (\<forall>k \<in> set trustedHeaders. hdr r' (canonicalKey k) =
           (if canonicalKey k \<in> canonicalKey ` set (connection_listed (hdr r)) then [] else identity_header i k)))
   | Respond resp \<Rightarrow> status resp \<in> {401, 403} \<and> \<not> (\<exists>i. verified v r i \<and> entitled i p)"
proof (cases "edge_verify v r")
  case (Inl e)
  then have "\<not> verified v r i" for i by (simp add: edge_verify_Inr [symmetric])
  then show ?thesis using edge_verify_Inl [OF Inl] Inl by (auto simp: cairnComposite_def error_text_def)
next
  case (Inr i)
  then have i: "verified v r i" by (simp add: edge_verify_Inr)
  have u: "verified v r j \<Longrightarrow> j = i" for j using i by (auto simp: verified_def split: option.splits)
  show ?thesis
  proof (cases "entitled i p")
    case True
    let ?r1 = "r\<lparr>hdr := stripSpoofedIdentity (hdr r)\<rparr>"
    have c: "cairnComposite (newGRPCMux name) (ReverseProxy u) v p r =
        (if HasPrefix (path r) ''/api/'' then newGRPCMux name (Some (edge_of i)) ?r1
         else ReverseProxy u (?r1\<lparr>hdr := injectIdentity i (stripSpoofedIdentity (hdr r))\<rparr>))"
      using Inr True by (simp add: cairnComposite_def Let_def entitled_def audienceOK_def inject_same)
    have "stripSpoofedIdentity (hdr r) (canonicalKey k) = []" if "k \<in> set (grpc_spoof @ cwb_headers)" for k
      using that by (auto simp: stripSpoofedIdentity_def Del_all_apply)
    then show ?thesis using i True by (auto simp: c newGRPCMux_def ReverseProxy_def git_lane_header)
  next
    case False
    have "\<exists>code. cairnComposite (newGRPCMux name) (ReverseProxy u) v p r = error_text 403 code"
    proof (cases "p \<in> set (Products i)")
      case True
      then have "\<not> audienceOK i p" "HasProduct (edge_of i) p" using False by (auto simp: entitled_def)
      then show ?thesis using Inr by (simp add: cairnComposite_def del: hasproduct_edge) blast
    next
      case False
      then have "\<not> HasProduct (edge_of i) p" by simp
      then show ?thesis using Inr by (simp add: cairnComposite_def del: hasproduct_edge) blast
    qed
    then obtain code where c: "cairnComposite (newGRPCMux name) (ReverseProxy u) v p r = error_text 403 code" by blast
    have "\<not> (verified v r j \<and> entitled j p)" for j using False u by blast
    then show ?thesis by (simp add: c error_text_def)
  qed
qed

text \<open>
  C18. The cairn edge has two lanes behind one check: a verified, entitled caller
  reaches cairn's gRPC API under \<open>/api/\<close> with its identity as metadata, and the git
  backend everywhere else with its identity as the \<open>X-CWB-*\<close> headers; nobody else
  reaches either.
\<close>

theorem cairn_gate:
  "case cairnComposite (newGRPCMux name) (ReverseProxy u) v p r of
     Rpc n md r' \<Rightarrow> n = name \<and> HasPrefix (path r) ''/api/''
       \<and> (\<exists>i. verified v r i \<and> entitled i p \<and> md = annotator (Some (edge_of i)))
       \<and> (\<forall>k \<in> set (grpc_spoof @ cwb_headers). hdr r' (canonicalKey k) = [])
   | Forward u' r' \<Rightarrow> u' = u \<and> \<not> HasPrefix (path r) ''/api/''
       \<and> (\<exists>i. verified v r i \<and> entitled i p \<and> (\<forall>k \<in> set trustedHeaders. hdr r' (canonicalKey k) =
           (if canonicalKey k \<in> canonicalKey ` set (connection_listed (hdr r)) then [] else identity_header i k)))
   | Respond resp \<Rightarrow> status resp \<in> {401, 403} \<and> \<not> (\<exists>i. verified v r i \<and> entitled i p)"
  by (rule cairn_decides)

section \<open>The surface without a token\<close>

lemma herald_decides:
  "case heraldComposite (newGRPCMux name) (ReverseProxy u) v r of
     Rpc n md r' \<Rightarrow> n = name \<and> (\<exists>i. verified v r i \<and> md = annotator (Some (edge_of i)))
   | Forward _ _ \<Rightarrow> \<not> herald_admin (path r)
   | Respond resp \<Rightarrow> status resp = 401 \<and> herald_admin (path r)"
proof (cases "edge_verify v r")
  case (Inl e)
  then show ?thesis using edge_verify_Inl [OF Inl]
    by (auto simp: heraldComposite_def error_text_def ReverseProxy_def)
next
  case (Inr i)
  then have "verified v r i" by (simp add: edge_verify_Inr)
  then show ?thesis using Inr by (auto simp: heraldComposite_def newGRPCMux_def ReverseProxy_def)
qed

lemma verified_path [simp]: "verified v (r\<lparr>path := p\<rparr>) i = verified v r i"
proof -
  have "bearer (r\<lparr>path := p\<rparr>) = bearer r" by (simp add: bearer_def)
  then show ?thesis by (simp add: verified_def split: option.split)
qed

text \<open>
  C17. What the gateway started by \<open>main\<close> with authentication on lets through: a pillar
  is called only for a verified token, with that identity's metadata, and the gated
  pillars only for an identity entitled to them; a backend is reached without a
  verified token only under a configured public path or on a non-admin path of herald.
\<close>

theorem gateway_surface:
  assumes "main_start p e = Inr g" "verify g = Some f"
  shows "case serve g r of
      Respond _ \<Rightarrow> True
    | Rpc name md r' \<Rightarrow> \<exists>i. verified (verify g) r i \<and> md = annotator (Some (edge_of i))
        \<and> (name \<in> {''commonplace'', ''ledger'', ''cairn''} \<longrightarrow> entitled i name)
    | Forward u r' \<Rightarrow> isPublic g (path r) \<or> (\<exists>i. verified (verify g) r i)
        \<or> (\<exists>rt rest. match g (path r) = Some (rt, rest) \<and> prefix rt = ''/herald'' \<and> \<not> herald_admin rest)"
proof (cases "match g (path r)")
  case None
  then show ?thesis by (simp add: serve_def error_text_def)
next
  case (Some m)
  obtain rt rest where m: "match g (path r) = Some (rt, rest)" using Some by (cases m) auto
  note st = started [OF assms(1)]
  show ?thesis
  proof (cases "target rt")
    case (Inl u)
    show ?thesis using serve_decides [OF m Inl] st assms(2)
      by (auto simp: verified_def split: reply.splits if_splits)
  next
    case (Inr h)
    have s: "serve g r = h (r\<lparr>path := rest\<rparr>)" using m Inr by (simp add: serve_def)
    have "known_edge (verify g) (prefix rt) h" using st match_route [OF m] Inr by force
    then consider (inject) name q where "(name, q) \<in> gates" "h = authInject (newGRPCMux name) (verify g) q"
      | (cairn) u where "h = cairnComposite (newGRPCMux ''cairn'') (ReverseProxy u) (verify g) ''cairn''"
      | (herald) u where "prefix rt = ''/herald''" "h = heraldComposite (newGRPCMux ''herald'') (ReverseProxy u) (verify g)"
      unfolding known_edge_def by blast
    then show ?thesis
    proof cases
      case inject
      then show ?thesis using authInject_decides [where name = name and v = "verify g" and p = q and r = "r\<lparr>path := rest\<rparr>"]
        unfolding s by (auto simp: gates_def split: reply.splits)
    next
      case cairn
      show ?thesis using cairn_decides [where name = "''cairn''" and u = u and v = "verify g" and p = "''cairn''" and r = "r\<lparr>path := rest\<rparr>"]
        unfolding s cairn by (auto split: reply.splits)
    next
      case herald
      show ?thesis using herald_decides [where name = "''herald''" and u = u and v = "verify g" and r = "r\<lparr>path := rest\<rparr>"] herald(1) m
        unfolding s herald(2) by (auto split: reply.splits)
    qed
  qed
qed

section \<open>Environment\<close>

text \<open>
  The drain timeout is positive and 25 seconds unless the environment names a
  valid positive duration.
\<close>

theorem shutdownTimeout_positive:
  "shutdownTimeout parseDur e > 0
   \<and> (shutdownTimeout parseDur e = 25 * 1000000000
      \<or> e ''INTERCHANGE_SHUTDOWN_TIMEOUT'' \<noteq> [] \<and> parseDur (e ''INTERCHANGE_SHUTDOWN_TIMEOUT'') = Some (shutdownTimeout parseDur e))"
  by (auto simp: shutdownTimeout_def Let_def split: option.splits)

end
