(* ===== verification/EdgeConfig.thy ===== *)
theory EdgeConfig
  imports EdgeFacts
begin

text \<open>
  The text formats of the gateway's environment: route lists, public paths, and the
  metadata the two lanes set for one identity.
\<close>

section \<open>Trimming\<close>

definition graphic :: "char \<Rightarrow> bool" where
  "graphic c \<longleftrightarrow> (let n = (of_char c :: nat) in 33 \<le> n \<and> n \<le> 126)"

lemma graphic_no_space:
  assumes "graphic c"
  shows "\<not> ascii_space c" "\<not> space2 c b" "\<not> space2 b c" "\<not> space3 c a b" "\<not> space3 a b c"
  using assms by (auto simp: graphic_def ascii_space_def space2_def space3_def Let_def)

lemma trim_front_id:
  assumes "\<not> ascii_space a" "\<And>b. \<not> f2 a b" "\<And>b c. \<not> f3 a b c"
  shows "trim_front f2 f3 (a # s) = a # s"
  using assms by (cases s; cases "tl s") auto

lemma TrimSpace_graphic:
  assumes "s \<noteq> []" "list_all graphic s"
  shows "TrimSpace s = s"
proof -
  have h: "graphic (hd s)" "graphic (hd (rev s))" using assms by (simp_all add: list_all_iff hd_rev)
  have "trim_front space2 space3 s = s"
    using trim_front_id [of "hd s" space2 space3 "tl s"] h(1) graphic_no_space assms(1) by simp
  moreover have "trim_front (\<lambda>b a. space2 a b) (\<lambda>c b a. space3 a b c) (rev s) = rev s"
    using trim_front_id [of "hd (rev s)" "\<lambda>b a. space2 a b" "\<lambda>c b a. space3 a b c" "tl (rev s)"] h(2) graphic_no_space assms(1)
    by simp
  ultimately show ?thesis by (simp add: TrimSpace_def)
qed

lemma TrimSpace_Nil [simp]: "TrimSpace [] = []"
  by (simp add: TrimSpace_def)

section \<open>Route lists\<close>

definition render_route :: "string \<times> string \<Rightarrow> string" where
  "render_route e = fst e @ ''='' @ snd e"

definition route_text :: "(string \<times> string) list \<Rightarrow> string" where
  "route_text rs = Join (map render_route rs) '',''"

definition plain_route :: "string \<times> string \<Rightarrow> bool" where
  "plain_route e \<longleftrightarrow> fst e \<noteq> [] \<and> snd e \<noteq> [] \<and> list_all graphic (fst e) \<and> list_all graphic (snd e)
     \<and> CHR '','' \<notin> set (fst e) \<and> CHR '','' \<notin> set (snd e) \<and> CHR ''='' \<notin> set (fst e)"

lemma Cut_append: "d \<notin> set k \<Longrightarrow> Cut d (k @ d # v) = Some (k, v)"
  by (induction k) auto

lemma Cut_Some: "Cut d s = Some (k, v) \<Longrightarrow> s = k @ d # v \<and> d \<notin> set k"
  by (induction d s arbitrary: k v rule: Cut.induct) (auto split: if_splits option.splits)

lemma map_put_fresh: "k \<notin> fst ` set m \<Longrightarrow> map_put k v m = m @ [(k, v)]"
  by (induction k v m rule: map_put.induct) auto

lemma map_of_map_put: "map_of (map_put k v m) = (map_of m)(k \<mapsto> v)"
  by (induction k v m rule: map_put.induct) (auto simp: fun_eq_iff)

lemma keys_map_put: "fst ` set (map_put k v m) = insert k (fst ` set m)"
  by (induction k v m rule: map_put.induct) auto

lemma distinct_map_put: "distinct (map fst m) \<Longrightarrow> distinct (map fst (map_put k v m))"
  by (induction k v m rule: map_put.induct) (auto simp: keys_map_put [unfolded image_iff] image_iff)

lemma graphic_sep: "graphic CHR ''=''" "graphic CHR '',''"
  by code_simp+

lemma plain_entry:
  assumes "plain_route e"
  shows "TrimSpace (render_route e) = render_route e" "render_route e \<noteq> []" "CHR '','' \<notin> set (render_route e)"
    "Cut CHR ''='' (render_route e) = Some e" "TrimSpace (fst e) = fst e" "TrimSpace (snd e) = snd e"
    "list_all graphic (render_route e)"
  using assms Cut_append [of "CHR ''=''" "fst e" "snd e"] graphic_sep
  by (auto simp: plain_route_def render_route_def TrimSpace_graphic)

lemma parse_plain:
  assumes "list_all plain_route rs" "distinct (map fst (out @ rs))"
  shows "parse_entries (map render_route rs) out = Inr (out @ rs)"
  using assms
proof (induction rs arbitrary: out)
  case (Cons e rs)
  note p = plain_entry [of e] and k = map_put_fresh [of "fst e" out "snd e"]
  have "parse_entries (map render_route (e # rs)) out = parse_entries (map render_route rs) (out @ [e])"
    using Cons.prems p k by (cases e) (auto simp: Let_def plain_route_def)
  then show ?case using Cons.IH [of "out @ [e]"] Cons.prems by simp
qed simp

text \<open>
  Route lists round trip: printing distinct, plain routes as
  \<open>prefix=backend,prefix=backend\<close> and parsing the text gives the same routes.
\<close>

theorem parseRoutes_roundtrip:
  assumes "list_all plain_route rs" "distinct (map fst rs)"
  shows "parseRoutes (route_text rs) = Inr rs"
proof (cases "rs = []")
  case True
  then show ?thesis by (simp add: parseRoutes_def route_text_def)
next
  case False
  have sp: "Split CHR '','' (route_text rs) = map render_route rs"
    unfolding route_text_def by (rule Split_Join) (use assms(1) plain_entry(3) False in \<open>auto simp: list_all_iff\<close>)
  have g: "list_all graphic (Join ss '','')" if "\<forall>s \<in> set ss. list_all graphic s" for ss
    using that by (induction ss "'',''" rule: Join.induct) (auto simp: graphic_sep)
  have "list_all graphic (route_text rs)"
    unfolding route_text_def by (rule g) (use assms(1) plain_entry(7) in \<open>auto simp: list_all_iff\<close>)
  moreover have "route_text rs \<noteq> []"
  proof
    assume "route_text rs = []"
    then have "map render_route rs = [[]]" using sp by simp
    then show False using False plain_entry(2) [of "hd rs"] assms(1) by (cases rs) auto
  qed
  ultimately have "TrimSpace (route_text rs) = route_text rs" by (rule TrimSpace_graphic [rotated])
  then show ?thesis using parse_plain [of rs "[]"] assms sp \<open>route_text rs \<noteq> []\<close>
    by (simp add: parseRoutes_def)
qed

theorem parseRoutes_roundtrip_witness:
  "parseRoutes (route_text [(''/herald'', ''http://herald:8099''), (''/cairn'', ''http://cairn:3000'')])
     = Inr [(''/herald'', ''http://herald:8099''), (''/cairn'', ''http://cairn:3000'')]"
  by (rule parseRoutes_roundtrip) code_simp+

text \<open>What parsing accepts.\<close>

lemma parse_entries_Inr:
  assumes "parse_entries es out = Inr m" "distinct (map fst out)" "\<forall>(k, v) \<in> set out. k \<noteq> [] \<and> v \<noteq> []"
  shows "distinct (map fst m) \<and> (\<forall>(k, v) \<in> set m. k \<noteq> [] \<and> v \<noteq> [])"
proof -
  have mem: "set (map_put k v m) \<subseteq> insert (k, v) (set m)" for k v m
    by (induction k v m rule: map_put.induct) auto
  show ?thesis using assms
  proof (induction es out rule: parse_entries.induct)
    case (2 e es out)
    show ?case
    proof (cases "TrimSpace e = []")
      case True
      then show ?thesis using 2 by (simp add: Let_def)
    next
      case False
      then obtain k v where kv: "Cut CHR ''='' (TrimSpace e) = Some (k, v)" "TrimSpace k \<noteq> []" "TrimSpace v \<noteq> []"
        "parse_entries es (map_put (TrimSpace k) (TrimSpace v) out) = Inr m"
        using "2.prems"(1) by (auto simp: Let_def split: option.splits prod.splits if_splits)
      have "\<forall>(k', v') \<in> set (map_put (TrimSpace k) (TrimSpace v) out). k' \<noteq> [] \<and> v' \<noteq> []"
        using mem [of "TrimSpace k" "TrimSpace v" out] "2.prems"(3) kv by auto
      then show ?thesis using "2.IH"(2) [OF refl False kv(1)] kv distinct_map_put "2.prems"(2) by auto
    qed
  qed simp
qed

text \<open>
  A route list that parses has distinct, non-empty prefixes and non-empty backends.
\<close>

theorem parseRoutes_sound:
  assumes "parseRoutes s = Inr m"
  shows "distinct (map fst m) \<and> list_all (\<lambda>e. fst e \<noteq> [] \<and> snd e \<noteq> []) m"
proof -
  have "parse_entries (Split CHR '','' (TrimSpace s)) [] = Inr m \<or> m = []"
    using assms by (auto simp: parseRoutes_def Let_def split: if_splits sum.splits)
  then show ?thesis using parse_entries_Inr [of "Split CHR '','' (TrimSpace s)" "[]" m]
    by (auto simp: list_all_iff split_beta)
qed

theorem parseRoutes_sound_witness:
  "distinct (map fst [(''/a'', ''u'')]) \<and> list_all (\<lambda>e. fst e \<noteq> [] \<and> snd e \<noteq> []) [(''/a'', ''u'')]"
  by (rule parseRoutes_sound [of "'' /a = u ,, ''"]) code_simp

section \<open>Metadata\<close>

text \<open>
  The two ways to carry an identity agree: the annotator sets what
  \<open>OutgoingContext\<close> sets, except that it leaves out empty scope and product lists.
\<close>

theorem annotator_outgoing:
  "annotator (Some i) = Some (filter (\<lambda>e. \<not> (fst e = ''cwb-scopes'' \<and> eScopes i = []) \<and> \<not> (fst e = ''cwb-products'' \<and> eProducts i = []))
     (OutgoingContext i))"
  by (simp add: annotator_def OutgoingContext_def)

text \<open>
  Stripping leaves no client-supplied identity key and touches no other, for any
  metadata whose \<open>Delete\<close> removes the key it is given and keeps the rest.
\<close>

theorem StripClientMetadata_exact:
  assumes "\<And>md k l. k \<in> set cwbMetaKeys \<Longrightarrow> md_get (md_delete md k) l = (if k = l then [] else md_get md l)"
  shows "md_get (StripClientMetadata md_delete md) l = (if l \<in> set cwbMetaKeys then [] else md_get md l)"
proof -
  have "md_get (foldl md_delete md ks) l = (if l \<in> set ks then [] else md_get md l)" if "set ks \<subseteq> set cwbMetaKeys" for ks
    using that by (induction ks arbitrary: md) (auto simp: assms)
  then show ?thesis by (simp add: StripClientMetadata_def)
qed

theorem StripClientMetadata_exact_witness:
  "(StripClientMetadata (\<lambda>md k. md(k := [])) (\<lambda>_. [''forged''])) ''cwb-org'' = ([] :: string list)"
  using StripClientMetadata_exact [of "\<lambda>md. md" "\<lambda>md k. md(k := [])" "\<lambda>_. [''forged'']" "''cwb-org''"]
  by (simp add: cwbMetaKeys_def)

end
