(* ===== verification/GoFlag.thy ===== *)
theory GoFlag
  imports GoTime
begin

text \<open>
  Go's \<open>flag\<close> package and the text of durations (\<open>time.ParseDuration\<close>,
  \<open>Duration.String\<close>), as the commands use them.
\<close>

section \<open>time.ParseDuration\<close>

definition unitMap :: "(string \<times> nat) list" where
  "unitMap =
     [(''ns'', 1), (''us'', 1000), ([CHR 0xC2, CHR 0xB5, CHR ''s''], 1000), ([CHR 0xCE, CHR 0xBC, CHR ''s''], 1000),
      (''ms'', 1000000), (''s'', 1000000000), (''m'', 60000000000), (''h'', 3600000000000)]"

text \<open>The leading digits and the rest; None when they exceed \<open>2 ^ 63\<close>.\<close>

fun leadingInt :: "string \<Rightarrow> nat \<Rightarrow> (nat \<times> string) option" where
  "leadingInt [] x = Some (x, [])"
| "leadingInt (c # s) x =
     (case digit_val c of
        None \<Rightarrow> Some (x, c # s)
      | Some d \<Rightarrow> if x > 2 ^ 63 div 10 \<or> x * 10 + d > 2 ^ 63 then None else leadingInt s (x * 10 + d))"

text \<open>The digits of a fraction that fit, their number, and the rest.\<close>

fun leadingFraction :: "string \<Rightarrow> nat \<Rightarrow> nat \<Rightarrow> bool \<Rightarrow> nat \<times> nat \<times> string" where
  "leadingFraction [] x k overflow = (x, k, [])"
| "leadingFraction (c # s) x k overflow =
     (case digit_val c of
        None \<Rightarrow> (x, k, c # s)
      | Some d \<Rightarrow>
          if overflow \<or> x > (2 ^ 63 - 1) div 10 \<or> x * 10 + d > 2 ^ 63 then leadingFraction s x k True
          else leadingFraction s (x * 10 + d) (Suc k) False)"

definition unit_char :: "char \<Rightarrow> bool" where
  "unit_char c \<longleftrightarrow> c \<noteq> CHR ''.'' \<and> \<not> is_digit c"

definition take_fraction :: "string \<Rightarrow> nat \<times> nat \<times> string" where
  "take_fraction s = (case s of c # r \<Rightarrow> if c = CHR ''.'' then leadingFraction r 0 0 False else (0, 0, s) | [] \<Rightarrow> (0, 0, s))"

text \<open>
  One term, its nanoseconds and the rest.  \<open>flt f k unit\<close> is
  \<open>float64(f) * (float64(unit) / scale)\<close> for the scale \<open>10 ^ k\<close>, cut to an integer:
  floating-point arithmetic is not modelled.  A point without a digit on either side
  is an error.
\<close>

definition duration_term :: "(nat \<Rightarrow> nat \<Rightarrow> nat \<Rightarrow> nat) \<Rightarrow> string \<Rightarrow> (nat \<times> string) option" where
  "duration_term flt s =
     (case leadingInt s 0 of None \<Rightarrow> None
      | Some (v, s1) \<Rightarrow>
          (case take_fraction s1 of (f, k, s2) \<Rightarrow>
             if length s1 = length s \<and> length s2 + 1 \<ge> length s1 then None
             else (let u = takeWhile unit_char s2; r = dropWhile unit_char s2 in
               if u = [] then None
               else (case map_of unitMap u of None \<Rightarrow> None
                 | Some unit \<Rightarrow>
                     if v > 2 ^ 63 div unit then None
                     else (let n = (if f > 0 then (v * unit + flt f k unit) mod 2 ^ 64 else v * unit) in
                       if f > 0 \<and> n > 2 ^ 63 then None else Some (n, r))))))"

lemma leadingInt_length: "leadingInt s x = Some (v, r) \<Longrightarrow> length r \<le> length s"
  by (induction s x rule: leadingInt.induct) (auto split: option.splits if_splits)

lemma leadingFraction_length: "leadingFraction s x k b = (f, n, r) \<Longrightarrow> length r \<le> length s"
  by (induction s x k b rule: leadingFraction.induct) (auto split: option.splits if_splits)

lemma duration_term_length: "duration_term flt s = Some (n, r) \<Longrightarrow> length r < length s"
proof -
  assume a: "duration_term flt s = Some (n, r)"
  then obtain v s1 where 1: "leadingInt s 0 = Some (v, s1)"
    by (auto simp: duration_term_def split: option.splits)
  obtain f k s2 where 2: "take_fraction s1 = (f, k, s2)" by (cases "take_fraction s1")
  have "takeWhile unit_char s2 \<noteq> []" "r = dropWhile unit_char s2"
    using a 1 2 by (auto simp: duration_term_def Let_def split: option.splits if_splits)
  moreover have "length (takeWhile unit_char s2) + length (dropWhile unit_char s2) = length s2"
    by (metis length_append takeWhile_dropWhile_id)
  moreover have "length s2 \<le> length s1"
    using 2 leadingFraction_length by (fastforce simp: take_fraction_def split: list.splits if_splits)
  ultimately show ?thesis using leadingInt_length [OF 1] by (cases "takeWhile unit_char s2") auto
qed

text \<open>The sum of the terms, a \<open>uint64\<close>.\<close>

function duration_terms :: "(nat \<Rightarrow> nat \<Rightarrow> nat \<Rightarrow> nat) \<Rightarrow> string \<Rightarrow> nat \<Rightarrow> nat option" where
  "duration_terms flt s d =
     (if s = [] then Some d
      else (case duration_term flt s of None \<Rightarrow> None
        | Some (n, r) \<Rightarrow> let d' = (d + n) mod 2 ^ 64 in if d' > 2 ^ 63 then None else duration_terms flt r d'))"
  by pat_completeness auto
termination
  by (relation "measure (\<lambda>(_, s, _). length s)") (auto intro: duration_term_length)

declare duration_terms.simps [simp del]

definition ParseDuration :: "(nat \<Rightarrow> nat \<Rightarrow> nat \<Rightarrow> nat) \<Rightarrow> string \<Rightarrow> duration option" where
  "ParseDuration flt s =
     (let neg = (case s of c # _ \<Rightarrow> c = CHR ''-'' | [] \<Rightarrow> False);
          t = (case s of c # r \<Rightarrow> if c = CHR ''-'' \<or> c = CHR ''+'' then r else s | [] \<Rightarrow> []) in
      if t = ''0'' then Some 0
      else if t = [] then None
      else (case duration_terms flt t 0 of None \<Rightarrow> None
        | Some d \<Rightarrow> if neg then Some (- int d) else if d > 2 ^ 63 - 1 then None else Some (int d)))"

section \<open>Duration.String\<close>

text \<open>\<open>fmtFrac\<close>: the last \<open>prec\<close> digits as a fraction without trailing zeros, and the rest.\<close>

fun fmtFrac :: "nat \<Rightarrow> nat \<Rightarrow> bool \<Rightarrow> string \<Rightarrow> string \<times> nat" where
  "fmtFrac 0 v p acc = (if p then CHR ''.'' # acc else acc, v)"
| "fmtFrac (Suc n) v p acc =
     (let d = v mod 10; p' = (p \<or> d \<noteq> 0) in fmtFrac n (v div 10) p' (if p' then digit_char d # acc else acc))"

definition with_frac :: "nat \<Rightarrow> nat \<Rightarrow> string \<Rightarrow> string" where
  "with_frac prec u unit = (case fmtFrac prec u False [] of (fr, v) \<Rightarrow> dec v @ fr @ unit)"

definition Duration_abs_String :: "nat \<Rightarrow> string" where
  "Duration_abs_String u =
     (if u = 0 then ''0s''
      else if u < 1000 then dec u @ ''ns''
      else if u < 1000000 then with_frac 3 u [CHR 0xC2, CHR 0xB5, CHR ''s'']
      else if u < 1000000000 then with_frac 6 u ''ms''
      else (case fmtFrac 9 u False [] of (fr, s) \<Rightarrow>
         (if s div 60 = 0 then []
          else (if s div 3600 = 0 then [] else dec (s div 3600) @ ''h'') @ dec (s div 60 mod 60) @ ''m'')
         @ dec (s mod 60) @ fr @ ''s''))"

definition Duration_String :: "duration \<Rightarrow> string" where
  "Duration_String d = (if d < 0 then ''-'' else []) @ Duration_abs_String (nat \<bar>d\<bar>)"

section \<open>The printed duration is parsed back\<close>

text \<open>Floating-point arithmetic is exact where every number in it is a small integer.\<close>

definition exact_frac :: "(nat \<Rightarrow> nat \<Rightarrow> nat \<Rightarrow> nat) \<Rightarrow> bool" where
  "exact_frac flt \<longleftrightarrow>
     (\<forall>f k unit. 10 ^ k dvd unit \<longrightarrow> f * (unit div 10 ^ k) < 2 ^ 53 \<longrightarrow> flt f k unit = f * (unit div 10 ^ k))"


lemma dec_neq_Nil [simp]: "dec n \<noteq> []"
  by (subst dec.simps) simp

lemma not_unit_digit [simp]: "n < 10 \<Longrightarrow> \<not> unit_char (digit_char n)"
  by (simp add: unit_char_def is_digit_def)

lemma leadingInt_dec: "n \<le> 2 ^ 63 \<Longrightarrow> leadingInt (dec n @ r) 0 = leadingInt r n"
proof (induction n arbitrary: r rule: dec.induct)
  case (1 n)
  show ?case
  proof (cases "n < 10")
    case True
    then show ?thesis by (subst dec.simps) simp
  next
    case False
    have "n div 10 \<le> 2 ^ 63" "n div 10 \<le> 2 ^ 63 div 10" using 1(2) div_le_mono [OF 1(2), of 10] by auto
    then have "leadingInt (dec (n div 10) @ digit_char (n mod 10) # r) 0 = leadingInt (digit_char (n mod 10) # r) (n div 10)"
      using 1(1) [OF False] by blast
    moreover have "n div 10 * 10 + n mod 10 = n" by simp
    moreover have "dec n = dec (n div 10) @ [digit_char (n mod 10)]" using False by (subst dec.simps) simp
    ultimately show ?thesis using \<open>n div 10 \<le> 2 ^ 63 div 10\<close> 1(2) by simp
  qed
qed

lemma leadingInt_stop: "r = [] \<or> unit_char (hd r) \<or> hd r = CHR ''.'' \<Longrightarrow> leadingInt r n = Some (n, r)"
  by (cases r) (auto simp: unit_char_def is_digit_def digit_val_def)

lemma leadingInt_run:
  "n \<le> 2 ^ 63 \<Longrightarrow> r = [] \<or> unit_char (hd r) \<or> hd r = CHR ''.'' \<Longrightarrow> leadingInt (dec n @ r) 0 = Some (n, r)"
  by (simp only: leadingInt_dec leadingInt_stop)

lemma leadingFraction_stop: "r = [] \<or> unit_char (hd r) \<Longrightarrow> leadingFraction r x k b = (x, k, r)"
  by (cases r) (auto simp: unit_char_def is_digit_def)

lemma leadingFraction_pad: "k \<le> 18 \<Longrightarrow> leadingFraction (pad k w @ r) 0 0 False = leadingFraction r (w mod 10 ^ k) k False"
proof (induction k arbitrary: w r)
  case (Suc k)
  let ?q = "w div 10 mod 10 ^ k"
  have eq: "?q * 10 + w mod 10 = w mod 10 ^ Suc k" by (simp add: mod_mult2_eq algebra_simps)
  have "w mod 10 ^ Suc k < 10 ^ Suc k" by simp
  moreover have "(10 :: nat) ^ Suc k \<le> 10 ^ 18" using Suc.prems by (intro power_increasing) auto
  moreover have "(10 :: nat) ^ 18 \<le> 2 ^ 63 - 10" by simp
  ultimately have "?q * 10 + w mod 10 \<le> 2 ^ 63 - 10" unfolding eq by linarith
  then have "?q \<le> (2 ^ 63 - 1) div 10" "?q * 10 + w mod 10 \<le> 2 ^ 63" by auto
  then show ?case using Suc.IH [of "w div 10" "digit_char (w mod 10) # r"] Suc.prems eq by simp
qed simp

lemma fmtFrac_True: "fmtFrac n v True acc = (CHR ''.'' # pad n v @ acc, v div 10 ^ n)"
  by (induction n arbitrary: v acc) (simp_all add: div_mult2_eq)

lemma fmtFrac_cases:
  obtains "fmtFrac n v False [] = ([], v div 10 ^ n)" "10 ^ n dvd v"
  | j k where "n = j + k" "0 < k" "10 ^ j dvd v" "fmtFrac n v False [] = (CHR ''.'' # pad k (v div 10 ^ j), v div 10 ^ n)"
proof (induction n arbitrary: v thesis)
  case 0
  then show ?case by simp
next
  case (Suc n)
  show ?case
  proof (cases "v mod 10 = 0")
    case False
    then show ?thesis by (intro Suc.prems(2) [of 0 "Suc n"]) (auto simp: fmtFrac_True div_mult2_eq)
  next
    case True
    then have v: "v = 10 * (v div 10)" by auto
    show ?thesis
    proof (rule Suc.IH [of "v div 10"])
      assume "fmtFrac n (v div 10) False [] = ([], v div 10 div 10 ^ n)" "10 ^ n dvd v div 10"
      then show ?thesis using True v by (intro Suc.prems(1)) (auto simp: div_mult2_eq intro: mult_dvd_mono)
    next
      fix j k assume "n = j + k" "0 < k" "10 ^ j dvd v div 10"
        "fmtFrac n (v div 10) False [] = (CHR ''.'' # pad k (v div 10 div 10 ^ j), v div 10 div 10 ^ n)"
      then show ?thesis using True v by (intro Suc.prems(2) [of "Suc j" k]) (auto simp: div_mult2_eq intro: mult_dvd_mono)
    qed
  qed
qed

text \<open>What may follow a term: nothing, or the next number.\<close>

definition term_end :: "string \<Rightarrow> bool" where
  "term_end r \<longleftrightarrow> (case r of [] \<Rightarrow> True | c # _ \<Rightarrow> \<not> unit_char c)"

lemma term_end_simps [simp]: "term_end []" "term_end (dec n @ r)" "term_end (dec n)"
proof -
  have "\<exists>c t. dec n = c # t \<and> \<not> unit_char c" for n
    by (induction n rule: dec.induct) (metis append_Cons dec.simps mod_less_divisor not_unit_digit zero_less_numeral)
  then obtain c t where "dec n = c # t" "\<not> unit_char c" by blast
  then show "term_end []" "term_end (dec n @ r)" "term_end (dec n)" by (simp_all add: term_end_def)
qed

definition unit_text :: "string \<Rightarrow> bool" where
  "unit_text u \<longleftrightarrow> u \<noteq> [] \<and> list_all unit_char u"

lemma unit_texts [simp]: "unit_text ''ns''" "unit_text [CHR 0xC2, CHR 0xB5, CHR ''s'']" "unit_text ''ms''" "unit_text ''s''"
  "unit_text ''m''" "unit_text ''h''"
  by (simp_all add: unit_text_def unit_char_def is_digit_def digit_val_def)

lemma unit_split:
  assumes "unit_text u" "term_end r"
  shows "takeWhile unit_char (u @ r) = u" "dropWhile unit_char (u @ r) = r"
  using assms by (cases r; auto simp: unit_text_def term_end_def list_all_iff takeWhile_append2 dropWhile_append2)+

lemma whole_term:
  assumes "unit_text u" "term_end r" "map_of unitMap u = Some k" "0 < k" "v * k \<le> 2 ^ 63"
  shows "duration_term flt (dec v @ u @ r) = Some (v * k, r)"
proof -
  have v: "v \<le> 2 ^ 63 div k" using div_le_mono [OF assms(5), of k] assms(4) by simp
  then have "v \<le> 2 ^ 63" using div_le_dividend [of "2 ^ 63" k] by (rule order_trans)
  moreover obtain c t where u: "u = c # t" "unit_char c" using assms(1) by (cases u) (auto simp: unit_text_def)
  ultimately have "leadingInt (dec v @ u @ r) 0 = Some (v, u @ r)" by (intro leadingInt_run) auto
  moreover have "take_fraction (u @ r) = (0, 0, u @ r)" using u by (auto simp: take_fraction_def unit_char_def)
  ultimately show ?thesis using v u unit_split [OF assms(1,2)] assms(3) by (simp add: duration_term_def Let_def)
qed

lemma frac_term:
  assumes "unit_text u" "term_end r" "map_of unitMap u = Some (10 ^ n)" "exact_frac flt" "w \<le> 2 ^ 63" "n \<le> 9"
    and f: "fmtFrac n w False [] = (fr, v)"
  shows "duration_term flt (dec v @ fr @ u @ r) = Some (w, r)"
proof (rule fmtFrac_cases [of n w])
  assume "fmtFrac n w False [] = ([], w div 10 ^ n)" "10 ^ n dvd w"
  then show ?thesis using whole_term [OF assms(1,2,3), of v flt] f assms(5) by simp
next
  fix j k assume a: "n = j + k" "0 < k" "10 ^ j dvd w" "fmtFrac n w False [] = (CHR ''.'' # pad k (w div 10 ^ j), w div 10 ^ n)"
  let ?m = "w div 10 ^ j mod 10 ^ k"
  have fr: "fr = CHR ''.'' # pad k (w div 10 ^ j)" and v: "v = w div 10 ^ n" using a(4) f by auto
  have m: "?m * 10 ^ j = w mod 10 ^ n" using a(3) by (auto simp: a(1) power_add mod_mult2_eq dvd_def)
  have "w mod 10 ^ n < 10 ^ n" by simp
  also have "(10 :: nat) ^ n \<le> 10 ^ 9" using assms(6) by (intro power_increasing) auto
  finally have "?m * 10 ^ j < 2 ^ 53" unfolding m by simp
  then have e: "flt ?m k (10 ^ n) = w mod 10 ^ n" using assms(4) m unfolding exact_frac_def by (simp add: a(1) power_add)
  have vl: "v \<le> 2 ^ 63 div 10 ^ n" unfolding v by (rule div_le_mono [OF assms(5)])
  then have "v \<le> 2 ^ 63" using div_le_dividend [of "2 ^ 63" "10 ^ n"] by (rule order_trans)
  then have i: "leadingInt (dec v @ fr @ u @ r) 0 = Some (v, fr @ u @ r)"
    by (intro leadingInt_run) (simp_all add: fr)
  have "unit_char (hd (u @ r))" "u \<noteq> []" using assms(1) by (cases u; auto simp: unit_text_def)+
  then have t: "take_fraction (fr @ u @ r) = (?m, k, u @ r)"
    using a(1) assms(6) by (simp add: take_fraction_def fr leadingFraction_pad leadingFraction_stop)
  have w: "v * 10 ^ n + w mod 10 ^ n = w" unfolding v by (rule div_mult_mod_eq)
  then have "?m = 0 \<Longrightarrow> v * 10 ^ n = w" using m by simp
  then show ?thesis using i t vl unit_split [OF assms(1,2)] assms(3,5) e w a(2) \<open>u \<noteq> []\<close>
    by (simp add: duration_term_def Let_def fr)
qed

lemma terms_end: "duration_terms flt [] d = Some d"
  by (simp add: duration_terms.simps)

lemma terms_step:
  "duration_term flt s = Some (n, r) \<Longrightarrow> s \<noteq> [] \<Longrightarrow> d + n \<le> 2 ^ 63 \<Longrightarrow> duration_terms flt s d = duration_terms flt r (d + n)"
  by (subst duration_terms.simps) simp

lemma terms_whole:
  assumes "unit_text u" "term_end r" "map_of unitMap u = Some k" "0 < k" "d + v * k \<le> 2 ^ 63"
  shows "duration_terms flt (dec v @ u @ r) d = duration_terms flt r (d + v * k)"
  by (rule terms_step [OF whole_term [OF assms(1-4)]]) (use assms(5) in auto)

lemma terms_frac:
  assumes "unit_text u" "map_of unitMap u = Some (10 ^ n)" "exact_frac flt" "d + w \<le> 2 ^ 63" "n \<le> 9"
    and "fmtFrac n w False [] = (fr, v)"
  shows "duration_terms flt (dec v @ fr @ u) d = Some (d + w)"
  using terms_step [OF frac_term [OF assms(1) _ assms(2,3) _ assms(5,6), of "[]"]] assms(4) by (simp add: terms_end)

lemma fmtFrac_add:
  "fmtFrac n (a * 10 ^ n + b) False [] = (fst (fmtFrac n b False []), a + snd (fmtFrac n b False []))"
proof -
  have "fmtFrac n (a * 10 ^ n + b) p acc = (fst (fmtFrac n b p acc), a + snd (fmtFrac n b p acc))" for p acc
    by (induction n arbitrary: a b p acc)
      (simp_all add: Let_def mod_add_left_eq [symmetric] div_add1_eq mult.assoc [symmetric] mod_mult_self3 mult.commute)
  then show ?thesis by blast
qed

lemma abs_String_parses:
  assumes "exact_frac flt" "u \<le> 2 ^ 63" "u \<noteq> 0"
  shows "duration_terms flt (Duration_abs_String u) 0 = Some u"
proof -
  consider "u < 1000" | "1000 \<le> u" "u < 1000000" | "1000000 \<le> u" "u < 1000000000" | "1000000000 \<le> u" by linarith
  then show ?thesis
  proof cases
    case 1
    then show ?thesis using terms_whole [of "''ns''" "[]" 1 0 u flt] assms(2,3)
      by (simp add: Duration_abs_String_def unitMap_def terms_end)
  next
    case 2
    obtain fr v where f: "fmtFrac 3 u False [] = (fr, v)" by fastforce
    show ?thesis using terms_frac [OF _ _ assms(1) _ _ f, of "[CHR 0xC2, CHR 0xB5, CHR ''s'']" 0] assms(2) 2 f
      by (simp add: Duration_abs_String_def with_frac_def unitMap_def)
  next
    case 3
    obtain fr v where f: "fmtFrac 6 u False [] = (fr, v)" by fastforce
    show ?thesis using terms_frac [OF _ _ assms(1) _ _ f, of "''ms''" 0] assms(2) 3 f
      by (simp add: Duration_abs_String_def with_frac_def unitMap_def)
  next
    case 4
    define s where "s = u div 10 ^ 9"
    define w where "w = s mod 60 * 10 ^ 9 + u mod 10 ^ 9"
    have "u = s * 10 ^ 9 + u mod 10 ^ 9" unfolding s_def by (rule div_mult_mod_eq [symmetric])
    moreover have "s * 10 ^ 9 = (s div 60 * 60 + s mod 60) * 10 ^ 9" by (simp only: div_mult_mod_eq)
    ultimately have u: "u = s div 60 * 60 * 10 ^ 9 + w" unfolding w_def by (simp only: add_mult_distrib add.assoc)
    obtain fr where fr: "fmtFrac 9 (u mod 10 ^ 9) False [] = (fr, 0)" using fmtFrac_cases [of 9 "u mod 10 ^ 9"] by fastforce
    have f: "fmtFrac 9 u False [] = (fr, s)" using fmtFrac_add [of 9 s "u mod 10 ^ 9"] fr by (simp add: s_def)
    have fw: "fmtFrac 9 w False [] = (fr, s mod 60)" using fmtFrac_add [of 9 "s mod 60" "u mod 10 ^ 9"] fr by (simp add: w_def)
    have secs: "duration_terms flt (dec (s mod 60) @ fr @ ''s'') d = Some (d + w)" if "d + w \<le> 2 ^ 63" for d
      using terms_frac [OF _ _ assms(1) that _ fw, of "''s''"] by (simp add: unitMap_def)
    have mins: "duration_terms flt (dec (s div 60 mod 60) @ ''m'' @ dec (s mod 60) @ fr @ ''s'') d = Some (d + s div 60 mod 60 * 60000000000 + w)"
      if "d + s div 60 mod 60 * 60000000000 + w \<le> 2 ^ 63" for d
      using terms_whole [of "''m''" "dec (s mod 60) @ fr @ ''s''" 60000000000 d "s div 60 mod 60" flt] secs that by (simp add: unitMap_def)
    have split: "s div 60 * 60 * 10 ^ 9 = s div 3600 * 3600000000000 + s div 60 mod 60 * 60000000000"
      using div_mult_mod_eq [of "s div 60" 60] by (simp add: div_mult2_eq [symmetric])
    have hours: "duration_terms flt (dec (s div 3600) @ ''h'' @ dec (s div 60 mod 60) @ ''m'' @ dec (s mod 60) @ fr @ ''s'') 0 = Some u"
      using terms_whole [of "''h''" "dec (s div 60 mod 60) @ ''m'' @ dec (s mod 60) @ fr @ ''s''" 3600000000000 0 "s div 3600" flt]
        mins [of "s div 3600 * 3600000000000"] assms(2) u split by (simp add: unitMap_def)
    have t: "Duration_abs_String u = (if s div 60 = 0 then [] else (if s div 3600 = 0 then [] else dec (s div 3600) @ ''h'')
        @ dec (s div 60 mod 60) @ ''m'') @ dec (s mod 60) @ fr @ ''s''"
      using 4 f by (simp add: Duration_abs_String_def)
    consider "s div 60 = 0" | "s div 60 \<noteq> 0" "s div 3600 = 0" | "s div 3600 \<noteq> 0" by blast
    then show ?thesis
      by cases (use t secs [of 0] mins [of 0] hours u split assms(2) in \<open>simp_all add: div_eq_0_iff\<close>)
  qed
qed

lemma terms_signed: "c = CHR ''-'' \<or> c = CHR ''+'' \<Longrightarrow> duration_terms flt (c # t) d = None"
  by (subst duration_terms.simps) (auto simp: duration_term_def take_fraction_def digit_val_def)

lemma terms_zero: "duration_terms flt ''0'' d = None"
  by (subst duration_terms.simps) (simp add: duration_term_def take_fraction_def digit_val_def)

lemma terms_0s: "duration_terms flt ''0s'' 0 = Some 0"
proof -
  have "dec 0 = ''0''" by code_simp
  then show ?thesis using terms_whole [of "''s''" "[]" 1000000000 0 0 flt] by (simp add: unitMap_def terms_end)
qed

lemma Parse_unsigned:
  assumes "duration_terms flt s 0 = Some u" "s \<noteq> []"
  shows "ParseDuration flt s = (if u > 2 ^ 63 - 1 then None else Some (int u))" "ParseDuration flt (CHR ''-'' # s) = Some (- int u)"
proof -
  obtain c t where s: "s = c # t" "c \<noteq> CHR ''-''" "c \<noteq> CHR ''+''"
    using assms terms_signed by (metis neq_Nil_conv option.distinct(1))
  moreover have "s \<noteq> ''0''" using assms(1) terms_zero by auto
  ultimately show "ParseDuration flt s = (if u > 2 ^ 63 - 1 then None else Some (int u))"
    "ParseDuration flt (CHR ''-'' # s) = Some (- int u)"
    using assms(1) unfolding s(1) by (simp_all add: ParseDuration_def Let_def del: de_Morgan_conj)
qed

lemma Duration_String_parses:
  assumes "exact_frac flt" "minDuration \<le> d" "d \<le> maxDuration"
  shows "ParseDuration flt (Duration_String d) = Some d"
proof (cases "d = 0")
  case True
  then show ?thesis using Parse_unsigned(1) [OF terms_0s, of flt] by (simp add: Duration_String_def Duration_abs_String_def)
next
  case False
  let ?u = "nat \<bar>d\<bar>"
  have u: "?u \<le> 2 ^ 63" "?u \<noteq> 0" "0 < d \<Longrightarrow> \<not> ?u > 2 ^ 63 - 1" using assms(2,3) False by (auto simp: minDuration_def maxDuration_def)
  note t = abs_String_parses [OF assms(1) u(1,2)]
  have "Duration_abs_String ?u \<noteq> []" using t u(2) by (auto simp: terms_end)
  note p = Parse_unsigned [OF t this]
  show ?thesis using p u(3) False by (cases "d < 0") (auto simp: Duration_String_def)
qed

section \<open>The flag package\<close>

text \<open>
  A defined flag: its name, whether it is boolean, and its \<open>Set\<close> on the variables.
  \<open>parse_flags\<close> is \<open>FlagSet.Parse\<close>: what the arguments set and what is left of them, or
  the reason it stops.
\<close>

record 'c flag =
  flagName :: string
  isBoolFlag :: bool
  setter :: "string \<Rightarrow> 'c \<Rightarrow> 'c option"

datatype flag_error = HelpRequested | BadSyntax string | Undefined string | NeedsArgument string | BadValue string string

definition flag_name :: "string \<Rightarrow> string \<times> string option" where
  "flag_name s = (case Cut CHR ''='' s of None \<Rightarrow> (s, None) | Some (n, v) \<Rightarrow> (n, Some v))"

fun parse_flags :: "'c flag list \<Rightarrow> string list \<Rightarrow> 'c \<Rightarrow> flag_error + 'c \<times> string list" where
  "parse_flags fs [] c = Inr (c, [])"
| "parse_flags fs (s # args) c =
     (if length s < 2 \<or> hd s \<noteq> CHR ''-'' then Inr (c, s # args)
      else if s = ''--'' then Inr (c, args)
      else let name = (if s ! 1 = CHR ''-'' then drop 2 s else drop 1 s) in
      if name = [] \<or> hd name = CHR ''-'' \<or> hd name = CHR ''='' then Inl (BadSyntax s)
      else (case flag_name name of (n, v) \<Rightarrow>
        (case find (\<lambda>f. flagName f = n) fs of
           None \<Rightarrow> Inl (if n = ''help'' \<or> n = ''h'' then HelpRequested else Undefined n)
         | Some f \<Rightarrow>
             if isBoolFlag f then
               (let x = (case v of None \<Rightarrow> ''true'' | Some x \<Rightarrow> x) in
                case setter f x c of None \<Rightarrow> Inl (BadValue x n) | Some c' \<Rightarrow> parse_flags fs args c')
             else (case v of
               Some x \<Rightarrow> (case setter f x c of None \<Rightarrow> Inl (BadValue x n) | Some c' \<Rightarrow> parse_flags fs args c')
             | None \<Rightarrow> (case args of [] \<Rightarrow> Inl (NeedsArgument n)
                 | x # args' \<Rightarrow> (case setter f x c of None \<Rightarrow> Inl (BadValue x n) | Some c' \<Rightarrow> parse_flags fs args' c'))))))"

declare parse_flags.simps(2) [simp del]

definition ParseBool :: "string \<Rightarrow> bool option" where
  "ParseBool s =
     (if s \<in> {''1'', ''t'', ''T'', ''true'', ''TRUE'', ''True''} then Some True
      else if s \<in> {''0'', ''f'', ''F'', ''false'', ''FALSE'', ''False''} then Some False else None)"

text \<open>The two ways to write a value on the command line.\<close>

definition plain_name :: "string \<Rightarrow> bool" where
  "plain_name n \<longleftrightarrow> n \<noteq> [] \<and> hd n \<noteq> CHR ''-'' \<and> CHR ''='' \<notin> set n"

lemma Cut_no: "d \<notin> set s \<Longrightarrow> Cut d s = None"
  by (induction s) auto

lemma Cut_at: "d \<notin> set s \<Longrightarrow> Cut d (s @ d # t) = Some (s, t)"
  by (induction s) auto

lemma parse_joined:
  assumes "plain_name n" "find (\<lambda>f. flagName f = n) fs = Some f"
  shows "parse_flags fs ((CHR ''-'' # n @ CHR ''='' # v) # args) c =
    (case setter f v c of None \<Rightarrow> Inl (BadValue v n) | Some c' \<Rightarrow> parse_flags fs args c')"
proof -
  obtain a m where n: "n = a # m" "a \<noteq> CHR ''-''" "a \<noteq> CHR ''=''" using assms(1) by (cases n) (auto simp: plain_name_def)
  have "flag_name (n @ CHR ''='' # v) = (n, Some v)" using assms(1) by (simp add: flag_name_def plain_name_def Cut_at)
  then show ?thesis using n assms(2) by (subst parse_flags.simps(2)) (auto simp: Let_def split: option.splits)
qed

lemma parse_separate:
  assumes "plain_name n" "find (\<lambda>f. flagName f = n) fs = Some f" "\<not> isBoolFlag f"
  shows "parse_flags fs ((CHR ''-'' # n) # v # args) c =
    (case setter f v c of None \<Rightarrow> Inl (BadValue v n) | Some c' \<Rightarrow> parse_flags fs args c')"
proof -
  obtain a m where n: "n = a # m" "a \<noteq> CHR ''-''" "a \<noteq> CHR ''=''" using assms(1) by (cases n) (auto simp: plain_name_def)
  have "flag_name n = (n, None)" using assms(1) by (simp add: flag_name_def plain_name_def Cut_no)
  then show ?thesis using n assms(2,3) by (subst parse_flags.simps(2)) (auto simp: Let_def split: option.splits)
qed

end
