(* ===== verification/GatewayDemo.thy ===== *)
theory GatewayDemo
  imports EdgeConfig GoFlag
begin

text \<open>
  The gateway's properties on concrete inputs: a platform whose pillars all answer, an
  environment with one route and one public prefix, and a gateway started from them.
\<close>

section \<open>The example\<close>

definition demo_id :: Identity where
  "demo_id = \<lparr>Subject = ''sam'', Kind = ''human'', Org = ''acme'', ResponsibleHuman = ''sam'', Scopes = [''read''],
     Products = [''cairn''], Audience = []\<rparr>"

definition demo_herald :: "string \<Rightarrow> herald_id option" where
  "demo_herald tok = (if tok = ''t1'' then Some (''sam'', ''human'', ''acme'', ''sam'', [''read''], [''cairn''], []) else None)"

definition demo_parse :: "string \<Rightarrow> backend_url option" where
  "demo_parse s = (if s = ''bad'' then None else Some \<lparr>authority = s, base_path = [], base_query = []\<rparr>)"

definition demo_platform :: "unit platform" where
  "demo_platform = \<lparr>dial = \<lambda>_ _ _ _. Some (), register = \<lambda>_ _. True, herald_new = \<lambda>_ _. Some demo_herald, url_Parse = demo_parse\<rparr>"

definition demo_environment :: environment where
  "demo_environment k =
     (if k = ''INTERCHANGE_HERALD_ISSUER'' then ''https://herald''
      else if k = ''INTERCHANGE_ROUTES'' then ''/web=http://web'' else [])"

definition demo_req :: "string \<Rightarrow> header \<Rightarrow> request" where
  "demo_req p h = \<lparr>meth = ''GET'', path = p, rawQuery = [], hdr = h, body = [], bodyBroken = False, RemoteAddr = ''192.0.2.7:4711''\<rparr>"

abbreviation demo_token :: header where "demo_token \<equiv> Set no_header ''Authorization'' ''Bearer t1''"

definition demo_gw_config :: gw_config where
  "demo_gw_config = \<lparr>Verifier = Some (heraldVerifier demo_herald), AuthBypass = False,
     Routes = [(''/oidc'', ''http://oidc''), (''/oidc/api/'', ''http://api'')], PublicPaths = ['' /oidc/.well-known/ ''],
     RouteProducts = [''/oidc/api'' \<mapsto> ''cairn''], GRPCHandlers = []\<rparr>"

definition demo_gw :: gateway where
  "demo_gw = \<lparr>bypass = False, verify = Some (heraldVerifier demo_herald),
     routes = [\<lparr>prefix = ''/oidc/api'', target = Inl \<lparr>authority = ''http://api'', base_path = [], base_query = []\<rparr>, product = ''cairn''\<rparr>,
       \<lparr>prefix = ''/oidc'', target = Inl \<lparr>authority = ''http://oidc'', base_path = [], base_query = []\<rparr>, product = []\<rparr>],
     publicEx = [], publicPx = [''/oidc/.well-known/'']\<rparr>"

lemma demo_new: "New demo_parse demo_gw_config = Inr demo_gw"
proof -
  have "TrimSpace '' /oidc/.well-known/ '' = ''/oidc/.well-known/''" "HasSuffix ''/oidc/.well-known/'' ''/''"
    "TrimRight CHR ''/'' ''/oidc'' = ''/oidc''" "TrimRight CHR ''/'' ''/oidc/api/'' = ''/oidc/api''"
    by code_simp+
  then show ?thesis
    by (simp add: New_def demo_gw_config_def demo_gw_def demo_parse_def Let_def longest_first_def)
qed

lemma demo_bearer: "bearer (demo_req p demo_token) = ''t1''" "bearer (demo_req p no_header) = []"
proof -
  have t: "Get (Set h ''Authorization'' v) ''Authorization'' = v" for h v by (simp add: Get_Set)
  have n: "Get no_header ''Authorization'' = []" by (simp add: Get_def no_header_def)
  have e: "EqualFold_ascii ''Bearer '' ''Bearer ''" by (simp add: EqualFold_ascii_def)
  show "bearer (demo_req p demo_token) = ''t1''" by (simp add: bearer_def demo_req_def t e)
  show "bearer (demo_req p no_header) = []" by (simp add: bearer_def demo_req_def n)
qed

section \<open>The witnesses\<close>

theorem match_longest_witness:
  "\<exists>rt rest. match demo_gw ''/oidc/api/x'' = Some (rt, rest) \<and> prefix rt = ''/oidc/api'' \<and> rest = ''/x''"
proof -
  have m: "match demo_gw ''/oidc/api/x'' = Some (hd (routes demo_gw), ''/x'')"
    by (simp add: match_def demo_gw_def under_def HasPrefix_def TrimPrefix_def)
  with match_longest [OF demo_new, of "''/oidc/api/x''"] show ?thesis by (simp add: demo_gw_def)
qed

theorem match_order_independent_witness:
  "\<exists>g'. New demo_parse (demo_gw_config\<lparr>Routes := rev (Routes demo_gw_config)\<rparr>) = Inr g'
     \<and> match demo_gw ''/oidc/api/x'' = match g' ''/oidc/api/x''"
proof -
  let ?c = "demo_gw_config\<lparr>Routes := rev (Routes demo_gw_config)\<rparr>"
  obtain g' where g': "New demo_parse ?c = Inr g'"
    by (simp add: New_def demo_gw_config_def demo_parse_def Let_def)
  have d: "distinct (map (TrimRight CHR ''/'') (map fst (Routes demo_gw_config) @ map fst (GRPCHandlers demo_gw_config)))"
    unfolding demo_gw_config_def by (simp add: TrimRight_def)
  have "match demo_gw ''/oidc/api/x'' = match g' ''/oidc/api/x''"
    by (rule match_order_independent [OF demo_new g']) (use d in simp_all)
  then show ?thesis using g' by blast
qed

theorem serve_gate_witness:
  "\<exists>rt rest. match demo_gw ''/oidc/api/x'' = Some (rt, rest) \<and>
     (case serve demo_gw (demo_req ''/oidc/api/x'' demo_token) of
        Forward u r' \<Rightarrow> authority u = ''http://api'' \<and> path r' = ''/x'' | _ \<Rightarrow> False)"
proof -
  let ?r = "demo_req ''/oidc/api/x'' demo_token"
  have m: "match demo_gw (path ?r) = Some (hd (routes demo_gw), ''/x'')"
    by (simp add: match_def demo_gw_def under_def HasPrefix_def TrimPrefix_def demo_req_def)
  have t: "target (hd (routes demo_gw)) = Inl \<lparr>authority = ''http://api'', base_path = [], base_query = []\<rparr>"
    by (simp add: demo_gw_def)
  have ok: "the (the (verify demo_gw) (bearer ?r)) = demo_id" "the (verify demo_gw) (bearer ?r) \<noteq> None" "bearer ?r \<noteq> []"
    "hasProduct (Products demo_id) (product (hd (routes demo_gw)))" "verify demo_gw \<noteq> None"
    by (simp_all add: demo_gw_def demo_bearer heraldVerifier_def demo_herald_def demo_id_def hasProduct_def)
  have "singleJoiningSlash [] ''/x'' = ''/x''" by code_simp
  then show ?thesis using serve_gate [OF m t] m ok
    by (cases "serve demo_gw ?r") (auto simp: demo_req_def)
qed


theorem edges_ignore_forgery_witness:
  "\<forall>r. authInject (newGRPCMux ''ledger'') None ''ledger'' (r\<lparr>hdr := Set (hdr r) ''cwb-org'' ''evil''\<rparr>)
     = authInject (newGRPCMux ''ledger'') None ''ledger'' r"
proof
  fix r
  have "''cwb-org'' \<in> set grpc_spoof" by (simp add: grpc_spoof_def)
  from edges_ignore_forgery [OF this, of "newGRPCMux ''ledger''" None "''ledger''" r "''evil''"]
  show "authInject (newGRPCMux ''ledger'') None ''ledger'' (r\<lparr>hdr := Set (hdr r) ''cwb-org'' ''evil''\<rparr>)
     = authInject (newGRPCMux ''ledger'') None ''ledger'' r" by blast
qed

theorem authInject_gate_witness:
  "case authInject (newGRPCMux ''mason'') (Some (heraldVerifier demo_herald)) [] (demo_req ''/v1/apps'' demo_token) of
     Rpc n md r' \<Rightarrow> md = annotator (Some (edge_of demo_id)) | _ \<Rightarrow> False"
proof -
  let ?r = "demo_req ''/v1/apps'' demo_token"
  have v: "verified (Some (heraldVerifier demo_herald)) ?r i \<longleftrightarrow> i = demo_id" for i
    by (auto simp: verified_def demo_bearer heraldVerifier_def demo_herald_def demo_id_def)
  show ?thesis
    using authInject_gate [where name = "''mason''" and v = "Some (heraldVerifier demo_herald)" and p = "[]" and r = ?r]
    by (auto simp: v split: reply.splits)
qed

theorem cairn_gate_witness:
  "case cairnComposite (newGRPCMux ''cairn'') (ReverseProxy \<lparr>authority = ''http://git'', base_path = [], base_query = []\<rparr>)
       (Some (heraldVerifier demo_herald)) ''cairn'' (demo_req ''/a.git/info/refs'' demo_token) of
     Forward u r' \<Rightarrow> authority u = ''http://git'' | _ \<Rightarrow> False"
proof -
  let ?r = "demo_req ''/a.git/info/refs'' demo_token" and ?u = "\<lparr>authority = ''http://git'', base_path = [], base_query = []\<rparr>"
  have v: "verified (Some (heraldVerifier demo_herald)) ?r i \<longleftrightarrow> i = demo_id" for i
    by (auto simp: verified_def demo_bearer heraldVerifier_def demo_herald_def demo_id_def)
  have e: "entitled demo_id ''cairn''" by (simp add: entitled_def audienceOK_def demo_id_def)
  have p: "\<not> HasPrefix (path ?r) ''/api/''" by (simp add: demo_req_def HasPrefix_def)
  show ?thesis
    using cairn_gate [where name = "''cairn''" and u = ?u and v = "Some (heraldVerifier demo_herald)" and p = "''cairn''" and r = ?r] e p
    by (auto simp: v split: reply.splits)
qed

theorem bypass_locks_gated_pillars_witness:
  "\<exists>resp. authInject (newGRPCMux ''ledger'') None ''ledger'' (demo_req ''/v1/issues'' demo_token) = Respond resp
     \<and> status resp \<in> {401, 403}"
  using bypass_locks_gated_pillars [of "''ledger''" "newGRPCMux ''ledger''" "demo_req ''/v1/issues'' demo_token"] by auto

lemma demo_started: "\<exists>g. main_start demo_platform demo_environment = Inr g \<and> verify g = Some (heraldVerifier demo_herald)"
proof -
  have "parseRoutes ''/web=http://web'' = Inr [(''/web'', ''http://web'')]" by code_simp
  moreover have "parsePublicPaths [] = []" by code_simp
  ultimately show ?thesis
    by (simp add: main_start_def main_config_def verifier_from_env_def demo_environment_def demo_platform_def
        knowledge_edge_def ledger_edge_def almanac_edge_def mason_edge_def atlas_edge_def cairn_edge_def herald_edge_def
        pillar_edge_def connect_def backend_of_def route_or_def demo_parse_def map_delete_def New_def Let_def)
qed

theorem gateway_surface_witness:
  "\<exists>g f. main_start demo_platform demo_environment = Inr g \<and> verify g = Some f
     \<and> (case serve g (demo_req ''/web/index'' no_header) of Rpc _ _ _ \<Rightarrow> False
        | Forward _ _ \<Rightarrow> isPublic g ''/web/index''
            \<or> (\<exists>rt rest. match g ''/web/index'' = Some (rt, rest) \<and> prefix rt = ''/herald'' \<and> \<not> herald_admin rest)
        | Respond _ \<Rightarrow> True)"
proof -
  obtain g where g: "main_start demo_platform demo_environment = Inr g" "verify g = Some (heraldVerifier demo_herald)"
    using demo_started by blast
  have "\<not> verified (verify g) (demo_req ''/web/index'' no_header) i" for i by (simp add: verified_def demo_bearer)
  with gateway_surface [OF g, of "demo_req ''/web/index'' no_header"] g show ?thesis
    by (intro exI [of _ g] exI [of _ "heraldVerifier demo_herald"]) (auto simp: demo_req_def split: reply.splits)
qed

section \<open>Public prefixes and encoded dot segments\<close>

text \<open>
  A public prefix opens more than the paths below it: a request whose dot segments
  are percent-encoded passes the mux, is public by its prefix, and reaches the backend
  without a token under a path that leaves the public directory.
\<close>

theorem public_prefix_traversal:
  "\<exists>r'. Handler demo_gw ''/oidc/.well-known/%2e%2e/admin'' (demo_req ''/oidc/.well-known/../admin'' no_header)
       = Forward \<lparr>authority = ''http://oidc'', base_path = [], base_query = []\<rparr> r'
     \<and> path r' = ''/.well-known/../admin'' \<and> \<not> isPublic demo_gw ''/oidc/admin''"
proof -
  have p: "path (demo_req p h) = p" "meth (demo_req p h) = ''GET''" for p h by (simp_all add: demo_req_def)
  have mx: "mux [([''healthz''], h1), ([[]], h2)] ''GET'' ''/oidc/.well-known/%2e%2e/admin'' ''/oidc/.well-known/../admin'' = Serve h2"
    for h1 h2 :: handler
  proof -
    have c: "cleanPath ''/oidc/.well-known/%2e%2e/admin'' = ''/oidc/.well-known/%2e%2e/admin''" by code_simp
    have s: "segments ''/oidc/.well-known/%2e%2e/admin'' = [''oidc'', ''.well-known'', ''..'', ''admin'']" by code_simp
    show ?thesis by (simp add: mux_def c s best_match_def pattern_matches_def preferred_def exact_match_def)
  qed
  have m: "match demo_gw ''/oidc/.well-known/../admin''
      = Some (\<lparr>prefix = ''/oidc'', target = Inl \<lparr>authority = ''http://oidc'', base_path = [], base_query = []\<rparr>, product = []\<rparr>,
          ''/.well-known/../admin'')"
    by (simp add: match_def demo_gw_def under_def HasPrefix_def TrimPrefix_def)
  have pub: "isPublic demo_gw ''/oidc/.well-known/../admin''" "\<not> isPublic demo_gw ''/oidc/admin''"
    by (simp_all add: isPublic_def demo_gw_def HasPrefix_def)
  have j: "singleJoiningSlash [] ''/.well-known/../admin'' = ''/.well-known/../admin''" by code_simp
  show ?thesis
    by (simp add: Handler_def p mx serve_def m authenticate_def pub ReverseProxy_def j)
qed

section \<open>The shutdown timeout\<close>

text \<open>Any positive duration, as Go prints it, can be the drain limit; \<open>25 s\<close> without a valid one.\<close>

lemma timeout_from_env:
  assumes "exact_frac flt" "0 < d" "d \<le> maxDuration" "e ''INTERCHANGE_SHUTDOWN_TIMEOUT'' = Duration_String d"
  shows "shutdownTimeout (ParseDuration flt) e = d"
proof -
  have p: "ParseDuration flt (Duration_String d) = Some d"
    using assms(2,3) by (intro Duration_String_parses [OF assms(1)]) (simp_all add: minDuration_def)
  then have "Duration_String d \<noteq> []" by (auto simp: ParseDuration_def)
  then show ?thesis using p assms(2,4) by (simp add: shutdownTimeout_def)
qed

end
