(* ===== verification/Sweep.thy ===== *)
theory Sweep
  imports StoreFacts
begin

text \<open>
  \<open>internal/sweep\<close>: the retention job.  \<open>Once\<close> is one cycle, \<open>Run\<close> the loop over
  the wake-ups its \<open>select\<close> chooses; a logger's lines are the values returned.
\<close>

section \<open>Configuration\<close>

record config =
  Interval :: duration
  EnvelopeMaxAge :: duration

definition defaults :: "config \<Rightarrow> config" where
  "defaults c =
     \<lparr>Interval = (if Interval c \<le> 0 then Hour else Interval c),
      EnvelopeMaxAge = (if EnvelopeMaxAge c \<le> 0 then 7 * 24 * Hour else EnvelopeMaxAge c)\<rparr>"

section \<open>One cycle\<close>

datatype sweep_log =
    EvictionFailed sterr
  | ExpiryFailed sterr
  | Swept nat nat

text \<open>\<open>canceled\<close> tells the errors that are \<open>context.Canceled\<close>; they are not logged.\<close>

definition log_error :: "(sterr \<Rightarrow> bool) \<Rightarrow> (sterr \<Rightarrow> sweep_log) \<Rightarrow> sterr + nat \<Rightarrow> sweep_log list" where
  "log_error canceled f r = (case r of Inl e \<Rightarrow> if canceled e then [] else [f e] | Inr _ \<Rightarrow> [])"

definition count_of :: "sterr + nat \<Rightarrow> nat" where
  "count_of r = (case r of Inl _ \<Rightarrow> 0 | Inr n \<Rightarrow> n)"

definition Once :: "(sterr \<Rightarrow> bool) \<Rightarrow> storage \<Rightarrow> config \<Rightarrow> sweep_log list prog" where
  "Once canceled st c = bind now (\<lambda>t.
     bind (DeleteEnvelopesOlderThan st (time_Add t (neg64 (EnvelopeMaxAge c)))) (\<lambda>d.
     bind (ExpirePendingRequests st t) (\<lambda>x.
       Ret (log_error canceled EvictionFailed d @ log_error canceled ExpiryFailed x
            @ (if count_of d > 0 \<or> count_of x > 0 then [Swept (count_of d) (count_of x)] else [])))))"

section \<open>The loop\<close>

datatype wake = Done | Tick

text \<open>The lines logged, and whether the loop has returned.\<close>

fun Run :: "(sterr \<Rightarrow> bool) \<Rightarrow> storage \<Rightarrow> config \<Rightarrow> wake list \<Rightarrow> (sweep_log list \<times> bool) prog" where
  "Run canceled st c [] = Ret ([], False)"
| "Run canceled st c (Done # _) = Ret ([], True)"
| "Run canceled st c (Tick # es) =
     bind (Once canceled st c) (\<lambda>l. bind (Run canceled st c es) (\<lambda>(ls, b). Ret (l @ ls, b)))"

section \<open>What a cycle does\<close>

definition sweep_cutoff :: "config \<Rightarrow> time \<Rightarrow> time" where
  "sweep_cutoff c t = time_Add t (neg64 (EnvelopeMaxAge c))"

definition spec_sweep :: "config \<Rightarrow> time \<Rightarrow> store_state \<Rightarrow> store_state" where
  "spec_sweep c t s = snd (spec_ExpirePending t (snd (spec_DeleteOlderThan (sweep_cutoff c t) s)))"

definition sweep_counts :: "config \<Rightarrow> time \<Rightarrow> store_state \<Rightarrow> nat \<times> nat" where
  "sweep_counts c t s =
     (count_of (fst (spec_DeleteOlderThan (sweep_cutoff c t) s)),
      count_of (fst (spec_ExpirePending t (snd (spec_DeleteOlderThan (sweep_cutoff c t) s)))))"

definition sweep_lines :: "nat \<times> nat \<Rightarrow> sweep_log list" where
  "sweep_lines n = (if fst n > 0 \<or> snd n > 0 then [Swept (fst n) (snd n)] else [])"

context retention_store
begin

lemma once_refines:
  assumes "good w" "wire_range (clock w 0)" "wire_range (sweep_cutoff c (clock w 0))"
  shows "\<exists>w'. run (Once canceled st c) w = (Some (sweep_lines (sweep_counts c (clock w 0) (view w))), w')
    \<and> view w' = spec_sweep c (clock w 0) (view w) \<and> good w' \<and> clock w' = (\<lambda>n. clock w (Suc n))"
proof -
  let ?t = "clock w 0" and ?w = "w\<lparr>clock := \<lambda>n. clock w (Suc n)\<rparr>"
  have w: "view ?w = view w" "good ?w" using assms(1) by (simp_all add: view_clock good_clock)
  obtain w1 where w1: "run (DeleteEnvelopesOlderThan st (sweep_cutoff c ?t)) ?w
      = (Some (fst (spec_DeleteOlderThan (sweep_cutoff c ?t) (view w))), w1)"
    "view w1 = snd (spec_DeleteOlderThan (sweep_cutoff c ?t) (view w))" "good w1" "clock w1 = clock ?w"
    using refinesE [OF delete_old [OF w(2) assms(3)]] w(1) by metis
  obtain w2 where w2: "run (ExpirePendingRequests st ?t) w1 = (Some (fst (spec_ExpirePending ?t (view w1))), w2)"
    "view w2 = snd (spec_ExpirePending ?t (view w1))" "good w2" "clock w2 = clock w1"
    using refinesE [OF expire [OF w1(3) assms(2)]] by metis
  show ?thesis using w1 w2
    by (simp add: Once_def run_bind sweep_cutoff_def [symmetric] spec_sweep_def sweep_lines_def sweep_counts_def
        log_error_def spec_DeleteOlderThan_def spec_ExpirePending_def)
qed

end

text \<open>
  C26. One sweep cycle evicts exactly the envelopes received before now minus the
  configured age, expires exactly the pending requests whose time has passed, leaves
  every other row and all pairs as they are, logs one line when it changed anything,
  and changes nothing more when it is run again at the same time.
\<close>

theorem sweep_correct:
  assumes "healthy w" "wire_range (clock w 0)" "wire_range (sweep_cutoff c (clock w 0))"
    and "run (Once canceled SQLite c) w = (Some logs, w')"
  shows "senvs (db_view w') = filter (\<lambda>e. \<not> ReceivedAt e < truncSec (sweep_cutoff c (clock w 0))) (senvs (db_view w))
    \<and> sreqs (db_view w') = map (\<lambda>r. if expired_at (clock w 0) r then r\<lparr>Status := StatusExpired\<rparr> else r) (sreqs (db_view w))
    \<and> sprs (db_view w') = sprs (db_view w)
    \<and> logs = sweep_lines (length (senvs (db_view w)) - length (senvs (db_view w')),
          length (filter (expired_at (clock w 0)) (sreqs (db_view w))))
    \<and> spec_sweep c (clock w 0) (db_view w') = db_view w'"
proof -
  let ?t = "clock w 0" and ?old = "\<lambda>e. ReceivedAt e < truncSec (sweep_cutoff c (clock w 0))"
  have out: "logs = sweep_lines (sweep_counts c ?t (db_view w))" "db_view w' = spec_sweep c ?t (db_view w)"
    using retention_sq.once_refines [OF assms(1-3), of canceled] assms(4) by auto
  have len: "length (filter ?old es) = length es - length (filter (\<lambda>e. \<not> ?old e) es)" for es
    using sum_length_filter_compl [of ?old es] by simp
  have v: "db_view w' = \<lparr>senvs = filter (\<lambda>e. \<not> ?old e) (senvs (db_view w)),
      sreqs = map (\<lambda>r. if expired_at ?t r then r\<lparr>Status := StatusExpired\<rparr> else r) (sreqs (db_view w)),
      sprs = sprs (db_view w)\<rparr>"
    using out(2) by (simp add: spec_sweep_def spec_DeleteOlderThan_def spec_ExpirePending_def)
  moreover have "logs = sweep_lines (length (senvs (db_view w)) - length (senvs (db_view w')),
          length (filter (expired_at ?t) (sreqs (db_view w))))"
  proof -
    have "logs = sweep_lines (length (filter ?old (senvs (db_view w))), length (filter (expired_at ?t) (sreqs (db_view w))))"
      using out(1) by (simp add: sweep_counts_def spec_DeleteOlderThan_def spec_ExpirePending_def count_of_def)
    then show ?thesis using v unfolding len [of "senvs (db_view w)"] by simp
  qed
  moreover have "\<not> expired_at ?t (r\<lparr>Status := StatusExpired\<rparr>)" for r :: pair_request
    by (simp add: expired_at_def status_defs)
  ultimately show ?thesis
    by (auto simp: spec_sweep_def spec_DeleteOlderThan_def spec_ExpirePending_def comp_def)
qed

text \<open>
  Defaults: an unset or negative interval becomes an hour and age seven days, and
  every configuration the sweeper runs with is positive.
\<close>

theorem defaults_positive:
  "Interval (defaults c) > 0 \<and> EnvelopeMaxAge (defaults c) > 0 \<and> defaults (defaults c) = defaults c
   \<and> defaults \<lparr>Interval = 0, EnvelopeMaxAge = 0\<rparr> = \<lparr>Interval = Hour, EnvelopeMaxAge = 7 * 24 * Hour\<rparr>"
  by (simp add: defaults_def duration_defs)

lemma prog_ret_bind: "prog_ret Q p \<Longrightarrow> (\<And>a. Q a \<Longrightarrow> prog_ret P (f a)) \<Longrightarrow> prog_ret P (bind p f)"
  by (induction p) auto

lemma prog_ret_True: "prog_ret (\<lambda>_. True) p"
  by (induction p) auto

lemma Run_returns: "prog_ret (\<lambda>(ls, b). b \<longleftrightarrow> Done \<in> set es) (Run canceled st c es)"
proof (induction es)
  case (Cons e es)
  have "prog_ret (\<lambda>(ls, b). b \<longleftrightarrow> Done \<in> set es)
      (bind (Once canceled st c) (\<lambda>l. bind (Run canceled st c es) (\<lambda>(ls, b). Ret (l @ ls, b))))"
    by (rule prog_ret_bind [OF prog_ret_True], rule prog_ret_bind [OF Cons]) auto
  then show ?case by (cases e) auto
qed simp



end
