(* ===== verification/Protocol.thy ===== *)
theory Protocol
  imports PairflowProps Sweep
begin

text \<open>
  What concurrent handlers can do to the database: a discipline on the statements a
  program issues, given the pairs it has seen, as a weakest precondition; a system of
  any number of handlers that interleave call by call; and the invariants of its
  reachable states, under arbitrary statement faults, clocks and random bytes.
\<close>

section \<open>The discipline\<close>

text \<open>The answers a statement can have.\<close>

fun answers :: "stmt \<Rightarrow> sqlresult \<Rightarrow> bool" where
  "answers s (RErr m) \<longleftrightarrow> True"
| "answers (SelectEnvs _ _ _ _) r \<longleftrightarrow> (case r of REnvs _ \<Rightarrow> True | _ \<Rightarrow> False)"
| "answers (SelectReq _) r \<longleftrightarrow> (case r of RReqs _ \<Rightarrow> True | _ \<Rightarrow> False)"
| "answers (SelectReqsByStatus _) r \<longleftrightarrow> (case r of RReqs _ \<Rightarrow> True | _ \<Rightarrow> False)"
| "answers (SelectPair _) r \<longleftrightarrow> (case r of RPairs _ \<Rightarrow> True | _ \<Rightarrow> False)"
| "answers _ r \<longleftrightarrow> (case r of RAffected _ \<Rightarrow> True | _ \<Rightarrow> False)"

lemma exec_answers: "answers s (fst (exec_world s w))"
proof -
  have "answers s (fst (exec_stmt u s d))" for u d by (cases s) auto
  then show ?thesis by (auto simp: exec_world_def Let_def split_beta split: list.splits option.splits)
qed

text \<open>The pairs a statement's answer shows to exist.\<close>

fun learns :: "stmt \<Rightarrow> sqlresult \<Rightarrow> string set" where
  "learns (InsertPairRow p) (RAffected n) = {p_path_id p}"
| "learns (SelectPair pid) (RPairs (p # ps)) = {pid}"
| "learns _ _ = {}"

text \<open>
  Requests are born pending, leave that state only once, and become approved only with
  the path id of a pair in \<open>K\<close>.
\<close>

fun disciplined :: "string set \<Rightarrow> stmt \<Rightarrow> bool" where
  "disciplined K (InsertReq r) \<longleftrightarrow> q_status r = StatusPending"
| "disciplined K (UpdateReq to own pid rid st) \<longleftrightarrow>
     st = StatusPending \<and> to \<noteq> StatusPending \<and> (to = StatusApproved \<longrightarrow> (case pid of None \<Rightarrow> False | Some x \<Rightarrow> x \<in> K))"
| "disciplined K (ExpireReqs to st cutoff) \<longleftrightarrow> st = StatusPending \<and> to = StatusExpired"
| "disciplined K _ \<longleftrightarrow> True"

primrec wlp :: "'a prog \<Rightarrow> string set \<Rightarrow> ('a \<Rightarrow> string set \<Rightarrow> bool) \<Rightarrow> bool" where
  "wlp (Ret a) K Q = Q a K"
| "wlp Panic K Q = True"
| "wlp (Exec s k) K Q = (disciplined K s \<and> (\<forall>r. answers s r \<longrightarrow> wlp (k r) (K \<union> learns s r) Q))"
| "wlp (Now k) K Q = (\<forall>t. wlp (k t) K Q)"
| "wlp (Rand k) K Q = (\<forall>b. wlp (k b) K Q)"

lemma wlp_bind [simp]: "wlp (bind p f) K Q = wlp p K (\<lambda>a K'. wlp (f a) K' Q)"
  by (induction p arbitrary: K) simp_all

lemma wlp_exec [simp]: "wlp (exec s) K Q = (disciplined K s \<and> (\<forall>r. answers s r \<longrightarrow> Q r (K \<union> learns s r)))"
  by (simp add: exec_def)

lemma wlp_now [simp]: "wlp now K Q = (\<forall>t. Q t K)"
  by (simp add: now_def)

lemma disciplined_mono: "disciplined K s \<Longrightarrow> K \<subseteq> K' \<Longrightarrow> disciplined K' s"
  by (cases s) (auto split: option.splits)

lemma wlp_mono: "wlp p K Q \<Longrightarrow> K \<subseteq> K' \<Longrightarrow> (\<And>a A B. A \<subseteq> B \<Longrightarrow> Q a A \<Longrightarrow> Q' a B) \<Longrightarrow> wlp p K' Q'"
proof (induction p arbitrary: K K')
  case (Exec s k)
  have "wlp (k r) (K' \<union> learns s r) Q'" if "answers s r" for r
    using Exec.prems that by (intro Exec.IH [OF rangeI, of r "K \<union> learns s r" "K' \<union> learns s r"]) auto
  then show ?case using Exec.prems disciplined_mono by auto
next
  case (Now k)
  then show ?case by (auto intro: Now.IH [OF rangeI])
next
  case (Rand k)
  then show ?case by (auto intro: Rand.IH [OF rangeI])
qed auto

abbreviation any :: "'a \<Rightarrow> string set \<Rightarrow> bool" where "any \<equiv> \<lambda>_ _. True"

lemma wlp_any: "wlp p K Q \<Longrightarrow> wlp p K any"
  by (erule wlp_mono) auto

section \<open>The handlers keep it\<close>

lemma wlp_reads [simp]:
  "wlp (SQLite_GetPairRequest rid) K any" "wlp SQLite_ListPendingPairRequests K any"
  "wlp (SQLite_ListEnvelopes pid dir since) K any"
  by (simp_all add: SQLite_GetPairRequest_def SQLite_ListPendingPairRequests_def SQLite_ListEnvelopes_def
      split: sqlresult.splits list.splits)

text \<open>The post-conditions: what the answers of the methods tell of the pairs.\<close>

lemma wlp_GetPair:
  assumes "\<And>e. Q (Inl e) K" "\<And>p K'. K \<subseteq> K' \<Longrightarrow> pid \<in> K' \<Longrightarrow> Q (Inr p) K'" "\<And>e K'. K \<subseteq> K' \<Longrightarrow> Q (Inl e) K'"
  shows "wlp (SQLite_GetPair pid) K Q"
proof -
  have "Q (scanPair p) (insert pid K)" for p
    using assms(2,3) [of "insert pid K"] by (cases "scanPair p") auto
  then show ?thesis using assms(1)
    by (auto simp: SQLite_GetPair_def split: sqlresult.splits list.splits)
qed

lemma wlp_InsertPair:
  assumes "\<And>e. Q (Some e) K" "\<And>K'. K \<subseteq> K' \<Longrightarrow> PairPathID p \<in> K' \<Longrightarrow> Q None K'"
  shows "wlp (SQLite_InsertPair p) K Q"
  using assms(1) assms(2) [of "insert (PairPathID p) K"]
  by (auto simp: SQLite_InsertPair_def pair_to_row_def split: sqlresult.splits)

lemma wlp_update:
  assumes "to \<noteq> StatusPending" "to = StatusApproved \<Longrightarrow> pid \<noteq> [] \<and> pid \<in> K"
  shows "wlp (SQLite_UpdatePairRequestStatus rid to own pid) K any"
proof -
  have "disciplined K (UpdateReq to (nullable own) (nullable pid) rid StatusPending)"
    using assms by (auto simp: nullable_def)
  then show ?thesis
    by (auto simp: SQLite_UpdatePairRequestStatus_def affected_def SQLite_GetPairRequest_def
        split: sqlresult.splits list.splits sum.splits)
qed

lemma wlp_writes [simp]:
  "wlp (SQLite_ExpirePendingRequests t) K any" "wlp (SQLite_InsertEnvelope e) K any"
  "wlp (SQLite_DeleteEnvelopesByMsgID pid ids) K any" "wlp (SQLite_DeleteEnvelopesOlderThan t) K any"
  "wlp (SQLite_GetPair pid) K any"
  by (auto simp: SQLite_ExpirePendingRequests_def SQLite_InsertEnvelope_def SQLite_DeleteEnvelopesByMsgID_def
      SQLite_DeleteEnvelopesOlderThan_def SQLite_GetPair_def split: sqlresult.splits list.splits)

lemma wlp_insert_req: "Status q = StatusPending \<Longrightarrow> wlp (SQLite_InsertPairRequest q) K any"
  by (auto simp: SQLite_InsertPairRequest_def req_to_row_def split: sqlresult.splits)

lemma wlp_then: "wlp p K any \<Longrightarrow> (\<And>a K'. wlp (f a) K' any) \<Longrightarrow> wlp (bind p f) K any"
  unfolding wlp_bind by (rule wlp_mono [where Q = any]) auto

lemma wlp_mailbox: "wlp (dispatch SQLite vf r) K any"
proof -
  have put: "wlp (put SQLite vf r pid) K any" for pid K
    unfolding put_def by (rule wlp_then) (auto simp: SQLite_def simp del: wlp_bind intro!: wlp_then split: sum.splits)
  have get: "wlp (get SQLite vf r pid) K any" for pid K
    unfolding get_def by (rule wlp_then) (auto simp: SQLite_def Let_def simp del: wlp_bind intro!: wlp_then split: sum.splits)
  have ack: "wlp (ack SQLite vf r pid) K any" for pid K
    unfolding ack_def by (rule wlp_then) (auto simp: SQLite_def Let_def simp del: wlp_bind intro!: wlp_then split: sum.splits option.splits)
  show ?thesis using put get ack by (auto simp: dispatch_def Let_def split: list.splits)
qed

lemma wlp_uuid: "wlp newUUIDv4 K any"
  by (auto simp: newUUIDv4_def split: option.splits)

lemma wlp_create: "wlp (createRequest ed SQLite r) K any"
  unfolding createRequest_def
  by (auto simp: SQLite_def new_request_def wlp_uuid simp del: wlp_bind
      intro!: wlp_then wlp_insert_req split: sum.splits)

lemma wlp_activate: "wlp (approve_activate SQLite raw rid rq ow) K any"
proof -
  let ?pid = "path_of rq ow"
  have u: "wlp (SQLite_UpdatePairRequestStatus rid StatusApproved own ?pid) K' any" if "?pid \<in> K'" for own K'
    by (rule wlp_update) (use that in \<open>auto simp: status_defs path_of_not_Nil\<close>)
  have g: "wlp (bind (SQLite_GetPair ?pid) (\<lambda>g.
                case g of
                  Inl _ \<Rightarrow> Ret (errorJSON 409 ''pair_conflict'')
                | Inr existing \<Rightarrow>
                    if RequesterPubkey existing = Pubkey rq \<and> OwnerPubkey existing = Pubkey ow
                    then bind (SQLite_UpdatePairRequestStatus rid StatusApproved raw ?pid)
                      (\<lambda>_. Ret (approved_response rid ?pid (halfToWire rq)))
                    else Ret (errorJSON 409 ''pair_conflict''))) K' any" for K'
    by (simp, rule wlp_GetPair) (auto intro: u)
  show ?thesis
    unfolding approve_activate_def path_of_def [symmetric] Let_def SQLite_def storage.simps
    by (simp only: wlp_bind wlp_now, intro allI, rule wlp_InsertPair)
      (use g in \<open>auto simp: new_pair_def intro: u\<close>)
qed

lemma wlp_approve: "wlp (approve ed SQLite r rid) K any"
proof -
  have "wlp (approve_decided ed SQLite rid q h) K any" for q h K
    by (auto simp: approve_decided_def SQLite_def simp del: wlp_bind intro!: wlp_then split: sum.splits)
  moreover have "wlp (approve_pending ed SQLite raw rid q h) K any" for raw q h K
    by (auto simp: approve_pending_def wlp_activate simp del: wlp_bind intro!: wlp_then split: sum.splits option.splits)
  ultimately show ?thesis
    by (auto simp: approve_def SQLite_def [THEN arg_cong [where f = GetPairRequest]] simp del: wlp_bind
        intro!: wlp_then split: sum.splits option.splits prod.splits)
qed

lemma wlp_deny: "wlp (deny SQLite rid) K any"
  by (auto simp: deny_def SQLite_def status_defs simp del: wlp_bind intro!: wlp_then wlp_update)

lemma wlp_status: "wlp (getRequestStatus SQLite rid) K any"
  by (auto simp: getRequestStatus_def SQLite_def simp del: wlp_bind intro!: wlp_then)

lemma wlp_list: "wlp (listPending SQLite r) K any"
  by (auto simp: listPending_def Let_def SQLite_def simp del: wlp_bind intro!: wlp_then)

lemma wlp_expire_first: "(\<And>K'. wlp p K' any) \<Longrightarrow> wlp (expire_first SQLite p) K any"
  by (auto simp: expire_first_def SQLite_def simp del: wlp_bind intro!: wlp_then)

lemma wlp_public: "wlp (dispatchPublic ed SQLite r) K any"
  by (auto simp: dispatchPublic_def routePublic_def Let_def intro!: wlp_expire_first wlp_create wlp_status)

lemma wlp_owner: "wlp (dispatchOwner ed secret SQLite r) K any"
  by (auto simp: dispatchOwner_def routeOwner_def Let_def intro!: wlp_expire_first wlp_approve wlp_deny wlp_list)

lemma wlp_once: "wlp (Once canceled SQLite c) K any"
  by (auto simp: Once_def SQLite_def simp del: wlp_bind intro!: wlp_then)

lemma wlp_run: "wlp (Run canceled SQLite c es) K any"
  by (induction canceled SQLite c es arbitrary: K rule: Run.induct)
    (auto simp del: wlp_bind intro!: wlp_then wlp_once)

section \<open>Interleaving\<close>

text \<open>
  A server: programs of \<open>A\<close> may start at any time, and any running program may make
  its next call.
\<close>

inductive server :: "'a prog set \<Rightarrow> 'a prog list \<times> world \<Rightarrow> 'a prog list \<times> world \<Rightarrow> bool" for A where
  arrive: "p \<in> A \<Longrightarrow> server A (xs @ ys, w) (xs @ p # ys, w)"
| move: "step (p, w) (p', w') \<Longrightarrow> server A (xs @ p # ys, w) (xs @ p' # ys, w')"

inductive_cases serverE: "server A c c'"

definition pair_ids :: "db \<Rightarrow> string set" where
  "pair_ids d = set (map p_path_id (pairs d))"

text \<open>What no concurrent run undoes: decided requests and pairs, and a request's identity.\<close>

definition evolves :: "db \<Rightarrow> db \<Rightarrow> bool" where
  "evolves d d' \<longleftrightarrow>
     (\<forall>rid q. req_of d rid = Some q \<longrightarrow> (\<exists>q'. req_of d' rid = Some q'
        \<and> (q_status q \<noteq> StatusPending \<longrightarrow> q' = q)
        \<and> q_requester_json q' = q_requester_json q \<and> q_target_nexus_id q' = q_target_nexus_id q))
     \<and> (\<forall>pid p. pair_of d pid = Some p \<longrightarrow> pair_of d' pid = Some p)"

definition approved_paired :: "db \<Rightarrow> bool" where
  "approved_paired d \<longleftrightarrow>
     list_all (\<lambda>q. q_status q = StatusApproved \<longrightarrow> (case q_path_id q of None \<Rightarrow> False | Some x \<Rightarrow> x \<in> pair_ids d)) (pair_requests d)"

lemma evolves_refl [simp]: "evolves d d"
  by (auto simp: evolves_def)

lemma evolves_trans: "evolves d1 d2 \<Longrightarrow> evolves d2 d3 \<Longrightarrow> evolves d1 d3"
  unfolding evolves_def by (elim conjE, intro conjI allI impI) (force | metis)+

lemma evolves_disciplined:
  assumes "disciplined K s"
  shows "evolves d (snd (exec_stmt u s d))"
proof (cases s)
  case (InsertReq r)
  have "pair_of (snd (exec_stmt u s d)) pid = pair_of d pid" for pid by (simp add: InsertReq pair_of_def)
  then show ?thesis using InsertReq by (auto simp: evolves_def req_of_InsertReq simp del: exec_stmt.simps)
next
  case (UpdateReq to own pid rid st)
  have "pair_of (snd (exec_stmt u s d)) p = pair_of d p" for p by (simp add: UpdateReq pair_of_def)
  then show ?thesis using UpdateReq assms
    by (auto simp: evolves_def req_of_UpdateReq update_req_def req_matches_def simp del: exec_stmt.simps)
next
  case (ExpireReqs to st cutoff)
  have "pair_of (snd (exec_stmt u s d)) p = pair_of d p" for p by (simp add: ExpireReqs pair_of_def)
  then show ?thesis using ExpireReqs assms
    by (auto simp: evolves_def req_of_ExpireReqs req_stale_def simp del: exec_stmt.simps)
next
  case (InsertPairRow p)
  have "req_of (snd (exec_stmt u s d)) rid = req_of d rid" for rid by (simp add: InsertPairRow req_of_def)
  then show ?thesis using InsertPairRow by (auto simp: evolves_def pair_of_InsertPairRow simp del: exec_stmt.simps)
qed (auto simp: evolves_def req_of_def pair_of_def)

lemma pair_ids_mono: "pair_ids d \<subseteq> pair_ids (snd (exec_stmt u s d))"
  by (cases s) (auto simp: pair_ids_def)

lemma learns_sound: "learns s (fst (exec_stmt u s d)) \<subseteq> pair_ids (snd (exec_stmt u s d))"
proof (cases s)
  case (SelectPair pid)
  show ?thesis using SelectPair
    by (cases "filter (\<lambda>p. p_path_id p = pid) (pairs d)") (auto simp: pair_ids_def dest: filter_eq_ConsD)
qed (auto simp: pair_ids_def)

lemma approved_paired_disciplined:
  assumes "disciplined K s" "K \<subseteq> pair_ids d" "approved_paired d"
  shows "approved_paired (snd (exec_stmt u s d))"
proof (cases s)
  case (InsertReq r)
  then show ?thesis using assms by (auto simp: approved_paired_def pair_ids_def status_defs list_all_iff split: option.splits)
next
  case (UpdateReq to own pid rid st)
  then show ?thesis using assms
    by (auto simp: approved_paired_def pair_ids_def list_all_iff update_req_def coalesce_def split: option.splits)
next
  case (ExpireReqs to st cutoff)
  then show ?thesis using assms
    by (auto simp: approved_paired_def pair_ids_def list_all_iff status_defs split: option.splits)
next
  case (InsertPairRow p)
  then show ?thesis using assms
    by (auto simp: approved_paired_def pair_ids_def list_all_iff split: option.splits)
qed (use assms in \<open>auto simp: approved_paired_def pair_ids_def list_all_iff split: option.splits\<close>)

text \<open>One call of a disciplined program.\<close>

definition sound_at :: "'a prog \<Rightarrow> world \<Rightarrow> bool" where
  "sound_at p w \<longleftrightarrow> (\<exists>K. wlp p K any \<and> K \<subseteq> pair_ids (wdb w))"

lemma call_sound:
  assumes "step (p, w) (p', w')" "sound_at p w"
  shows "sound_at p' w' \<and> evolves (wdb w) (wdb w') \<and> pair_ids (wdb w) \<subseteq> pair_ids (wdb w')
    \<and> (approved_paired (wdb w) \<longrightarrow> approved_paired (wdb w'))"
proof -
  obtain K where K: "wlp p K any" "K \<subseteq> pair_ids (wdb w)" using assms(2) by (auto simp: sound_at_def)
  show ?thesis
  proof (cases p)
    case (Exec s k)
    then obtain r where r: "exec_world s w = (r, w')" "p' = k r" using assms(1) by (auto elim: step_ExecE)
    have d: "disciplined K s" "wlp p' (K \<union> learns s r) any"
      using K(1) Exec r exec_answers [of s w] by auto
    consider (fault) m where "wdb w' = wdb w" "r = RErr m"
      | (ran) "wdb w' = snd (exec_stmt (uv w) s (wdb w))" "r = fst (exec_stmt (uv w) s (wdb w))"
      using r(1) by (auto simp: exec_world_def Let_def split_beta split: list.splits option.splits)
    then show ?thesis
    proof cases
      case fault
      then have "learns s r = {}" by (cases s) auto
      then show ?thesis using d(2) K fault by (auto simp: sound_at_def)
    next
      case ran
      note l = learns_sound [of s "uv w" "wdb w"] and m = pair_ids_mono [of "wdb w" "uv w" s]
      have "K \<union> learns s r \<subseteq> pair_ids (wdb w')" using ran l m K(2) by auto
      then show ?thesis
        using ran d K(2) m evolves_disciplined [OF d(1)] approved_paired_disciplined [OF d(1) K(2)]
        by (auto simp: sound_at_def)
    qed
  qed (use assms(1) K in \<open>auto elim!: step_NowE step_RandE simp: sound_at_def intro!: exI [of _ K]\<close>)
qed

lemma server_invariant:
  assumes "(server A)\<^sup>*\<^sup>* (ps, w) (ps', w')"
    and "\<And>p. p \<in> A \<Longrightarrow> wlp p {} any" "\<And>p. p \<in> set ps \<Longrightarrow> wlp p {} any"
  shows "evolves (wdb w) (wdb w') \<and> (approved_paired (wdb w) \<longrightarrow> approved_paired (wdb w'))"
proof -
  have "(\<forall>p \<in> set ps'. sound_at p w') \<and> evolves (wdb w) (wdb w') \<and> (approved_paired (wdb w) \<longrightarrow> approved_paired (wdb w'))"
    using assms(1)
  proof (induction "(ps', w')" arbitrary: ps' w' rule: rtranclp_induct)
    case base
    then show ?case using assms(3) by (auto simp: sound_at_def)
  next
    case (step c)
    obtain ps1 w1 where c: "c = (ps1, w1)" by (cases c)
    note IH = step(3) [OF c]
    from step(2) [unfolded c] show ?case
    proof (cases rule: server.cases)
      case (arrive p)
      then show ?thesis using IH assms(2) by (auto simp: sound_at_def)
    next
      case (move p p' xs ys)
      have s: "sound_at p w1" using IH move(1) by auto
      note one = call_sound [OF move(3) s]
      have "sound_at q w'" if "q \<in> set xs \<union> set ys" for q
      proof -
        have "sound_at q w1" using IH move(1) that by auto
        then show ?thesis using one unfolding sound_at_def by blast
      qed
      then show ?thesis using IH one move(2) evolves_trans by auto
    qed
  qed
  then show ?thesis by blast
qed

text \<open>An invariant of the database that every statement the programs issue keeps.\<close>

lemma server_statements:
  assumes "(server A)\<^sup>*\<^sup>* (ps, w) (ps', w')"
    and "\<And>p. p \<in> A \<Longrightarrow> prog_all P p" "\<And>p. p \<in> set ps \<Longrightarrow> prog_all P p"
    and "\<And>s d u. P s \<Longrightarrow> I d \<Longrightarrow> I (snd (exec_stmt u s d))" "I (wdb w)"
  shows "I (wdb w')"
proof -
  have "(\<forall>p \<in> set ps'. prog_all P p) \<and> I (wdb w')"
    using assms(1)
  proof (induction "(ps', w')" arbitrary: ps' w' rule: rtranclp_induct)
    case base
    then show ?case using assms(3,5) by auto
  next
    case (step c)
    obtain ps1 w1 where c: "c = (ps1, w1)" by (cases c)
    note IH = step(3) [OF c]
    from step(2) [unfolded c] show ?case
    proof (cases rule: server.cases)
      case (arrive p)
      then show ?thesis using IH assms(2) by auto
    next
      case (move p p' xs ys)
      then have "prog_all P p" using IH by auto
      then show ?thesis using step_prog_all [OF move(3)] step_invariant [OF move(3), of P I] assms(4) IH move by auto
    qed
  qed
  then show ?thesis by blast
qed

end
