(* ===== verification/RateLimit.thy ===== *)
theory RateLimit
  imports Complex_Main Net Effect "HOL-Library.AList"
begin

text \<open>
  \<open>internal/middleware\<close>: the panic barrier and the per-client token buckets.  The
  bucket itself is \<open>golang.org/x/time/rate\<close>, a parameter; times are what \<open>time.Now\<close>
  answered.
\<close>

section \<open>Recover\<close>

text \<open>\<open>recover\<close>: a panic of the program becomes a value; the calls before it stay done.\<close>

primrec catch :: "'a \<Rightarrow> 'a prog \<Rightarrow> 'a prog" where
  "catch v (Ret a) = Ret a"
| "catch v Panic = Ret v"
| "catch v (Exec s k) = Exec s (\<lambda>r. catch v (k r))"
| "catch v (Now k) = Now (\<lambda>t. catch v (k t))"
| "catch v (Rand k) = Rand (\<lambda>b. catch v (k b))"

definition plain_error :: "nat \<Rightarrow> (string \<times> string) list \<Rightarrow> string \<Rightarrow> response" where
  "plain_error st hs code = \<lparr>status = st, headers = hs @ [(''Content-Type'', ''application/json'')],
     payload = Text (''{'' @ quote False ''error'' @ '':'' @ quote False code @ ''}'')\<rparr>"

definition Recover :: "(request \<Rightarrow> response prog) \<Rightarrow> request \<Rightarrow> response prog" where
  "Recover nxt r = catch (plain_error 500 [] ''internal'') (nxt r)"

section \<open>Configuration\<close>

text \<open>\<open>PerSecond\<close> is a \<open>float64\<close> that is only passed on; it is kept as the rational written.\<close>

record RateRule =
  PerSecond :: rat
  Burst :: int

record RouteRule =
  Method :: string
  Prefix :: string
  Rule :: RateRule

record RateLimitConfig =
  Default :: RateRule
  RuleRoutes :: "RouteRule list"
  IdleEvictAfter :: duration
  MaxBucketsPerRule :: int
  TrustXFF :: bool

text \<open>\<open>rate.NewLimiter\<close>, and \<open>Limiter.Allow\<close> at a time.\<close>

record 'l rate_lib =
  NewLimiter :: "RateRule \<Rightarrow> 'l"
  Allow :: "'l \<Rightarrow> time \<Rightarrow> bool \<times> 'l"

record 'l bucket =
  limiter :: 'l
  last_use :: time

type_synonym 'l buckets = "(string \<times> 'l bucket) list"

text \<open>The maps are association lists with distinct keys; \<open>stop\<close> tells that the eviction loop has ended.\<close>

record 'l rateLimiter =
  rl_cfg :: RateLimitConfig
  keyMap :: "(string \<times> 'l buckets) list"
  stop :: bool

definition rl_defaults :: "RateLimitConfig \<Rightarrow> RateLimitConfig" where
  "rl_defaults c =
     (let c1 = (if IdleEvictAfter c = 0 then c\<lparr>IdleEvictAfter := 10 * Minute\<rparr> else c)
      in if MaxBucketsPerRule c1 = 0 then c1\<lparr>MaxBucketsPerRule := 50000\<rparr> else c1)"

definition new_rateLimiter :: "RateLimitConfig \<Rightarrow> 'l rateLimiter" where
  "new_rateLimiter c = \<lparr>rl_cfg = rl_defaults c, keyMap = [], stop = False\<rparr>"

section \<open>One request\<close>

definition rule_matches :: "request \<Rightarrow> RouteRule \<Rightarrow> bool" where
  "rule_matches r rr \<longleftrightarrow> (Method rr = [] \<or> Method rr = meth r) \<and> HasPrefix (path r) (Prefix rr)"

definition rule_id :: "RouteRule \<Rightarrow> string" where
  "rule_id rr = Method rr @ '':'' @ Prefix rr"

definition matchRule :: "RateLimitConfig \<Rightarrow> request \<Rightarrow> RateRule \<times> string" where
  "matchRule c r =
     (case find (rule_matches r) (RuleRoutes c) of None \<Rightarrow> (Default c, ''default'')
      | Some rr \<Rightarrow> (Rule rr, rule_id rr))"

definition clientIP :: "request \<Rightarrow> bool \<Rightarrow> string" where
  "clientIP r trustXFF =
     (let xff = Get (hdr r) ''X-Forwarded-For'' in
      if trustXFF \<and> xff \<noteq> [] then
        (case IndexByte xff CHR '','' of None \<Rightarrow> TrimSpace xff
         | Some comma \<Rightarrow> if comma > 0 then TrimSpace (take comma xff) else TrimSpace xff)
      else (case SplitHostPort (RemoteAddr r) of None \<Rightarrow> RemoteAddr r | Some (host, _) \<Rightarrow> host))"

definition ips_of :: "(string \<times> 'l buckets) list \<Rightarrow> string \<Rightarrow> 'l buckets" where
  "ips_of m k = (case map_of m k of None \<Rightarrow> [] | Some ips \<Rightarrow> ips)"

text \<open>
  \<open>allow\<close> under the lock: \<open>t\<close> is the reading kept in the bucket, \<open>t'\<close> the one the
  limiter takes.
\<close>

definition allow :: "'l rate_lib \<Rightarrow> 'l rateLimiter \<Rightarrow> string \<Rightarrow> string \<Rightarrow> RateRule \<Rightarrow> time \<Rightarrow> time \<Rightarrow> bool \<times> 'l rateLimiter" where
  "allow lib rl ruleID ip rule t t' =
     (let ips = ips_of (keyMap rl) ruleID;
          store = (\<lambda>ips'. rl\<lparr>keyMap := AList.update ruleID ips' (keyMap rl)\<rparr>);
          ask = (\<lambda>l. let (ok, l') = Allow lib l t' in (ok, store (AList.update ip \<lparr>limiter = l', last_use = t\<rparr> ips)))
      in case map_of ips ip of
           Some b \<Rightarrow> ask (limiter b)
         | None \<Rightarrow>
             if int (length ips) \<ge> MaxBucketsPerRule (rl_cfg rl) then (False, store ips)
             else ask (NewLimiter lib rule))"

definition rl_admit :: "'l rate_lib \<Rightarrow> 'l rateLimiter \<Rightarrow> request \<Rightarrow> time \<Rightarrow> time \<Rightarrow> bool \<times> 'l rateLimiter" where
  "rl_admit lib rl r t t' =
     (let (rule, ruleID) = matchRule (rl_cfg rl) r
      in allow lib rl ruleID (clientIP r (TrustXFF (rl_cfg rl))) rule t t')"

definition rate_limited :: response where
  "rate_limited = plain_error 429 [(''Retry-After'', ''1'')] ''rate_limited''"

text \<open>The handler \<open>RateLimit\<close> returns: what it runs for a request, and the limiter it leaves.\<close>

definition RateLimit :: "'l rate_lib \<Rightarrow> (request \<Rightarrow> response prog) \<Rightarrow> 'l rateLimiter \<Rightarrow> request \<Rightarrow> time \<Rightarrow> time
    \<Rightarrow> response prog \<times> 'l rateLimiter" where
  "RateLimit lib nxt rl r t t' =
     (let (ok, rl') = rl_admit lib rl r t t' in (if ok then nxt r else Ret rate_limited, rl'))"

section \<open>Eviction\<close>

definition evict :: "time \<Rightarrow> 'l rateLimiter \<Rightarrow> 'l rateLimiter" where
  "evict t rl = rl\<lparr>keyMap := filter (\<lambda>(_, ips). ips \<noteq> [])
     (map (\<lambda>(k, ips). (k, filter (\<lambda>(_, b). \<not> time_Sub t (last_use b) > IdleEvictAfter (rl_cfg rl)) ips)) (keyMap rl))\<rparr>"

text \<open>What happens to a limiter: requests, ticks of the eviction loop, and shutdown.\<close>

datatype rl_event = Request request time time | Evict time | Stop

fun rl_step :: "'l rate_lib \<Rightarrow> rl_event \<Rightarrow> 'l rateLimiter \<Rightarrow> 'l rateLimiter" where
  "rl_step lib (Request r t t') rl = snd (rl_admit lib rl r t t')"
| "rl_step lib (Evict t) rl = (if stop rl then rl else evict t rl)"
| "rl_step lib Stop rl = rl\<lparr>stop := True\<rparr>"

text \<open>The answers to the requests of a run, and the limiter it leaves.\<close>

fun rl_run :: "'l rate_lib \<Rightarrow> 'l rateLimiter \<Rightarrow> rl_event list \<Rightarrow> bool list \<times> 'l rateLimiter" where
  "rl_run lib rl [] = ([], rl)"
| "rl_run lib rl (e # es) =
     (let (bs, rl') = rl_run lib (rl_step lib e rl) es
      in (case e of Request r t t' \<Rightarrow> fst (rl_admit lib rl r t t') # bs | _ \<Rightarrow> bs, rl'))"

end
