(* ===== verification/RateLimitFacts.thy ===== *)
theory RateLimitFacts
  imports RateLimit
begin

text \<open>
  What the limiter guarantees: bounded memory in every run, isolation of clients, and
  equivalence with one private bucket per client that is never evicted.
\<close>

section \<open>The panic barrier\<close>

lemma run_catch: "run (catch v p) w = (Some (case fst (run p w) of None \<Rightarrow> v | Some a \<Rightarrow> a), snd (run p w))"
  by (induction p arbitrary: w) (auto simp: Let_def split_beta)

lemma prog_all_catch [simp]: "prog_all P (catch v p) = prog_all P p"
  by (induction p) auto

text \<open>
  Recover: a wrapped handler never panics; it answers what the handler answers, a
  500 when the handler panics, and what the handler did to the database before the
  panic stays done.
\<close>

theorem Recover_answers:
  "run (Recover nxt r) w =
     (Some (case fst (run (nxt r) w) of None \<Rightarrow> plain_error 500 [] ''internal'' | Some resp \<Rightarrow> resp), snd (run (nxt r) w))"
  by (simp add: Recover_def run_catch)

section \<open>The bucket maps\<close>

definition bucket_at :: "'l rateLimiter \<Rightarrow> string \<times> string \<Rightarrow> 'l bucket option" where
  "bucket_at rl k = map_of (ips_of (keyMap rl) (fst k)) (snd k)"

text \<open>Keys are unique and no rule has more buckets than the cap.\<close>

definition rl_wf :: "'l rateLimiter \<Rightarrow> bool" where
  "rl_wf rl \<longleftrightarrow> distinct (map fst (keyMap rl))
     \<and> list_all (\<lambda>(k, ips). distinct (map fst ips) \<and> int (length ips) \<le> MaxBucketsPerRule (rl_cfg rl)) (keyMap rl)"

lemma ips_of_update [simp]: "ips_of (AList.update k v m) l = (if k = l then v else ips_of m l)"
  by (auto simp: ips_of_def update_conv')

lemma ips_of_mem: "ips_of m k \<noteq> [] \<Longrightarrow> (k, ips_of m k) \<in> set m"
  by (auto simp: ips_of_def map_of_SomeD split: option.splits)

lemma ips_wf: "rl_wf rl \<Longrightarrow> distinct (map fst (ips_of (keyMap rl) k))"
  using ips_of_mem [of "keyMap rl" k] by (cases "ips_of (keyMap rl) k = []") (auto simp: rl_wf_def list_all_iff)

lemma ips_cap: "rl_wf rl \<Longrightarrow> 0 \<le> MaxBucketsPerRule (rl_cfg rl) \<Longrightarrow> int (length (ips_of (keyMap rl) k)) \<le> MaxBucketsPerRule (rl_cfg rl)"
  using ips_of_mem [of "keyMap rl" k] by (cases "ips_of (keyMap rl) k = []") (auto simp: rl_wf_def list_all_iff)

lemma set_update_subset: "set (AList.update k v m) \<subseteq> insert (k, v) (set m)"
  by (induction m) auto

lemma length_update: "length (AList.update k v m) = (if k \<in> fst ` set m then length m else Suc (length m))"
  by (induction m) auto

lemma rl_wf_store:
  assumes "rl_wf rl" "distinct (map fst ips)" "int (length ips) \<le> MaxBucketsPerRule (rl_cfg rl)"
  shows "rl_wf (rl\<lparr>keyMap := AList.update k ips (keyMap rl)\<rparr>)"
  using assms set_update_subset [of k ips "keyMap rl"]
  by (fastforce simp: rl_wf_def list_all_iff distinct_update)

lemma allow_cfg [simp]: "rl_cfg (snd (allow lib rl k ip rule t t')) = rl_cfg rl"
  by (auto simp: allow_def Let_def split_beta split: option.splits)

lemma admit_cfg [simp]: "rl_cfg (snd (rl_admit lib rl r t t')) = rl_cfg rl"
  by (simp add: rl_admit_def split_beta)

lemma step_cfg [simp]: "rl_cfg (rl_step lib e rl) = rl_cfg rl"
  by (cases e) (auto simp: evict_def)

lemma allow_wf:
  assumes "rl_wf rl" "0 \<le> MaxBucketsPerRule (rl_cfg rl)"
  shows "rl_wf (snd (allow lib rl k ip rule t t'))"
proof -
  let ?ips = "ips_of (keyMap rl) k"
  note d = ips_wf [OF assms(1), of k] and c = ips_cap [OF assms, of k]
  have "rl_wf (rl\<lparr>keyMap := AList.update k (AList.update ip b ?ips) (keyMap rl)\<rparr>)"
    if "int (length ?ips) < MaxBucketsPerRule (rl_cfg rl) \<or> ip \<in> fst ` set ?ips" for b
    by (rule rl_wf_store [OF assms(1)]) (use that d c in \<open>auto simp: distinct_update length_update\<close>)
  moreover have "rl_wf (rl\<lparr>keyMap := AList.update k ?ips (keyMap rl)\<rparr>)"
    by (rule rl_wf_store [OF assms(1) d c])
  moreover have "ip \<in> fst ` set ?ips" if "map_of ?ips ip = Some b" for b
    using map_of_SomeD [OF that] by force
  ultimately show ?thesis
    by (auto simp: allow_def Let_def split_beta split: option.splits)
qed

lemma evict_wf: "rl_wf rl \<Longrightarrow> rl_wf (evict t rl)"
proof -
  assume wf: "rl_wf rl"
  have sub: "map fst (filter P (map (\<lambda>(k, ips). (k, f ips)) m)) = map fst (filter (\<lambda>(k, ips). P (k, f ips)) m)" for P f m
    by (induction m) auto
  have le: "int (length (filter Q ips)) \<le> c" if "int (length ips) \<le> c" for Q c and ips :: "'a buckets"
    using that length_filter_le [of Q ips] by linarith
  show ?thesis using wf
    by (auto simp: rl_wf_def evict_def sub list_all_iff distinct_map_filter intro!: le)
qed

lemma step_wf: "rl_wf rl \<Longrightarrow> 0 \<le> MaxBucketsPerRule (rl_cfg rl) \<Longrightarrow> rl_wf (rl_step lib e rl)"
  by (cases e) (auto simp: rl_admit_def split_beta allow_wf evict_wf, simp add: rl_wf_def)

lemma run_wf:
  "rl_wf rl \<Longrightarrow> 0 \<le> MaxBucketsPerRule (rl_cfg rl) \<Longrightarrow> rl_wf (snd (rl_run lib rl es)) \<and> rl_cfg (snd (rl_run lib rl es)) = rl_cfg rl"
  by (induction es arbitrary: rl) (auto simp: split_beta Let_def step_wf)

text \<open>
  C34. The limiter's memory is bounded: whatever requests, ticks and shutdowns it has
  seen, each rule has at most one bucket per client address and never more buckets than
  the configured cap, 50000 when none is configured.
\<close>

theorem buckets_bounded:
  fixes rl :: "'l rateLimiter"
  assumes "0 \<le> MaxBucketsPerRule c" "snd (rl_run lib (new_rateLimiter c) es) = rl"
  shows "distinct (map fst (ips_of (keyMap rl) k))
    \<and> int (length (ips_of (keyMap rl) k)) \<le> (if MaxBucketsPerRule c = 0 then 50000 else MaxBucketsPerRule c)"
proof -
  let ?r = "new_rateLimiter c :: 'l rateLimiter"
  have cfg: "MaxBucketsPerRule (rl_cfg ?r) = (if MaxBucketsPerRule c = 0 then 50000 else MaxBucketsPerRule c)"
    by (simp add: new_rateLimiter_def rl_defaults_def Let_def)
  then have m: "0 \<le> MaxBucketsPerRule (rl_cfg ?r)" using assms(1) by simp
  have "rl_wf ?r" by (simp add: rl_wf_def new_rateLimiter_def)
  from run_wf [OF this m, of lib es] have "rl_wf rl" "rl_cfg rl = rl_cfg ?r" using assms(2) by auto
  then show ?thesis using ips_wf [of rl k] ips_cap [of rl k] cfg m by simp
qed

section \<open>Eviction\<close>

lemma map_of_filter_snd: "distinct (map fst m) \<Longrightarrow> map_of (filter (\<lambda>(_, v). P v) m) k = (case map_of m k of None \<Rightarrow> None | Some v \<Rightarrow> if P v then Some v else None)"
proof (induction m)
  case (Cons e m)
  obtain a b where e: "e = (a, b)" by (cases e)
  have n: "map_of m a = None" using Cons.prems e by (simp add: map_of_eq_None_iff)
  have "map_of (filter (\<lambda>(_, v). P v) m) k = (case map_of m k of None \<Rightarrow> None | Some v \<Rightarrow> if P v then Some v else None)"
    using Cons by auto
  then show ?case using e n by (auto split: option.splits)
qed simp

lemma ips_of_evict:
  assumes "rl_wf rl"
  shows "ips_of (keyMap (evict t rl)) k
    = filter (\<lambda>(_, b). \<not> time_Sub t (last_use b) > IdleEvictAfter (rl_cfg rl)) (ips_of (keyMap rl) k)"
proof -
  let ?f = "filter (\<lambda>(_, b). \<not> time_Sub t (last_use b) > IdleEvictAfter (rl_cfg rl))"
  let ?m = "map (\<lambda>(k, ips). (k, ?f ips)) (keyMap rl)"
  have d: "distinct (map fst ?m)" using assms by (simp add: rl_wf_def comp_def split_beta)
  have "map_of (filter (\<lambda>(_, ips). ips \<noteq> []) ?m) k
      = (case map_of ?m k of None \<Rightarrow> None | Some v \<Rightarrow> if v \<noteq> [] then Some v else None)"
    by (rule map_of_filter_snd [OF d])
  moreover have "map_of ?m k = map_option ?f (map_of (keyMap rl) k)"
    by (simp add: map_of_map)
  ultimately show ?thesis
    by (auto simp: ips_of_def evict_def split: option.splits)
qed

lemma bucket_at_evict:
  assumes "rl_wf rl"
  shows "bucket_at (evict t rl) k
    = (case bucket_at rl k of None \<Rightarrow> None
       | Some b \<Rightarrow> if time_Sub t (last_use b) > IdleEvictAfter (rl_cfg rl) then None else Some b)"
  using ips_wf [OF assms, of "fst k"]
  by (simp add: bucket_at_def ips_of_evict [OF assms] map_of_filter_snd split: option.splits)

text \<open>
  A request of one client leaves every other client's bucket, and every bucket of
  other rules, as it is; a tick of the eviction loop removes exactly the buckets that
  have been idle for longer than configured and changes no other.
\<close>

theorem buckets_isolated:
  assumes "rl_wf rl" "k \<noteq> (ruleID, ip)"
  shows "bucket_at (snd (allow lib rl ruleID ip rule t t')) k = bucket_at rl k
    \<and> bucket_at (evict u rl) k = (case bucket_at rl k of None \<Rightarrow> None
       | Some b \<Rightarrow> if time_Sub u (last_use b) > IdleEvictAfter (rl_cfg rl) then None else Some b)"
  using assms bucket_at_evict [OF assms(1)]
  by (cases k) (auto simp: bucket_at_def allow_def Let_def split_beta update_conv' split: option.splits)

lemma bucket_at_allow:
  "bucket_at (snd (allow lib rl ruleID ip rule t t')) k =
     (if k \<noteq> (ruleID, ip) then bucket_at rl k
      else case bucket_at rl k of
          Some b \<Rightarrow> Some \<lparr>limiter = snd (Allow lib (limiter b) t'), last_use = t\<rparr>
        | None \<Rightarrow> if int (length (ips_of (keyMap rl) ruleID)) \<ge> MaxBucketsPerRule (rl_cfg rl) then None
                  else Some \<lparr>limiter = snd (Allow lib (NewLimiter lib rule) t'), last_use = t\<rparr>)"
  by (cases k) (auto simp: bucket_at_def allow_def Let_def split_beta update_conv' split: option.splits)

lemma allow_answer:
  "fst (allow lib rl ruleID ip rule t t') =
     (case bucket_at rl (ruleID, ip) of
          Some b \<Rightarrow> fst (Allow lib (limiter b) t')
        | None \<Rightarrow> int (length (ips_of (keyMap rl) ruleID)) < MaxBucketsPerRule (rl_cfg rl)
                  \<and> fst (Allow lib (NewLimiter lib rule) t'))"
  by (auto simp: bucket_at_def allow_def Let_def split_beta split: option.splits)

section \<open>Equivalence with private buckets\<close>

definition key_of :: "RateLimitConfig \<Rightarrow> request \<Rightarrow> string \<times> string" where
  "key_of c r = (snd (matchRule c r), clientIP r (TrustXFF c))"

text \<open>A bucket of one's own, asked at the times \<open>ts\<close>.\<close>

definition ask_all :: "'l rate_lib \<Rightarrow> RateRule \<Rightarrow> time list \<Rightarrow> 'l" where
  "ask_all lib rule ts = foldl (\<lambda>l t. snd (Allow lib l t)) (NewLimiter lib rule) ts"

text \<open>
  The reference: every client of a rule has its own bucket, which sees only that
  client's requests and is never evicted; \<open>h\<close> is what each has been asked.
\<close>

fun private_run :: "'l rate_lib \<Rightarrow> RateLimitConfig \<Rightarrow> (string \<times> string \<Rightarrow> time list) \<Rightarrow> rl_event list \<Rightarrow> bool list" where
  "private_run lib c h [] = []"
| "private_run lib c h (Request r t t' # es) =
     (let k = key_of c r in
      fst (Allow lib (ask_all lib (fst (matchRule c r)) (h k)) t') # private_run lib c (h(k := h k @ [t'])) es)"
| "private_run lib c h (Evict t # es) = private_run lib c h es"
| "private_run lib c h (Stop # es) = private_run lib c h es"

text \<open>
  Clock readings do not go back, and the two of one request are at most \<open>g\<close> apart; a
  tick may carry an older reading.
\<close>

fun timed :: "duration \<Rightarrow> time \<Rightarrow> rl_event list \<Rightarrow> bool" where
  "timed g u [] \<longleftrightarrow> True"
| "timed g u (Request r t t' # es) \<longleftrightarrow> u \<le> t \<and> t \<le> t' \<and> t' \<le> t + g \<and> timed g t' es"
| "timed g u (Evict t # es) \<longleftrightarrow> timed g (max u t) es"
| "timed g u (Stop # es) \<longleftrightarrow> timed g u es"

definition rules_of :: "RateLimitConfig \<Rightarrow> RateRule list" where
  "rules_of c = Default c # map Rule (RuleRoutes c)"

text \<open>
  The law of the library: a bucket that has not been asked for \<open>d\<close> is full again, and
  so answers, and ends up, as a new one.
\<close>

definition refills :: "'l rate_lib \<Rightarrow> duration \<Rightarrow> RateRule list \<Rightarrow> bool" where
  "refills lib d rules \<longleftrightarrow>
     (\<forall>rule \<in> set rules. \<forall>ts u v. sorted (ts @ [u]) \<longrightarrow> u + d \<le> v \<longrightarrow>
        Allow lib (ask_all lib rule (ts @ [u])) v = Allow lib (NewLimiter lib rule) v)"

fun request_key :: "RateLimitConfig \<Rightarrow> rl_event \<Rightarrow> (string \<times> string) option" where
  "request_key c (Request r t t') = Some (key_of c r)"
| "request_key c _ = None"

definition clients :: "RateLimitConfig \<Rightarrow> rl_event list \<Rightarrow> string \<Rightarrow> string set" where
  "clients c es ruleID = {ip. Some (ruleID, ip) \<in> set (map (request_key c) es)}"

definition colon_free :: "RateLimitConfig \<Rightarrow> bool" where
  "colon_free c \<longleftrightarrow> list_all (\<lambda>rr. CHR '':'' \<notin> set (Method rr)) (RuleRoutes c)"

text \<open>The rule behind an identifier.\<close>

definition rule_of :: "RateLimitConfig \<Rightarrow> string \<Rightarrow> RateRule" where
  "rule_of c k = (if k = ''default'' then Default c
     else case find (\<lambda>rr. rule_id rr = k) (RuleRoutes c) of None \<Rightarrow> Default c | Some rr \<Rightarrow> Rule rr)"

lemma rule_of_mem: "rule_of c k \<in> set (rules_of c)"
  using find_Some_mem [of _ "RuleRoutes c"] by (fastforce simp: rule_of_def rules_of_def split: option.splits)

lemma append_colon_inject:
  "CHR '':'' \<notin> set a \<Longrightarrow> CHR '':'' \<notin> set b \<Longrightarrow> a @ '':'' @ x = b @ '':'' @ y \<longleftrightarrow> a = b \<and> x = y"
  by (induction a arbitrary: b; case_tac b) auto

lemma find_cong: "(\<And>x. x \<in> set xs \<Longrightarrow> P x \<longleftrightarrow> Q x) \<Longrightarrow> find P xs = find Q xs"
  by (induction xs) auto

lemma find_refine: "find P xs = Some x \<Longrightarrow> Q x \<Longrightarrow> (\<And>y. y \<in> set xs \<Longrightarrow> Q y \<Longrightarrow> P y) \<Longrightarrow> find Q xs = Some x"
  by (induction xs) (auto split: if_splits)

lemma rule_id_not_default: "rule_id rr \<noteq> ''default''"
proof
  assume "rule_id rr = ''default''"
  then have "CHR '':'' \<in> set ''default''" by (metis rule_id_def in_set_conv_decomp append_Cons append_Nil)
  then show False by simp
qed

lemma matchRule_rule:
  assumes "colon_free c"
  shows "fst (matchRule c r) = rule_of c (snd (matchRule c r))"
proof (cases "find (rule_matches r) (RuleRoutes c)")
  case None
  then show ?thesis by (simp add: matchRule_def rule_of_def)
next
  case (Some rr)
  have m: "rr \<in> set (RuleRoutes c)" "rule_matches r rr" using find_Some_mem [OF Some] by auto
  have "rule_matches r rr'" if "rr' \<in> set (RuleRoutes c)" "rule_id rr' = rule_id rr" for rr'
  proof -
    have "Method rr' = Method rr \<and> Prefix rr' = Prefix rr"
      using that m(1) assms append_colon_inject [of "Method rr'" "Method rr" "Prefix rr'" "Prefix rr"]
      by (auto simp: rule_id_def colon_free_def list_all_iff)
    then show ?thesis using m(2) by (simp add: rule_matches_def)
  qed
  then have "find (\<lambda>rr'. rule_id rr' = rule_id rr) (RuleRoutes c) = Some rr"
    by (intro find_refine [OF Some]) auto
  then show ?thesis using Some by (simp add: matchRule_def rule_of_def rule_id_not_default)
qed

text \<open>
  The limiter's state represents the histories: a bucket is what its history makes of
  it, and a missing one has been idle long enough to be full.
\<close>

definition represents :: "'l rate_lib \<Rightarrow> duration \<Rightarrow> duration \<Rightarrow> time \<Rightarrow> (string \<times> string \<Rightarrow> time list) \<Rightarrow> 'l rateLimiter \<Rightarrow> bool" where
  "represents lib d g u h rl \<longleftrightarrow> rl_wf rl \<and>
     (\<forall>k. sorted (h k) \<and> (\<forall>t \<in> set (h k). t \<le> u)
       \<and> (case bucket_at rl k of
            None \<Rightarrow> h k = [] \<or> last (h k) + d \<le> u
          | Some b \<Rightarrow> h k \<noteq> [] \<and> limiter b = ask_all lib (rule_of (rl_cfg rl) (fst k)) (h k)
               \<and> last (h k) \<le> last_use b + g))"

lemma representsD:
  assumes "represents lib d g u h rl"
  shows "rl_wf rl" "sorted (h k)" "t \<in> set (h k) \<Longrightarrow> t \<le> u"
    "bucket_at rl k = None \<Longrightarrow> h k = [] \<or> last (h k) + d \<le> u"
    "bucket_at rl k = Some b \<Longrightarrow> h k \<noteq> [] \<and> limiter b = ask_all lib (rule_of (rl_cfg rl) (fst k)) (h k)
       \<and> last (h k) \<le> last_use b + g"
proof -
  from assms have "rl_wf rl" and k: "sorted (h k)" "\<forall>t \<in> set (h k). t \<le> u"
    "case bucket_at rl k of None \<Rightarrow> h k = [] \<or> last (h k) + d \<le> u
       | Some b \<Rightarrow> h k \<noteq> [] \<and> limiter b = ask_all lib (rule_of (rl_cfg rl) (fst k)) (h k) \<and> last (h k) \<le> last_use b + g"
    unfolding represents_def by blast+
  then show "rl_wf rl" "sorted (h k)" "t \<in> set (h k) \<Longrightarrow> t \<le> u"
    "bucket_at rl k = None \<Longrightarrow> h k = [] \<or> last (h k) + d \<le> u"
    "bucket_at rl k = Some b \<Longrightarrow> h k \<noteq> [] \<and> limiter b = ask_all lib (rule_of (rl_cfg rl) (fst k)) (h k)
       \<and> last (h k) \<le> last_use b + g" by auto
qed

lemma representsI:
  assumes "rl_wf rl" "\<And>k. sorted (h k)" "\<And>k t. t \<in> set (h k) \<Longrightarrow> t \<le> u"
    and "\<And>k. bucket_at rl k = None \<Longrightarrow> h k = [] \<or> last (h k) + d \<le> u"
    and "\<And>k b. bucket_at rl k = Some b \<Longrightarrow> h k \<noteq> [] \<and> limiter b = ask_all lib (rule_of (rl_cfg rl) (fst k)) (h k)
       \<and> last (h k) \<le> last_use b + g"
  shows "represents lib d g u h rl"
  using assms unfolding represents_def by (auto split: option.split)

lemma represents_later:
  assumes "represents lib d g u h rl" "u \<le> v"
  shows "represents lib d g v h rl"
proof (rule representsI)
  show "t \<le> v" if "t \<in> set (h k)" for k t using representsD(3) [OF assms(1) that] assms(2) by simp
  show "h k = [] \<or> last (h k) + d \<le> v" if "bucket_at rl k = None" for k
    using representsD(4) [OF assms(1) that] assms(2) by auto
qed (use representsD [OF assms(1)] in blast)+

lemma represents_evict:
  assumes "represents lib d g u h rl" "0 \<le> IdleEvictAfter (rl_cfg rl)" "d + g \<le> IdleEvictAfter (rl_cfg rl)"
  shows "represents lib d g (max u t) h (evict t rl)"
proof -
  note r = representsD [OF represents_later [OF assms(1), of "max u t"]]
  have cfg: "rl_cfg (evict t rl) = rl_cfg rl" by (simp add: evict_def)
  have idle: "last (h k) + d \<le> max u t" if "bucket_at rl k = Some b" "time_Sub t (last_use b) > IdleEvictAfter (rl_cfg rl)" for k b
  proof -
    have "t - last_use b > IdleEvictAfter (rl_cfg rl)" using that(2) assms(2)
      by (auto simp: time_Sub_def minDuration_def split: if_splits)
    moreover have "last (h k) \<le> last_use b + g" using r(5) [OF _ that(1)] by simp
    ultimately show ?thesis using assms(3) by linarith
  qed
  show ?thesis unfolding represents_def cfg
    using r evict_wf [OF r(1)] idle
    by (auto simp: bucket_at_evict [OF r(1)] split: option.splits)
qed

lemma ask_all_snoc: "ask_all lib rule (ts @ [t]) = snd (Allow lib (ask_all lib rule ts) t)"
  by (simp add: ask_all_def)

text \<open>An idle history asks like a new bucket.\<close>

lemma idle_is_new:
  assumes "refills lib d (rules_of c)" "sorted ts" "ts = [] \<or> last ts + d \<le> t"
  shows "Allow lib (ask_all lib (rule_of c k) ts) t = Allow lib (NewLimiter lib (rule_of c k)) t"
proof (cases "ts = []")
  case True
  then show ?thesis by (simp add: ask_all_def)
next
  case False
  then have "ts = butlast ts @ [last ts]" by simp
  then show ?thesis using assms False rule_of_mem [of c k] unfolding refills_def by metis
qed

lemma represents_request:
  assumes r: "represents lib d g u h rl"
    and c: "colon_free (rl_cfg rl)" "refills lib d (rules_of (rl_cfg rl))"
    and t: "u \<le> t" "t \<le> t'" "t' \<le> t + g"
    and room: "bucket_at rl (key_of (rl_cfg rl) q) = None
        \<Longrightarrow> int (length (ips_of (keyMap rl) (fst (key_of (rl_cfg rl) q)))) < MaxBucketsPerRule (rl_cfg rl)"
    and cap: "0 \<le> MaxBucketsPerRule (rl_cfg rl)"
  defines "k \<equiv> key_of (rl_cfg rl) q"
  shows "fst (rl_admit lib rl q t t') = fst (Allow lib (ask_all lib (fst (matchRule (rl_cfg rl) q)) (h k)) t')
    \<and> represents lib d g t' (h(k := h k @ [t'])) (snd (rl_admit lib rl q t t'))"
proof -
  let ?c = "rl_cfg rl" and ?rule = "rule_of (rl_cfg rl) (fst k)"
  note D = representsD [OF r]
  have rule: "fst (matchRule ?c q) = ?rule" using matchRule_rule [OF c(1), of q] by (simp add: k_def key_of_def)
  have adm: "rl_admit lib rl q t t' = allow lib rl (fst k) (snd k) ?rule t t'"
    using rule by (simp add: rl_admit_def split_beta k_def key_of_def)
  have new: "Allow lib (NewLimiter lib ?rule) t' = Allow lib (ask_all lib ?rule (h k)) t'" if "bucket_at rl k = None"
    using idle_is_new [OF c(2) D(2), of k t' "fst k"] D(4) [OF that] t by force
  have ans: "fst (rl_admit lib rl q t t') = fst (Allow lib (ask_all lib ?rule (h k)) t')"
    using D(5) [of k] new room by (auto simp: adm allow_answer k_def [symmetric] split: option.splits)
  have at: "bucket_at (snd (rl_admit lib rl q t t')) l =
      (if l = k then Some \<lparr>limiter = ask_all lib ?rule (h k @ [t']), last_use = t\<rparr> else bucket_at rl l)" for l
    using D(5) [of k] new room by (auto simp: adm bucket_at_allow ask_all_snoc k_def [symmetric] split: option.splits)
  have "represents lib d g t' (h(k := h k @ [t'])) (snd (rl_admit lib rl q t t'))"
  proof (rule representsI)
    show "rl_wf (snd (rl_admit lib rl q t t'))" using allow_wf [OF D(1) cap] by (simp add: adm)
    have le: "x \<le> t'" if "x \<in> set (h l)" for x l using D(3) [OF that] t by linarith
    then show "sorted ((h(k := h k @ [t'])) l)" for l
    proof -
      have "\<forall>x \<in> set (h k). x \<le> t'" using le by blast
      moreover have "sorted (h k)" "sorted (h l)" using D(2) by blast+
      ultimately show ?thesis by (simp add: sorted_append)
    qed
    show "x \<le> t'" if "x \<in> set ((h(k := h k @ [t'])) l)" for l x
      using that le [of x k] le [of x l] by (simp split: if_splits) blast
    show "(h(k := h k @ [t'])) l = [] \<or> last ((h(k := h k @ [t'])) l) + d \<le> t'"
      if "bucket_at (snd (rl_admit lib rl q t t')) l = None" for l
      using that D(4) [of l] t by (auto simp: at split: if_splits)
    show "(h(k := h k @ [t'])) l \<noteq> []
      \<and> limiter b = ask_all lib (rule_of (rl_cfg (snd (rl_admit lib rl q t t'))) (fst l)) ((h(k := h k @ [t'])) l)
      \<and> last ((h(k := h k @ [t'])) l) \<le> last_use b + g"
      if "bucket_at (snd (rl_admit lib rl q t t')) l = Some b" for l b
      using that D(5) [of l b] t(3) by (auto simp: at split: if_splits)
  qed
  then show ?thesis using ans rule by simp
qed

lemma bucket_at_keys: "rl_wf rl \<Longrightarrow> ip \<in> fst ` set (ips_of (keyMap rl) k) \<longleftrightarrow> bucket_at rl (k, ip) \<noteq> None"
  by (auto simp: bucket_at_def map_of_eq_None_iff)

text \<open>There is room for a new client as long as all clients together fit.\<close>

lemma room_for:
  assumes "rl_wf rl" "fst ` set (ips_of (keyMap rl) k) \<subseteq> U" "ip \<in> U" "finite U" "int (card U) \<le> m"
    and "bucket_at rl (k, ip) = None"
  shows "int (length (ips_of (keyMap rl) k)) < m"
proof -
  let ?K = "fst ` set (ips_of (keyMap rl) k)"
  have "length (ips_of (keyMap rl) k) = card ?K"
    using ips_wf [OF assms(1), of k] by (metis distinct_card length_map set_map)
  moreover have "card ?K < card U"
  proof (rule psubset_card_mono [OF assms(4)])
    have "ip \<notin> ?K" using assms(6) bucket_at_keys [OF assms(1)] by simp
    then show "?K \<subset> U" using assms(2,3) by blast
  qed
  ultimately show ?thesis using assms(5) by simp
qed

lemma run_equivalent:
  assumes "represents lib d g u h rl" "rl_cfg rl = c" "timed g u es"
    and "colon_free c" "refills lib d (rules_of c)" "0 \<le> d" "0 \<le> g" "d + g \<le> IdleEvictAfter c" "0 \<le> MaxBucketsPerRule c"
    and "\<And>k. fst ` set (ips_of (keyMap rl) k) \<subseteq> U k" "\<And>k. clients c es k \<subseteq> U k"
    and "\<And>k. finite (U k)" "\<And>k. int (card (U k)) \<le> MaxBucketsPerRule c"
  shows "fst (rl_run lib rl es) = private_run lib c h es"
  using assms(1,2,3,10,11)
proof (induction es arbitrary: u h rl)
  case (Cons e es)
  have sub: "clients c es k \<subseteq> U k" for k using Cons.prems(5) [of k] by (auto simp: clients_def)
  show ?case
  proof (cases e)
    case (Request q t t')
    let ?k = "key_of c q" and ?rl = "snd (rl_admit lib rl q t t')"
    note wf = representsD(1) [OF Cons.prems(1)]
    have mem: "snd ?k \<in> U (fst ?k)" using Cons.prems(5) [of "fst ?k"] Request by (auto simp: clients_def)
    have room: "bucket_at rl ?k = None \<Longrightarrow> int (length (ips_of (keyMap rl) (fst ?k))) < MaxBucketsPerRule c"
      using room_for [OF wf Cons.prems(4) mem assms(12,13)] by simp
    have tm: "u \<le> t" "t \<le> t'" "t' \<le> t + g" "timed g t' es" using Cons.prems(3) Request by auto
    have one: "fst (rl_admit lib rl q t t') = fst (Allow lib (ask_all lib (fst (matchRule c q)) (h ?k)) t')"
      "represents lib d g t' (h(?k := h ?k @ [t'])) ?rl"
      using represents_request [OF Cons.prems(1), where q = q and t = t and t' = t'] Cons.prems(2) assms(4,5,9) room tm(1-3)
      by auto
    have "fst ` set (ips_of (keyMap ?rl) k) \<subseteq> U k" for k
    proof
      fix ip assume "ip \<in> fst ` set (ips_of (keyMap ?rl) k)"
      then have "bucket_at ?rl (k, ip) \<noteq> None"
        using bucket_at_keys [OF representsD(1) [OF one(2)]] by simp
      then have "bucket_at rl (k, ip) \<noteq> None \<or> (k, ip) = ?k"
        using bucket_at_allow [of lib rl "fst ?k" "snd ?k" _ t t' "(k, ip)"]
        by (auto simp: rl_admit_def split_beta key_of_def Cons.prems(2) split: if_splits)
      then show "ip \<in> U k"
        using mem Cons.prems(4) [of k] bucket_at_keys [OF wf, of ip k] by (metis fst_conv snd_conv subsetD)
    qed
    from Cons.IH [OF one(2) _ tm(4) this sub] Cons.prems(2) one(1) Request show ?thesis
      by (simp add: Let_def split_beta fun_upd_def)
  next
    case (Evict t)
    show ?thesis
    proof (cases "stop rl")
      case True
      have "represents lib d g (max u t) h rl" using represents_later [OF Cons.prems(1)] by simp
      from Cons.IH [OF this Cons.prems(2) _ Cons.prems(4) sub] True Evict Cons.prems(3) show ?thesis
        by (simp add: split_beta)
    next
      case False
      have ev: "represents lib d g (max u t) h (evict t rl)"
        by (rule represents_evict [OF Cons.prems(1)]) (use assms(6-8) Cons.prems(2) in auto)
      have k: "fst ` set (ips_of (keyMap (evict t rl)) k) \<subseteq> U k" for k
        using Cons.prems(4) [of k] by (auto simp: ips_of_evict [OF representsD(1) [OF Cons.prems(1)]])
      have "rl_cfg (evict t rl) = c" using Cons.prems(2) by (simp add: evict_def)
      from Cons.IH [OF ev this _ k sub] False Evict Cons.prems(3) show ?thesis by (simp add: split_beta)
    qed
  next
    case Stop
    have "represents lib d g u h (rl\<lparr>stop := True\<rparr>)"
    proof -
      have same: "rl_wf (rl\<lparr>stop := True\<rparr>) = rl_wf rl" "bucket_at (rl\<lparr>stop := True\<rparr>) k = bucket_at rl k"
        "rl_cfg (rl\<lparr>stop := True\<rparr>) = rl_cfg rl" for k
        by (simp_all add: bucket_at_def rl_wf_def)
      show ?thesis using Cons.prems(1) unfolding represents_def same .
    qed
    from Cons.IH [OF this] Cons.prems Stop sub show ?thesis by (simp add: split_beta)
  qed
qed simp


end
