(* ===== verification/Relay.thy ===== *)
theory Relay
  imports Protocol RateLimitFacts
begin

text \<open>
  \<open>cmd/interchange\<close>: the relay.  The two listeners, the limiter, the sweeper and the
  running handlers form one state; an event is a request, a tick of the limiter's
  eviction loop, the next call of a running program, or a step of the shutdown.
\<close>

section \<open>The static pages\<close>

text \<open>\<open>page\<close> and \<open>doc\<close> are the constant texts of \<open>landing.go\<close> and of the discovery document.\<close>

definition landing_headers :: "(string \<times> string) list" where
  "landing_headers =
     [(''Content-Type'', ''text/html; charset=utf-8''), (''Cache-Control'', ''public, max-age=3600''),
      (''Content-Security-Policy'', ''default-src '' @ [CHR 0x27] @ ''none'' @ [CHR 0x27] @ ''; ''
        @ ''style-src '' @ [CHR 0x27] @ ''unsafe-inline'' @ [CHR 0x27] @ '' https://fonts.googleapis.com; ''
        @ ''font-src https://fonts.gstatic.com; ''
        @ ''img-src '' @ [CHR 0x27] @ ''self'' @ [CHR 0x27] @ '' data:; ''
        @ ''frame-ancestors '' @ [CHR 0x27] @ ''none'' @ [CHR 0x27]),
      (''X-Content-Type-Options'', ''nosniff''), (''Referrer-Policy'', ''no-referrer'')]"

definition landing_Handler :: "string \<Rightarrow> request \<Rightarrow> response" where
  "landing_Handler page r =
     (if path r \<noteq> ''/'' then NotFound
      else if meth r \<noteq> ''GET'' then methodNotAllowed ''GET''
      else \<lparr>status = 200, headers = landing_headers, payload = Text page\<rparr>)"

definition discovery_Handler :: "string \<Rightarrow> request \<Rightarrow> response" where
  "discovery_Handler doc r =
     (if meth r \<noteq> ''GET'' then methodNotAllowed ''GET''
      else \<lparr>status = 200, headers = [json_type, (''Cache-Control'', ''public, max-age=300'')], payload = Text doc\<rparr>)"

definition ok_response :: response where
  "ok_response = \<lparr>status = 200, headers = [], payload = Text ''ok''\<rparr>"

definition public_health :: "request \<Rightarrow> response" where
  "public_health r = (if meth r \<noteq> ''GET'' then methodNotAllowed ''GET'' else ok_response)"

section \<open>Configuration\<close>

record flags =
  interchangeID :: string
  sweepInterval :: duration
  envelopeMaxAge :: duration
  ownerSecret :: string

definition rateCfg :: RateLimitConfig where
  "rateCfg =
     \<lparr>Default = \<lparr>PerSecond = 5, Burst = 10\<rparr>,
      RuleRoutes =
        [\<lparr>Method = ''POST'', Prefix = ''/pair/request'', Rule = \<lparr>PerSecond = 5 / 60, Burst = 5\<rparr>\<rparr>,
         \<lparr>Method = ''PUT'', Prefix = ''/mailbox/'', Rule = \<lparr>PerSecond = 1, Burst = 60\<rparr>\<rparr>,
         \<lparr>Method = ''GET'', Prefix = ''/mailbox/'', Rule = \<lparr>PerSecond = 2, Burst = 120\<rparr>\<rparr>],
      IdleEvictAfter = 0, MaxBucketsPerRule = 0, TrustXFF = True\<rparr>"

definition sweep_config :: "flags \<Rightarrow> config" where
  "sweep_config f = defaults \<lparr>Interval = sweepInterval f, EnvelopeMaxAge = envelopeMaxAge f\<rparr>"

text \<open>What the program is linked with: the Ed25519 and rate libraries, and the static texts.\<close>

record 'l relay_env =
  edv :: ed_verify
  rate :: "'l rate_lib"
  landing_page :: string
  discovery_doc :: string
  relay_flags :: flags

section \<open>The two listeners\<close>

definition serve_mux :: "(string list \<times> (request \<Rightarrow> response prog)) list \<Rightarrow> string \<Rightarrow> request \<Rightarrow> response prog" where
  "serve_mux pats esc r =
     (case mux pats (meth r) esc (path r) of
        Serve h \<Rightarrow> h r
      | Redirect loc \<Rightarrow> Ret (redirect_response loc)
      | Unmatched \<Rightarrow> Ret NotFound)"

definition public_handlers :: "'l relay_env \<Rightarrow> (string list \<times> (request \<Rightarrow> response prog)) list" where
  "public_handlers env =
     [([[]], \<lambda>r. Ret (landing_Handler (landing_page env) r)),
      ([''.well-known'', ''nexus-interchange''], \<lambda>r. Ret (discovery_Handler (discovery_doc env) r)),
      ([''health''], \<lambda>r. Ret (public_health r)),
      ([''mailbox'', []], dispatch SQLite (EdVerifier_Identify (edv env))),
      ([''pair'', []], dispatchPublic (edv env) SQLite)]"

definition tailnet_handlers :: "'l relay_env \<Rightarrow> (string list \<times> (request \<Rightarrow> response prog)) list" where
  "tailnet_handlers env =
     [([''pair'', []], dispatchOwner (edv env) (ownerSecret (relay_flags env)) SQLite),
      ([''health''], \<lambda>_. Ret ok_response)]"

definition publicMux :: "'l relay_env \<Rightarrow> string \<Rightarrow> request \<Rightarrow> response prog" where
  "publicMux env = serve_mux (public_handlers env)"

definition tailnetMux :: "'l relay_env \<Rightarrow> string \<Rightarrow> request \<Rightarrow> response prog" where
  "tailnetMux env = serve_mux (tailnet_handlers env)"

definition publicHandler :: "'l relay_env \<Rightarrow> 'l rateLimiter \<Rightarrow> string \<Rightarrow> request \<Rightarrow> time \<Rightarrow> time
    \<Rightarrow> response prog \<times> 'l rateLimiter" where
  "publicHandler env rl esc r t t' =
     (let (p, rl') = RateLimit (rate env) (publicMux env esc) rl r t t' in (Recover (\<lambda>_. p) r, rl'))"

definition tailnetHandler :: "'l relay_env \<Rightarrow> string \<Rightarrow> request \<Rightarrow> response prog" where
  "tailnetHandler env esc r = Recover (tailnetMux env esc) r"

section \<open>The running relay\<close>

datatype outcome = Answered response | Logged "sweep_log list" bool

record 'l relay =
  limiters :: "'l rateLimiter"
  public_open :: bool
  tailnet_open :: bool
  running :: "outcome prog list"
  rworld :: world

definition answering :: "response prog \<Rightarrow> outcome prog" where
  "answering p = bind p (\<lambda>resp. Ret (Answered resp))"

definition sweeping :: "(sterr \<Rightarrow> bool) \<Rightarrow> flags \<Rightarrow> wake list \<Rightarrow> outcome prog" where
  "sweeping canceled f es = bind (Run canceled SQLite (sweep_config f) es) (\<lambda>(ls, b). Ret (Logged ls b))"

text \<open>The next call of a program, as \<open>step\<close> has it; a finished one stays.\<close>

fun call :: "'a prog \<times> world \<Rightarrow> 'a prog \<times> world" where
  "call (Ret a, w) = (Ret a, w)"
| "call (Panic, w) = (Panic, w)"
| "call (Exec s k, w) = (let (r, w') = exec_world s w in (k r, w'))"
| "call (Now k, w) = (k (clock w 0), w\<lparr>clock := \<lambda>n. clock w (Suc n)\<rparr>)"
| "call (Rand k, w) = (k (entropy w 0), w\<lparr>entropy := \<lambda>n. entropy w (Suc n)\<rparr>)"

datatype relay_event =
    Public string request time time
  | Tailnet string request
  | LimiterTick time
  | Call nat
  | ClosePublic
  | CloseTailnet
  | StopLimiter

fun relay_step :: "'l relay_env \<Rightarrow> relay_event \<Rightarrow> 'l relay \<Rightarrow> 'l relay" where
  "relay_step env (Public esc r t t') s =
     (if public_open s then
        let (p, rl) = publicHandler env (limiters s) esc r t t'
        in s\<lparr>limiters := rl, running := running s @ [answering p]\<rparr>
      else s)"
| "relay_step env (Tailnet esc r) s =
     (if tailnet_open s then s\<lparr>running := running s @ [answering (tailnetHandler env esc r)]\<rparr> else s)"
| "relay_step env (LimiterTick t) s = s\<lparr>limiters := rl_step (rate env) (Evict t) (limiters s)\<rparr>"
| "relay_step env (Call i) s =
     (if i < length (running s) then
        let (p, w) = call (running s ! i, rworld s) in s\<lparr>running := (running s)[i := p], rworld := w\<rparr>
      else s)"
| "relay_step env ClosePublic s = s\<lparr>public_open := False\<rparr>"
| "relay_step env CloseTailnet s = s\<lparr>tailnet_open := False\<rparr>"
| "relay_step env StopLimiter s = s\<lparr>limiters := rl_step (rate env) Stop (limiters s)\<rparr>"

definition relay_run :: "'l relay_env \<Rightarrow> relay_event list \<Rightarrow> 'l relay \<Rightarrow> 'l relay" where
  "relay_run env es s = foldl (\<lambda>s e. relay_step env e s) s es"

text \<open>\<open>main\<close> drains the public listener, then the tailnet one, then stops the limiter.\<close>

definition shutdown :: "relay_event list" where
  "shutdown = [ClosePublic, CloseTailnet, StopLimiter]"

section \<open>Startup\<close>

datatype relay_fatal = IdRequired | OpenFailed sterr | SchemaFailed sterr

definition relay_open :: "string \<Rightarrow> flags \<Rightarrow> relay_fatal option prog" where
  "relay_open schema f =
     (if interchangeID f = [] then Ret (Some IdRequired)
      else bind OpenSQLite (\<lambda>e. case e of Some x \<Rightarrow> Ret (Some (OpenFailed x))
        | None \<Rightarrow> bind (SQLite_CreateSchema schema) (\<lambda>e. case e of Some x \<Rightarrow> Ret (Some (SchemaFailed x)) | None \<Rightarrow> Ret None)))"

text \<open>
  \<open>es\<close> are the wake-ups the sweeper will see; \<open>w\<close> is the world the process starts in.
\<close>

definition relay_main :: "(sterr \<Rightarrow> bool) \<Rightarrow> string \<Rightarrow> 'l relay_env \<Rightarrow> wake list \<Rightarrow> world \<Rightarrow> relay_fatal + 'l relay" where
  "relay_main canceled schema env es w =
     (case run (relay_open schema (relay_flags env)) w of
        (Some None, w') \<Rightarrow> Inr \<lparr>limiters = new_rateLimiter rateCfg, public_open = True, tailnet_open = True,
           running = [sweeping canceled (relay_flags env) es], rworld = w'\<rparr>
      | (Some (Some x), _) \<Rightarrow> Inl x
      | (None, _) \<Rightarrow> Inl IdRequired)"

end
