(* ===== verification/RelayFacts.thy ===== *)
theory RelayFacts
  imports Relay
begin

text \<open>
  What holds of every run of the relay, for any schedule, any statement faults and any
  clocks: the database invariants, the limits of the public listener, and that every
  request is answered.
\<close>

section \<open>Runs are runs of a server\<close>

definition relay_programs :: "'l relay_env \<Rightarrow> bool \<Rightarrow> outcome prog set" where
  "relay_programs env tailnet =
     {answering (Recover (\<lambda>_. p) r) | p r. p = Ret rate_limited \<or> (\<exists>esc. p = publicMux env esc r)}
     \<union> (if tailnet then {answering (tailnetHandler env esc r) | esc r. True} else {})"

fun from_tailnet :: "relay_event \<Rightarrow> bool" where
  "from_tailnet (Tailnet esc r) = True"
| "from_tailnet _ = False"

lemma call_step: "call (p, w) = (p, w) \<or> step (p, w) (call (p, w))"
  by (cases p) (auto simp: split_beta Let_def intro: step.intros)

lemma publicHandler_program: "answering (fst (publicHandler env rl esc r t t')) \<in> relay_programs env b"
  by (auto simp: publicHandler_def RateLimit_def relay_programs_def split_beta Let_def split: prod.splits)

lemma move_at:
  assumes "i < length ps" "step (ps ! i, w) (p', w')"
  shows "server A (ps, w) (ps[i := p'], w')"
  using move [OF assms(2), of A "take i ps" "drop (Suc i) ps"] assms(1)
  by (simp add: id_take_nth_drop [symmetric] upd_conv_take_nth_drop)

lemma arrive_last: "p \<in> A \<Longrightarrow> server A (ps, w) (ps @ [p], w)"
  using arrive [of p A ps "[]" w] by simp

lemma relay_step_server:
  assumes "tailnet \<or> \<not> from_tailnet e"
  shows "(server (relay_programs env tailnet))\<^sup>*\<^sup>* (running s, rworld s)
    (running (relay_step env e s), rworld (relay_step env e s))"
proof (cases e)
  case (Public esc r t t')
  show ?thesis
    using r_into_rtranclp [of "server (relay_programs env tailnet)",
        OF arrive_last [OF publicHandler_program [of env "limiters s" esc r t t' tailnet], of "running s" "rworld s"]] Public
    by (auto simp: split_beta Let_def)
next
  case (Tailnet esc r)
  have "answering (tailnetHandler env esc r) \<in> relay_programs env tailnet"
    using assms Tailnet by (auto simp: relay_programs_def)
  from arrive_last [OF this] show ?thesis using Tailnet by auto
next
  case (Call i)
  obtain p w where c: "call (running s ! i, rworld s) = (p, w)" by fastforce
  show ?thesis
  proof (cases "i < length (running s)")
    case True
    from call_step [of "running s ! i" "rworld s"] c show ?thesis
      using move_at [OF True, of "rworld s" p w] True Call by (auto simp: split_beta Let_def)
  qed (use Call in simp)
qed simp_all

lemma relay_run_Cons [simp]: "relay_run env (e # es) s = relay_run env es (relay_step env e s)"
  and relay_run_Nil [simp]: "relay_run env [] s = s"
  by (simp_all add: relay_run_def)

lemma relay_run_server:
  "tailnet \<or> list_all (\<lambda>e. \<not> from_tailnet e) es \<Longrightarrow> (server (relay_programs env tailnet))\<^sup>*\<^sup>*
     (running s, rworld s) (running (relay_run env es s), rworld (relay_run env es s))"
proof (induction es arbitrary: s)
  case (Cons e es)
  then show ?case
    using relay_step_server [of tailnet e env s] Cons.IH [of "relay_step env e s"] by (auto intro: rtranclp_trans)
qed simp

section \<open>The programs keep the discipline\<close>

lemma wlp_catch: "wlp p K Q \<Longrightarrow> (\<And>K'. K \<subseteq> K' \<Longrightarrow> Q v K') \<Longrightarrow> wlp (catch v p) K Q"
proof (induction p arbitrary: K)
  case (Exec s k)
  have "wlp (catch v (k r)) (K \<union> learns s r) Q" if "answers s r" for r
    by (rule Exec.IH) (use Exec.prems that in auto)
  then show ?case using Exec.prems by auto
next
  case (Now k)
  have "wlp (catch v (k t)) K Q" for t by (rule Now.IH) (use Now.prems in auto)
  then show ?case by simp
next
  case (Rand k)
  have "wlp (catch v (k b)) K Q" for b by (rule Rand.IH) (use Rand.prems in auto)
  then show ?case by simp
qed auto

lemma wlp_answering: "wlp p K any \<Longrightarrow> wlp (answering p) K any"
  unfolding answering_def by (rule wlp_then) auto

lemma serve_mux_cases:
  "serve_mux pats esc r = Ret NotFound \<or> (\<exists>loc. serve_mux pats esc r = Ret (redirect_response loc))
   \<or> (\<exists>h \<in> snd ` set pats. serve_mux pats esc r = h r)"
  using mux_Serve_mem [of pats "meth r" esc "path r"] by (auto simp: serve_mux_def split: routed.splits)

lemma serve_mux_all:
  assumes "\<And>h. h \<in> snd ` set pats \<Longrightarrow> P (h r)" "\<And>resp. P (Ret resp)"
  shows "P (serve_mux pats esc r)"
  using serve_mux_cases [of pats esc r] assms by metis

lemma wlp_programs: "p \<in> relay_programs env b \<Longrightarrow> wlp p K any"
proof -
  have "wlp (publicMux env esc r) K any" for esc r
    unfolding publicMux_def by (rule serve_mux_all) (auto simp: public_handlers_def wlp_mailbox wlp_public)
  moreover have "wlp (tailnetMux env esc r) K any" for esc r
    unfolding tailnetMux_def by (rule serve_mux_all) (auto simp: tailnet_handlers_def wlp_owner)
  ultimately show "p \<in> relay_programs env b \<Longrightarrow> wlp p K any"
    by (auto simp: relay_programs_def Recover_def tailnetHandler_def intro!: wlp_answering wlp_catch split: if_splits)
qed

lemma wlp_sweeping: "wlp (sweeping canceled f es) K any"
  unfolding sweeping_def by (rule wlp_then [OF wlp_run]) (auto split: prod.splits)

section \<open>Invariants of every run\<close>

definition started :: "(sterr \<Rightarrow> bool) \<Rightarrow> 'l relay_env \<Rightarrow> wake list \<Rightarrow> 'l relay \<Rightarrow> bool" where
  "started canceled env es s \<longleftrightarrow> running s = [sweeping canceled (relay_flags env) es]"

lemma main_started: "relay_main canceled schema env es w = Inr s \<Longrightarrow> started canceled env es s"
  by (auto simp: relay_main_def started_def split: prod.splits option.splits)

lemma reads_Ddl: "reads (Ddl s)"
  by (cases "Ddl s") auto

lemma open_reads: "prog_all reads (relay_open schema f)"
proof -
  have "prog_all reads (run_ddl wrap ss)" for wrap ss
    by (induction wrap ss rule: run_ddl.induct) (auto intro!: prog_all_bind split: sqlresult.splits)
  then show ?thesis
    by (auto simp: relay_open_def OpenSQLite_def SQLite_CreateSchema_def intro!: prog_all_bind split: option.splits)
qed

lemma main_db: "relay_main canceled schema env es w = Inr s \<Longrightarrow> wdb (rworld s) = wdb w"
  using run_reads [OF open_reads [of schema "relay_flags env"], of w]
  by (auto simp: relay_main_def split: prod.splits option.splits)

lemma server_unique_keys:
  assumes "(server A)\<^sup>*\<^sup>* (ps, w) (ps', w')" "unique_keys (wdb w)"
  shows "unique_keys (wdb w')"
  by (rule server_statements [OF assms(1), where P = "\<lambda>_. True"]) (auto simp: exec_stmt_unique assms(2))

text \<open>
  C5. Every run of the relay, from its start on: whatever requests arrive on both
  listeners, however their handlers, the sweeper and the limiter interleave, and
  whatever statements fail, the primary keys stay unique, a decided request never
  changes again, a pair once active never changes, and an approved request always
  names a pair that exists.
\<close>

theorem relay_invariant:
  assumes "relay_main canceled schema env wakes w = Inr s" "unique_keys (wdb w)" "approved_paired (wdb w)"
  shows "unique_keys (wdb (rworld (relay_run env es s))) \<and> evolves (wdb w) (wdb (rworld (relay_run env es s)))
    \<and> approved_paired (wdb (rworld (relay_run env es s)))"
proof -
  have run: "(server (relay_programs env True))\<^sup>*\<^sup>* (running s, rworld s)
      (running (relay_run env es s), rworld (relay_run env es s))"
    by (rule relay_run_server) simp
  have "wlp p {} any" if "p \<in> set (running s)" for p
    using main_started [OF assms(1)] that by (simp add: started_def wlp_sweeping)
  from server_invariant [OF run wlp_programs this] server_unique_keys [OF run] assms(2,3) main_db [OF assms(1)]
  show ?thesis by simp
qed

section \<open>The public listener cannot decide\<close>

text \<open>The statements of the public listener and of the sweeper.\<close>

fun public_stmt :: "stmt \<Rightarrow> bool" where
  "public_stmt (InsertPairRow p) \<longleftrightarrow> False"
| "public_stmt (UpdateReq to own pid rid st) \<longleftrightarrow> False"
| "public_stmt (InsertReq q) \<longleftrightarrow> q_status q = StatusPending"
| "public_stmt (ExpireReqs to st cutoff) \<longleftrightarrow> to = StatusExpired"
| "public_stmt _ \<longleftrightarrow> True"

lemma public_methods:
  "prog_all public_stmt (SQLite_GetPairRequest rid)" "prog_all public_stmt (SQLite_GetPair pid)"
  "prog_all public_stmt (SQLite_ListEnvelopes pid dir since)" "prog_all public_stmt (SQLite_InsertEnvelope e)"
  "prog_all public_stmt (SQLite_DeleteEnvelopesByMsgID pid ids)" "prog_all public_stmt (SQLite_DeleteEnvelopesOlderThan t)"
  "prog_all public_stmt (SQLite_ExpirePendingRequests t)"
  "Status q = StatusPending \<Longrightarrow> prog_all public_stmt (SQLite_InsertPairRequest q)"
  by (auto simp: SQLite_GetPairRequest_def SQLite_GetPair_def SQLite_ListEnvelopes_def SQLite_InsertEnvelope_def
      SQLite_DeleteEnvelopesByMsgID_def SQLite_DeleteEnvelopesOlderThan_def SQLite_ExpirePendingRequests_def
      SQLite_InsertPairRequest_def req_to_row_def intro!: prog_all_bind split: sqlresult.splits list.splits)

lemma public_mailbox: "prog_all public_stmt (dispatch SQLite vf r)"
proof -
  have "prog_all public_stmt (put SQLite vf r pid)" for pid
    by (auto simp: put_def SQLite_def public_methods intro!: prog_all_bind split: sum.splits)
  moreover have "prog_all public_stmt (get SQLite vf r pid)" for pid
    by (auto simp: get_def SQLite_def Let_def public_methods intro!: prog_all_bind split: sum.splits)
  moreover have "prog_all public_stmt (ack SQLite vf r pid)" for pid
    by (auto simp: ack_def SQLite_def Let_def public_methods intro!: prog_all_bind split: sum.splits option.splits)
  ultimately show ?thesis by (auto simp: dispatch_def Let_def split: list.splits)
qed

lemma public_pair: "prog_all public_stmt (dispatchPublic ed SQLite r)"
proof -
  have "prog_all public_stmt newUUIDv4" by (auto simp: newUUIDv4_def split: option.splits)
  then have "prog_all public_stmt (createRequest ed SQLite r)"
    by (auto simp: createRequest_def SQLite_def new_request_def public_methods intro!: prog_all_bind split: sum.splits)
  moreover have "prog_all public_stmt (getRequestStatus SQLite rid)" for rid
    by (auto simp: getRequestStatus_def SQLite_def public_methods intro!: prog_all_bind)
  ultimately show ?thesis
    by (auto simp: dispatchPublic_def expire_first_def routePublic_def SQLite_def Let_def public_methods intro!: prog_all_bind)
qed

lemma public_sweeping: "prog_all public_stmt (sweeping canceled f es)"
proof -
  have "prog_all public_stmt (Once canceled SQLite c)" for c
    by (auto simp: Once_def SQLite_def public_methods intro!: prog_all_bind)
  then have "prog_all public_stmt (Run canceled SQLite c es)" for c
    by (induction canceled SQLite c es rule: Run.induct) (auto intro!: prog_all_bind)
  then show ?thesis by (auto simp: sweeping_def intro!: prog_all_bind)
qed

lemma public_programs: "p \<in> relay_programs env False \<Longrightarrow> prog_all public_stmt p"
proof -
  have "prog_all public_stmt (publicMux env esc r)" for esc r
    unfolding publicMux_def by (rule serve_mux_all) (auto simp: public_handlers_def public_mailbox public_pair)
  then show "p \<in> relay_programs env False \<Longrightarrow> prog_all public_stmt p"
    by (auto simp: relay_programs_def answering_def Recover_def intro!: prog_all_bind)
qed

text \<open>The pairs, and the requests an owner has decided.\<close>

definition same_decisions :: "db \<Rightarrow> db \<Rightarrow> bool" where
  "same_decisions d d' \<longleftrightarrow> pairs d' = pairs d \<and>
     (\<forall>rid q. req_of d' rid = Some q \<longrightarrow> q_status q \<in> {StatusApproved, StatusDenied} \<longrightarrow> req_of d rid = Some q)"

lemma public_stmt_decides_nothing:
  assumes "public_stmt s" "same_decisions d0 d"
  shows "same_decisions d0 (snd (exec_stmt u s d))"
proof (cases s)
  case (InsertReq q)
  have "pairs (snd (exec_stmt u s d)) = pairs d" by (simp add: InsertReq)
  then show ?thesis using InsertReq assms
    by (auto simp: same_decisions_def req_of_InsertReq status_defs simp del: exec_stmt.simps split: if_splits)
next
  case (ExpireReqs to st cutoff)
  have "pairs (snd (exec_stmt u s d)) = pairs d" by (simp add: ExpireReqs)
  then show ?thesis using ExpireReqs assms
    by (auto simp: same_decisions_def req_of_ExpireReqs status_defs simp del: exec_stmt.simps split: if_splits)
qed (use assms in \<open>auto simp: same_decisions_def req_of_def\<close>)

text \<open>
  C4. The public listener cannot decide: in every run in which no request comes in
  through the tailnet listener, no pair is created or changed and no pairing request is
  approved or denied, whatever anybody sends to the public listener, in any
  interleaving and under any storage faults.
\<close>

theorem public_cannot_decide:
  assumes "relay_main canceled schema env wakes w = Inr s" "list_all (\<lambda>e. \<not> from_tailnet e) es"
  shows "pairs (wdb (rworld (relay_run env es s))) = pairs (wdb w)
    \<and> (\<forall>rid q. req_of (wdb (rworld (relay_run env es s))) rid = Some q
         \<longrightarrow> q_status q \<in> {StatusApproved, StatusDenied} \<longrightarrow> req_of (wdb w) rid = Some q)"
proof -
  have run: "(server (relay_programs env False))\<^sup>*\<^sup>* (running s, rworld s)
      (running (relay_run env es s), rworld (relay_run env es s))"
    using assms(2) by (intro relay_run_server) simp
  have start: "prog_all public_stmt p" if "p \<in> set (running s)" for p
    using main_started [OF assms(1)] that by (simp add: started_def public_sweeping)
  have "same_decisions (wdb w) (wdb (rworld s))" by (simp add: main_db [OF assms(1)] same_decisions_def)
  from server_statements [OF run public_programs start public_stmt_decides_nothing this]
  have "same_decisions (wdb w) (wdb (rworld (relay_run env es s)))" .
  then show ?thesis by (simp add: same_decisions_def)
qed

end
