(* ===== verification/Custody.thy ===== *)
theory Custody
  imports RelayFacts
begin

text \<open>
  Custody of the mail in whole runs of the relay: who may write and remove envelopes.
  A program is judged by the statements it issues, given what the answers to its
  earlier statements have shown it; every program of the relay obeys the rules, so every
  envelope in the database has a signed PUT behind it, and every one that is gone a
  signed ack of its reader or the retention sweep.
\<close>

section \<open>What a program has seen\<close>

text \<open>A pair in its table, an envelope that is or was in its table.\<close>

datatype fact = PairSeen pair_row | MailSeen env_row

fun seen :: "stmt \<Rightarrow> sqlresult \<Rightarrow> fact set" where
  "seen (SelectPair pid) (RPairs ps) = PairSeen ` set ps"
| "seen (SelectEnvs pid dir since n) (REnvs es) = MailSeen ` set es"
| "seen (InsertEnv e) (RAffected n) = {MailSeen e}"
| "seen _ _ = {}"

text \<open>An answer that some database gives, or a fault of the driver.\<close>

definition genuine :: "stmt \<Rightarrow> sqlresult \<Rightarrow> bool" where
  "genuine s r \<longleftrightarrow> (\<exists>m. r = RErr m) \<or> (\<exists>u d. r = fst (exec_stmt u s d))"

lemma genuine_simps:
  "genuine (SelectPair pid) r \<longleftrightarrow> (\<exists>m. r = RErr m) \<or> (\<exists>ps. r = RPairs ps \<and> (\<forall>p \<in> set ps. p_path_id p = pid))"
  "genuine (InsertEnv e) r \<longleftrightarrow> (\<exists>m. r = RErr m) \<or> r = RAffected 1"
proof -
  have "\<exists>u d. RPairs ps = fst (exec_stmt u (SelectPair pid) d)" if "\<forall>p \<in> set ps. p_path_id p = pid" for ps
    using that by (intro exI [of _ id] exI [of _ "empty_db\<lparr>pairs := ps\<rparr>"]) (simp add: filter_id_conv)
  then show "genuine (SelectPair pid) r \<longleftrightarrow> (\<exists>m. r = RErr m) \<or> (\<exists>ps. r = RPairs ps \<and> (\<forall>p \<in> set ps. p_path_id p = pid))"
    by (auto simp: genuine_def)
  have "\<exists>u d. RAffected 1 = fst (exec_stmt u (InsertEnv e) d)"
    by (intro exI [of _ id] exI [of _ empty_db]) (simp add: empty_db_def)
  then show "genuine (InsertEnv e) r \<longleftrightarrow> (\<exists>m. r = RErr m) \<or> r = RAffected 1"
    by (auto simp: genuine_def split: if_splits)
qed

lemma genuine_SelectEnvs:
  "genuine (SelectEnvs pid dir since n) r \<Longrightarrow>
     (\<exists>m. r = RErr m) \<or> (\<exists>es. r = REnvs es \<and> (\<forall>e \<in> set es. e_path_id e = pid \<and> e_direction e = dir))"
  by (auto simp: genuine_def env_wanted_def dest!: in_set_takeD)

lemma exec_world_outcome:
  "(\<exists>m. fst (exec_world s w) = RErr m) \<and> wdb (snd (exec_world s w)) = wdb w
   \<or> fst (exec_world s w) = fst (exec_stmt (uv w) s (wdb w)) \<and> wdb (snd (exec_world s w)) = snd (exec_stmt (uv w) s (wdb w))"
  by (auto simp: exec_world_def Let_def split_beta split: list.splits option.splits)

lemma genuine_exec: "genuine s (fst (exec_world s w))"
  by (auto simp: genuine_def exec_world_def Let_def split_beta split: list.splits option.splits)

text \<open>
  A program whose statements keep the rule \<open>G\<close>, given what it has seen, and that ends in
  \<open>Q\<close>; the clock shows it only times of \<open>T\<close>.
\<close>

type_synonym rule = "fact set \<Rightarrow> stmt \<Rightarrow> bool"

primrec obeys :: "time set \<Rightarrow> rule \<Rightarrow> 'a prog \<Rightarrow> fact set \<Rightarrow> ('a \<Rightarrow> fact set \<Rightarrow> bool) \<Rightarrow> bool" where
  "obeys T G (Ret a) K Q = Q a K"
| "obeys T G Panic K Q = True"
| "obeys T G (Exec s k) K Q = (G K s \<and> (\<forall>r. genuine s r \<longrightarrow> obeys T G (k r) (K \<union> seen s r) Q))"
| "obeys T G (Now k) K Q = (\<forall>t \<in> T. obeys T G (k t) K Q)"
| "obeys T G (Rand k) K Q = (\<forall>b. obeys T G (k b) K Q)"

abbreviation anything :: "'a \<Rightarrow> fact set \<Rightarrow> bool" where "anything \<equiv> \<lambda>_ _. True"

lemma obeys_bind [simp]: "obeys T G (bind p f) K Q = obeys T G p K (\<lambda>a K'. obeys T G (f a) K' Q)"
  by (induction p arbitrary: K) simp_all

lemma obeys_exec [simp]: "obeys T G (exec s) K Q = (G K s \<and> (\<forall>r. genuine s r \<longrightarrow> Q r (K \<union> seen s r)))"
  by (simp add: exec_def)

lemma obeys_now [simp]: "obeys T G now K Q = (\<forall>t \<in> T. Q t K)"
  by (simp add: now_def)

lemma obeys_weaken: "obeys T G p K Q \<Longrightarrow> (\<And>a K'. K \<subseteq> K' \<Longrightarrow> Q a K' \<Longrightarrow> Q' a K') \<Longrightarrow> obeys T G p K Q'"
proof (induction p arbitrary: K)
  case (Exec s k)
  have "obeys T G (k r) (K \<union> seen s r) Q'" if "genuine s r" for r
    by (rule Exec.IH [OF rangeI]) (use Exec.prems that in auto)
  then show ?case using Exec.prems by simp
qed auto

text \<open>A program of harmless statements obeys every rule that allows them.\<close>

lemma obeys_prog_all: "prog_all P p \<Longrightarrow> (\<And>K s. P s \<Longrightarrow> G K s) \<Longrightarrow> obeys T G p K anything"
  by (induction p arbitrary: K) auto

lemma obeys_ret: "obeys T G p K anything \<Longrightarrow> prog_ret R p \<Longrightarrow> (\<And>a K'. R a \<Longrightarrow> Q a K') \<Longrightarrow> obeys T G p K Q"
  by (induction p arbitrary: K) auto

lemma obeys_catch: "obeys T G p K Q \<Longrightarrow> (\<And>K'. Q v K') \<Longrightarrow> obeys T G (catch v p) K Q"
  by (induction p arbitrary: K) auto

section \<open>One call\<close>

text \<open>\<open>H\<close>: the envelopes there have been.\<close>

fun holds :: "db \<Rightarrow> env_row set \<Rightarrow> fact \<Rightarrow> bool" where
  "holds d H (PairSeen p) \<longleftrightarrow> p \<in> set (pairs d)"
| "holds d H (MailSeen e) \<longleftrightarrow> e \<in> H"

definition mail :: "db \<Rightarrow> env_row set" where
  "mail d = set (envelopes d)"

lemma holds_mono: "holds d H f \<Longrightarrow> set (pairs d) \<subseteq> set (pairs d') \<Longrightarrow> H \<subseteq> H' \<Longrightarrow> holds d' H' f"
  by (cases f) auto

lemma pairs_stay: "set (pairs d) \<subseteq> set (pairs (snd (exec_stmt u s d)))"
  by (cases s) auto

lemma exec_world_pairs: "set (pairs (wdb w)) \<subseteq> set (pairs (wdb (snd (exec_world s w))))"
  using exec_world_db [of s w] pairs_stay [of "wdb w" "uv w" s] by auto

lemma seen_holds:
  assumes "f \<in> seen s (fst (exec_stmt u s d))"
  shows "holds (snd (exec_stmt u s d)) (mail d \<union> mail (snd (exec_stmt u s d))) f"
  using assms by (cases s) (auto simp: mail_def split: if_splits dest!: in_set_takeD)

definition obeys_at :: "time set \<Rightarrow> rule \<Rightarrow> 'a prog \<Rightarrow> ('a \<Rightarrow> fact set \<Rightarrow> bool) \<Rightarrow> db \<Rightarrow> env_row set \<Rightarrow> bool" where
  "obeys_at T G p Q d H \<longleftrightarrow> (\<exists>K. obeys T G p K Q \<and> (\<forall>f \<in> K. holds d H f))"

lemma obeys_atI: "obeys T G p {} Q \<Longrightarrow> obeys_at T G p Q d H"
  unfolding obeys_at_def by blast

lemma obeys_at_mono:
  "obeys_at T G p Q d H \<Longrightarrow> set (pairs d) \<subseteq> set (pairs d') \<Longrightarrow> H \<subseteq> H' \<Longrightarrow> obeys_at T G p Q d' H'"
  unfolding obeys_at_def using holds_mono by blast

text \<open>
  A program's call keeps it within its rule, and changes the database only by a
  statement the rule allows.
\<close>

lemma call_obeys:
  assumes "obeys_at T G p Q (wdb w) H" "range (clock w) \<subseteq> T" "mail (wdb w) \<subseteq> H"
  shows "obeys_at T G (fst (call (p, w))) Q (wdb (snd (call (p, w)))) (H \<union> mail (wdb (snd (call (p, w)))))
    \<and> range (clock (snd (call (p, w)))) \<subseteq> T \<and> set (pairs (wdb w)) \<subseteq> set (pairs (wdb (snd (call (p, w)))))
    \<and> (wdb (snd (call (p, w))) = wdb w \<or> (\<exists>K s. G K s \<and> (\<forall>f \<in> K. holds (wdb w) H f)
         \<and> wdb (snd (call (p, w))) = snd (exec_stmt (uv w) s (wdb w))))"
proof -
  obtain K where K: "obeys T G p K Q" "\<forall>f \<in> K. holds (wdb w) H f" using assms(1) by (auto simp: obeys_at_def)
  show ?thesis
  proof (cases p)
    case (Exec s k)
    define r where "r = fst (exec_world s w)"
    define w' where "w' = snd (exec_world s w)"
    have c: "call (p, w) = (k r, w')" by (simp add: Exec r_def w'_def split_beta)
    have ob: "G K s" "obeys T G (k r) (K \<union> seen s r) Q"
      using K(1) Exec genuine_exec [of s w] by (auto simp: r_def)
    have clk: "clock w' = clock w" by (auto simp: w'_def exec_world_def Let_def split_beta split: list.splits option.splits)
    note ps = exec_world_pairs [of w s, folded w'_def]
    consider (fault) m where "wdb w' = wdb w" "r = RErr m"
      | (ran) "wdb w' = snd (exec_stmt (uv w) s (wdb w))" "r = fst (exec_stmt (uv w) s (wdb w))"
      using exec_world_outcome [of s w] unfolding r_def w'_def by blast
    then have new: "holds (wdb w') (H \<union> mail (wdb w')) f" if "f \<in> seen s r" for f
    proof cases
      case fault
      then have "seen s r = {}" by (cases s) auto
      then show ?thesis using that by simp
    next
      case ran
      have "holds (wdb w') (mail (wdb w) \<union> mail (wdb w')) f" using seen_holds that ran by metis
      then show ?thesis by (rule holds_mono) (use assms(3) in auto)
    qed
    have old: "holds (wdb w') (H \<union> mail (wdb w')) f" if "f \<in> K" for f
      by (rule holds_mono [of "wdb w" H]) (use K(2) that ps in auto)
    have "obeys_at T G (k r) Q (wdb w') (H \<union> mail (wdb w'))"
      unfolding obeys_at_def using ob(2) new old by blast
    moreover have "wdb w' = wdb w \<or> (\<exists>K s. G K s \<and> (\<forall>f \<in> K. holds (wdb w) H f) \<and> wdb w' = snd (exec_stmt (uv w) s (wdb w)))"
      using exec_world_db [of s w] ob(1) K(2) unfolding w'_def by blast
    ultimately show ?thesis unfolding c using clk ps assms(2) by simp
  next
    case (Now k)
    have "obeys T G (k (clock w 0)) K Q" using K(1) Now assms(2) by auto
    then have "obeys_at T G (k (clock w 0)) Q (wdb w) (H \<union> mail (wdb w))"
      unfolding obeys_at_def using K(2) holds_mono by blast
    then show ?thesis using Now assms(2) by auto
  next
    case (Rand k)
    have "obeys T G (k (entropy w 0)) K Q" using K(1) Rand by auto
    then have "obeys_at T G (k (entropy w 0)) Q (wdb w) (H \<union> mail (wdb w))"
      unfolding obeys_at_def using K(2) holds_mono by blast
    then show ?thesis using Rand assms(2) by auto
  qed (use assms in \<open>auto intro: obeys_at_mono\<close>)
qed

end
