(* ===== verification/MailRules.thy ===== *)
theory MailRules
  imports Custody
begin

text \<open>
  The rules of the mail: which statements on the envelope table a program of the relay may
  issue, given the requests the public listener has received and what the program has
  seen.  Every handler and the sweeper keep them, and their answers tell the truth.
\<close>

section \<open>The rules\<close>

definition half_keys :: "pair_row \<Rightarrow> string set" where
  "half_keys p = {p_requester_pubkey p, p_owner_pubkey p}"

text \<open>The row \<open>e\<close> is what a half of the pair \<open>p\<close> signed and sent with the request \<open>r\<close>.\<close>

definition sent_by :: "ed_verify \<Rightarrow> request \<Rightarrow> pair_row \<Rightarrow> env_row \<Rightarrow> bool" where
  "sent_by ed r p e \<longleftrightarrow> (\<exists>k \<in> half_keys p. \<exists>env.
     readLimited putLimit r = Some (e_outer_json e) \<and> unmarshalEnvelope (e_outer_json e) = Some env
     \<and> signed_by ed k (Get (hdr r) ''X-Nexus-Signature'') (canonicalJSON env)
     \<and> EnvPathID env = p_path_id p \<and> e_path_id e = p_path_id p \<and> e_msg_id e = EnvMsgID env
     \<and> e_ciphertext e = EnvCiphertext env \<and> e_direction e = (if k = p_requester_pubkey p then AToB else BToA))"

text \<open>The row \<open>e\<close> was addressed to a half of the pair \<open>p\<close> that signed the ack \<open>r\<close>, which asks for it.\<close>

definition acked_by :: "ed_verify \<Rightarrow> request \<Rightarrow> pair_row \<Rightarrow> env_row \<Rightarrow> bool" where
  "acked_by ed r p e \<longleftrightarrow> (\<exists>k \<in> half_keys p. \<exists>ids.
     signed_by ed k (Get (hdr r) ''X-Nexus-Signature'') (path r) \<and> ack_ids r = Inr ids \<and> e_msg_id e \<in> set ids
     \<and> e_path_id e = p_path_id p \<and> e_direction e = (if k = p_requester_pubkey p then BToA else AToB))"

definition swept_cutoff :: "flags \<Rightarrow> time \<Rightarrow> string" where
  "swept_cutoff f t = formatTime (sweep_cutoff (sweep_config f) t)"

text \<open>The requests the public listener has seen in a list of events.\<close>

definition public_requests :: "relay_event list \<Rightarrow> request set" where
  "public_requests es = {r. \<exists>esc t t'. Public esc r t t' \<in> set es}"

fun authorised :: "'l relay_env \<Rightarrow> time set \<Rightarrow> request set \<Rightarrow> rule" where
  "authorised env T R K (InsertEnv e) \<longleftrightarrow>
     (\<exists>r \<in> R. \<exists>p. PairSeen p \<in> K \<and> sent_by (edv env) r p e) \<and> (\<exists>t \<in> T. e_received_at e = formatTime t)"
| "authorised env T R K (DeleteEnvIds pid ids) \<longleftrightarrow>
     (\<exists>r \<in> R. \<exists>p. PairSeen p \<in> K \<and> p_path_id p = pid
        \<and> (\<forall>m \<in> set ids. \<exists>e. MailSeen e \<in> K \<and> e_msg_id e = m \<and> acked_by (edv env) r p e))"
| "authorised env T R K (DeleteEnvBefore c) \<longleftrightarrow> (\<exists>t \<in> T. c = swept_cutoff (relay_flags env) t)"
| "authorised env T R K _ \<longleftrightarrow> True"

fun mail_free :: "stmt \<Rightarrow> bool" where
  "mail_free (InsertEnv e) \<longleftrightarrow> False"
| "mail_free (DeleteEnvIds pid ids) \<longleftrightarrow> False"
| "mail_free (DeleteEnvBefore c) \<longleftrightarrow> False"
| "mail_free _ \<longleftrightarrow> True"

lemma mail_free_authorised: "mail_free s \<Longrightarrow> authorised env T R K s"
  by (cases s) auto

section \<open>The mailbox handlers\<close>

lemma scanPair_fields:
  "scanPair p = Inr q \<Longrightarrow> PairPathID q = p_path_id p \<and> {RequesterPubkey q, OwnerPubkey q} = half_keys p
     \<and> RequesterPubkey q = p_requester_pubkey p"
  by (auto simp: scanPair_def half_keys_def split: sum.splits)

text \<open>Every mailbox handler starts by looking the pair up.\<close>

lemma obeys_GetPair:
  assumes "\<And>e. Q (Inl e) K" "\<And>p ps K'. K' = K \<union> PairSeen ` set (p # ps) \<Longrightarrow> p_path_id p = pid \<Longrightarrow> Q (scanPair p) K'"
    and "\<And>e K'. K \<subseteq> K' \<Longrightarrow> Q (Inl e) K'"
  shows "obeys T (authorised env TT R) (SQLite_GetPair pid) K Q"
  using assms by (auto simp: SQLite_GetPair_def genuine_simps split: sqlresult.splits list.splits)

text \<open>What a 202 to a PUT tells: the row is stored, signed and of this request.\<close>

definition put_stored :: "ed_verify \<Rightarrow> request \<Rightarrow> response \<Rightarrow> fact set \<Rightarrow> bool" where
  "put_stored ed r resp K \<longleftrightarrow> (status resp = 202 \<longrightarrow> (\<exists>p e. PairSeen p \<in> K \<and> MailSeen e \<in> K \<and> sent_by ed r p e))"

text \<open>What a page of envelopes tells: a half signed for it, and every item is mail addressed to that half.\<close>

definition page_signed :: "ed_verify \<Rightarrow> request \<Rightarrow> pair_row \<Rightarrow> env_row list \<Rightarrow> bool" where
  "page_signed ed r p rows \<longleftrightarrow> (\<exists>k \<in> half_keys p.
     signed_by ed k (Get (hdr r) ''X-Nexus-Signature'') (signedPath r)
     \<and> (\<forall>e \<in> set rows. e_path_id e = p_path_id p \<and> e_direction e = (if k = p_requester_pubkey p then BToA else AToB)))"

definition page_private :: "ed_verify \<Rightarrow> request \<Rightarrow> response \<Rightarrow> fact set \<Rightarrow> bool" where
  "page_private ed r resp K \<longleftrightarrow> (\<forall>es. resp = list_response es \<longrightarrow>
     (\<exists>p rows. PairSeen p \<in> K \<and> MailSeen ` set rows \<subseteq> K \<and> page_signed ed r p rows
        \<and> map OuterJSON es = map e_outer_json rows))"

definition mail_answer :: "ed_verify \<Rightarrow> request \<Rightarrow> response \<Rightarrow> fact set \<Rightarrow> bool" where
  "mail_answer ed r resp K \<longleftrightarrow> put_stored ed r resp K \<and> page_private ed r resp K"

text \<open>Answers that tell nothing.\<close>

definition dull :: "response \<Rightarrow> bool" where
  "dull resp \<longleftrightarrow> status resp \<noteq> 202 \<and> (\<forall>es. resp \<noteq> list_response es)"

lemma dull_answer: "dull resp \<Longrightarrow> mail_answer ed r resp K"
  by (auto simp: dull_def mail_answer_def put_stored_def page_private_def)

lemma dull_status: "status resp \<noteq> 200 \<Longrightarrow> status resp \<noteq> 202 \<Longrightarrow> dull resp"
  by (auto simp: dull_def list_response_def)

lemma dull_refusal: "refusal resp \<Longrightarrow> dull resp"
  by (rule dull_status) (auto simp: refusal_def)

lemma dull_simps [simp]:
  "dull (errorJSON n c) \<longleftrightarrow> n \<noteq> 202" "dull (httpError n m) \<longleftrightarrow> n \<noteq> 202" "dull NotFound" "dull (evicted_response n)"
  "dull (writeJSON 400 j)" "dull (methodNotAllowed m)"
  by (auto simp: dull_def list_response_def errorJSON_def writeJSON_def httpError_def NotFound_def evicted_response_def
      methodNotAllowed_def Let_def)

lemma obeys_InsertEnvelope:
  assumes "authorised env T R K (InsertEnv (env_to_row e))" "Q None (insert (MailSeen (env_to_row e)) K)"
    and "\<And>x. x = ErrDuplicate \<or> (\<exists>m. x = ErrOther m) \<Longrightarrow> Q (Some x) K"
  shows "obeys T (authorised env T R) (SQLite_InsertEnvelope e) K Q"
  unfolding SQLite_InsertEnvelope_def obeys_bind obeys_exec genuine_simps
  using assms(1,2) assms(3) [OF disjI1 [OF refl]] assms(3) [OF disjI2, OF exI, OF refl]
  by (auto simp: insert_error_def)

lemma put_custody:
  assumes "r \<in> R"
  shows "obeys T (authorised env T R) (put SQLite (EdVerifier_Identify (edv env)) r pid) K (mail_answer (edv env) r)"
proof -
  let ?Q = "mail_answer (edv env) r" and ?G = "authorised env T R"
  have main: "obeys T ?G (SQLite_InsertEnvelope (put_envelope r pid b oe dir t')) K' (\<lambda>e K''. obeys T ?G
          (Ret (case e of Some ErrDuplicate \<Rightarrow> errorJSON 409 ''duplicate_msg_id''
               | Some _ \<Rightarrow> errorJSON 500 ''storage_error''
               | None \<Rightarrow> writeJSON 202 (JObj [(''msg_id'', JStr (EnvMsgID oe))]))) K'' ?Q)"
    if p: "PairSeen p \<in> K'" "p_path_id p = pid" "scanPair p = Inr q" and parse: "put_parse r pid = Inr (b, oe)"
      and admit: "put_admit (EdVerifier_Identify (edv env)) q r oe t = Inr dir" and t': "t' \<in> T" for K' p q b oe t dir t'
  proof -
    obtain k where k: "EdVerifier_Identify (edv env) q (Get (hdr r) ''X-Nexus-Signature'') (canonicalJSON oe) = Inr k" "k \<noteq> []"
      "dir = directionFrom q k" using put_admit_Inr [OF admit] by metis
    note id = EdVerifier_identified(1,3) [OF k(1,2)] and f = scanPair_fields [OF p(3)]
    let ?e = "env_to_row (put_envelope r pid b oe dir t')"
    have kp: "k \<in> half_keys p" using id(1) f by blast
    have dir: "dir = (if k = p_requester_pubkey p then AToB else BToA)"
      using k(3) half_directions(1) [OF id(1)] f by simp
    note pp = put_parse_Inr [OF parse]
    have sent: "sent_by (edv env) r p ?e"
      unfolding sent_by_def
      by (rule bexI [OF _ kp], rule exI [of _ oe]) (simp add: pp(1,2,4) id(2) p(2) dir env_to_row_def put_envelope_def)
    have row: "e_received_at ?e = formatTime t'" by (simp add: env_to_row_def put_envelope_def)
    have ok: "?Q (writeJSON 202 j) (insert (MailSeen ?e) K')" for j
      using sent p(1) by (auto simp: mail_answer_def put_stored_def page_private_def list_response_def writeJSON_def)
    show ?thesis
    proof (rule obeys_InsertEnvelope)
      show "authorised env T R K' (InsertEnv ?e)"
        unfolding authorised.simps using sent p(1) assms row t' by blast
    qed (use ok in \<open>auto intro!: dull_answer\<close>)
  qed
  show ?thesis
    unfolding put_def SQLite_def storage.simps obeys_bind
  proof (rule obeys_GetPair)
    fix p ps K' assume K': "K' = K \<union> PairSeen ` set (p # ps)" "p_path_id p = pid"
    then have "PairSeen p \<in> K'" by simp
    note m = main [OF this K'(2)]
    show "obeys T ?G (case scanPair p of
         Inl e \<Rightarrow> Ret (if e = ErrNotFound then errorJSON 404 ''pair_not_found'' else errorJSON 500 ''storage_error'')
       | Inr p \<Rightarrow> (case put_parse r pid of Inl resp \<Rightarrow> Ret resp
         | Inr (b, env') \<Rightarrow> bind now (\<lambda>t.
            case put_admit (EdVerifier_Identify (edv env)) p r env' t of Inl resp \<Rightarrow> Ret resp
            | Inr dir \<Rightarrow> bind now (\<lambda>t'.
                bind (SQLite_InsertEnvelope (put_envelope r pid b env' dir t')) (\<lambda>e.
                  Ret (case e of Some ErrDuplicate \<Rightarrow> errorJSON 409 ''duplicate_msg_id''
                       | Some _ \<Rightarrow> errorJSON 500 ''storage_error''
                       | None \<Rightarrow> writeJSON 202 (JObj [(''msg_id'', JStr (EnvMsgID env'))]))))))) K' ?Q"
      using m dull_answer [OF dull_refusal [OF put_parse_Inl]] dull_answer [OF dull_refusal [OF put_admit_Inl]]
      by (auto simp: dull_answer simp del: obeys.simps(1) split: sum.splits) (simp_all add: dull_answer)
  qed (auto intro!: dull_answer)
qed

lemma scan_envelopes:
  "scan_all scanEnvelope rows = Inr es \<Longrightarrow> map OuterJSON es = map e_outer_json rows \<and> map MsgID es = map e_msg_id rows"
proof (induction rows arbitrary: es)
  case (Cons r rows)
  then obtain e es' where "scanEnvelope r = Inr e" "scan_all scanEnvelope rows = Inr es'" "es = e # es'"
    by (auto split: sum.splits)
  moreover have "OuterJSON e = e_outer_json r \<and> MsgID e = e_msg_id r"
    using \<open>scanEnvelope r = Inr e\<close> by (auto simp: scanEnvelope_def split: sum.splits)
  ultimately show ?case using Cons.IH by simp
qed simp

lemma obeys_ListEnvelopes:
  assumes "\<And>e K'. Q (Inl e) K'"
    and "\<And>rows es. list_all (\<lambda>e. e_path_id e = pid \<and> e_direction e = dir) rows \<Longrightarrow> scan_all scanEnvelope rows = Inr es
      \<Longrightarrow> Q (Inr es) (K \<union> MailSeen ` set rows)"
  shows "obeys T (authorised env TT R) (SQLite_ListEnvelopes pid dir since) K Q"
proof -
  have "Q (scan_all scanEnvelope rows) (K \<union> MailSeen ` set rows)"
    if "list_all (\<lambda>e. e_path_id e = pid \<and> e_direction e = dir) rows" for rows
    using assms(1) assms(2) [OF that] by (cases "scan_all scanEnvelope rows") auto
  then show ?thesis
    using assms(1) by (auto simp: SQLite_ListEnvelopes_def list_all_iff dest!: genuine_SelectEnvs)
qed

lemma identified_half:
  assumes "identify_caller (EdVerifier_Identify ed) q r m = Inr k" "scanPair p = Inr q"
  shows "k \<in> half_keys p" "signed_by ed k (Get (hdr r) ''X-Nexus-Signature'') m"
    "readDirectionFor q k = (if k = p_requester_pubkey p then BToA else AToB)"
proof -
  note k = EdVerifier_identified(1,3) [OF identify_caller_cases(1) [OF assms(1), THEN conjunct1]
      identify_caller_cases(1) [OF assms(1), THEN conjunct2]] and f = scanPair_fields [OF assms(2)]
  show "k \<in> half_keys p" using k(1) f by blast
  show "signed_by ed k (Get (hdr r) ''X-Nexus-Signature'') m" by (rule k(2))
  show "readDirectionFor q k = (if k = p_requester_pubkey p then BToA else AToB)"
    using half_directions(2) [OF k(1)] f by simp
qed

lemma get_custody:
  "obeys T (authorised env T R) (get SQLite (EdVerifier_Identify (edv env)) r pid) K (mail_answer (edv env) r)"
proof -
  let ?Q = "mail_answer (edv env) r" and ?G = "authorised env T R"
  have main: "obeys T ?G (SQLite_ListEnvelopes pid (readDirectionFor q k) since) K' (\<lambda>l K''. obeys T ?G
        (case l of Inl _ \<Rightarrow> Ret (errorJSON 500 ''storage_error'') | Inr es \<Rightarrow> Ret (list_response es)) K'' ?Q)"
    if p: "PairSeen p \<in> K'" "p_path_id p = pid" "scanPair p = Inr q"
      and k: "identify_caller (EdVerifier_Identify (edv env)) q r (signedPath r) = Inr k" for K' p q k since
  proof (rule obeys_ListEnvelopes)
    fix rows es assume rows: "list_all (\<lambda>e. e_path_id e = pid \<and> e_direction e = readDirectionFor q k) rows"
      and es: "scan_all scanEnvelope rows = Inr es"
    note id = identified_half [OF k p(3)]
    have signed: "page_signed (edv env) r p rows"
      unfolding page_signed_def using id rows p(2) by (intro bexI [OF _ id(1)]) (auto simp: list_all_iff)
    have "page_private (edv env) r (list_response es) (K' \<union> MailSeen ` set rows)"
      unfolding page_private_def
    proof (intro allI impI)
      fix es' assume "list_response es = list_response es'"
      then have raw: "map (\<lambda>e. JRaw (OuterJSON e)) es = map (\<lambda>e. JRaw (OuterJSON e)) es'"
        by (simp add: list_response_def writeJSON_def)
      have "map OuterJSON es = map OuterJSON es'"
        using arg_cong [OF raw, of "map (\<lambda>j. case j of JRaw x \<Rightarrow> x | _ \<Rightarrow> [])"] by (simp add: comp_def)
      then have "map OuterJSON es' = map e_outer_json rows" using scan_envelopes [OF es] by simp
      then show "\<exists>p rowsa. PairSeen p \<in> K' \<union> MailSeen ` set rows \<and> MailSeen ` set rowsa \<subseteq> K' \<union> MailSeen ` set rows
          \<and> page_signed (edv env) r p rowsa \<and> map OuterJSON es' = map e_outer_json rowsa"
        using p(1) signed by blast
    qed
    moreover have "status (list_response es) \<noteq> 202" by (simp add: list_response_def)
    ultimately show "obeys T ?G (case Inr es of Inl _ \<Rightarrow> Ret (errorJSON 500 ''storage_error'')
        | Inr es \<Rightarrow> Ret (list_response es)) (K' \<union> MailSeen ` set rows) ?Q"
      by (simp add: mail_answer_def put_stored_def)
  qed (simp add: dull_answer)
  show ?thesis
    unfolding get_def SQLite_def storage.simps obeys_bind
  proof (rule obeys_GetPair)
    fix p ps K' assume K': "K' = K \<union> PairSeen ` set (p # ps)" "p_path_id p = pid"
    then have "PairSeen p \<in> K'" by simp
    note m = main [OF this K'(2)]
    show "obeys T ?G (case scanPair p of
         Inl e \<Rightarrow> Ret (if e = ErrNotFound then errorJSON 404 ''pair_not_found'' else errorJSON 500 ''storage_error'')
       | Inr p \<Rightarrow> (case identify_caller (EdVerifier_Identify (edv env)) p r (signedPath r) of Inl resp \<Rightarrow> Ret resp
         | Inr caller \<Rightarrow>
            (let since = QueryGet r ''since'' in
             if since \<noteq> [] \<and> \<not> uuidv7Regex since then Ret (errorJSON 400 ''invalid_since'')
             else if readDirectionFor p caller = [] then Ret (errorJSON 401 ''caller_not_in_pair'')
             else bind (SQLite_ListEnvelopes pid (readDirectionFor p caller) since) (\<lambda>l.
                    case l of Inl _ \<Rightarrow> Ret (errorJSON 500 ''storage_error'')
                    | Inr es \<Rightarrow> Ret (list_response es))))) K' ?Q"
      using m dull_answer [OF dull_refusal [OF identify_caller_cases(2)]]
      by (auto simp: Let_def simp del: obeys.simps(1) split: sum.splits) (simp_all add: dull_answer)
  qed (auto intro!: dull_answer)
qed

lemma obeys_Delete:
  assumes "ids \<noteq> [] \<Longrightarrow> authorised env T R K (DeleteEnvIds pid ids)" "\<And>x K'. Q x K'"
  shows "obeys T (authorised env T R) (SQLite_DeleteEnvelopesByMsgID pid ids) K Q"
  using assms by (auto simp: SQLite_DeleteEnvelopesByMsgID_def simp del: authorised.simps)

text \<open>The handler in the shape of its specification: the batch checks are those of \<open>ack_ids\<close>.\<close>

lemma ack_ids_dull: "ack_ids r = Inl resp \<Longrightarrow> dull resp"
  by (auto simp: ack_ids_def split: option.splits if_splits)

lemma ack_batch:
  "(case readLimited ackLimit r of None \<Rightarrow> Ret (errorJSON 400 ''body_read_failed'')
    | Some raw \<Rightarrow> (case unmarshalIDs raw of None \<Rightarrow> Ret (errorJSON 400 ''invalid_json'')
       | Some ids \<Rightarrow> if ids = [] then Ret (evicted_response 0)
           else if length ids > maxAckBatch then
             Ret (writeJSON 400 (JObj [(''error'', JStr ''too_many_ids''), (''max'', JNum (dec maxAckBatch))]))
           else f ids))
   = (case ack_ids r of Inl resp \<Rightarrow> Ret resp | Inr ids \<Rightarrow> f ids)"
  by (simp add: ack_ids_def split: option.splits)

lemma ack_custody:
  assumes "r \<in> R"
  shows "obeys T (authorised env T R) (ack SQLite (EdVerifier_Identify (edv env)) r pid) K (mail_answer (edv env) r)"
proof -
  let ?Q = "mail_answer (edv env) r" and ?G = "authorised env T R"
  have main: "obeys T ?G (SQLite_ListEnvelopes pid (readDirectionFor q k) []) K' (\<lambda>l K''. obeys T ?G
        (case l of Inl _ \<Rightarrow> Ret (errorJSON 500 ''storage_error'')
         | Inr mine \<Rightarrow> bind (SQLite_DeleteEnvelopesByMsgID pid (filter (\<lambda>m. m \<in> set ids) (map MsgID mine))) (\<lambda>d.
             case d of Inl _ \<Rightarrow> Ret (errorJSON 500 ''storage_error'') | Inr n \<Rightarrow> Ret (evicted_response n))) K'' ?Q)"
    if p: "PairSeen p \<in> K'" "p_path_id p = pid" "scanPair p = Inr q" and ids: "ack_ids r = Inr ids"
      and k: "identify_caller (EdVerifier_Identify (edv env)) q r (path r) = Inr k" for K' p q k ids
  proof (rule obeys_ListEnvelopes)
    fix rows es assume rows: "list_all (\<lambda>e. e_path_id e = pid \<and> e_direction e = readDirectionFor q k) rows"
      and es: "scan_all scanEnvelope rows = Inr es"
    note id = identified_half [OF k p(3)]
    let ?asked = "filter (\<lambda>m. m \<in> set ids) (map MsgID es)" and ?K = "K' \<union> MailSeen ` set rows"
    have "\<exists>e. MailSeen e \<in> ?K \<and> e_msg_id e = m \<and> acked_by (edv env) r p e" if m: "m \<in> set ?asked" for m
    proof -
      have "m \<in> set (map e_msg_id rows)" using m scan_envelopes [OF es] by (simp del: set_map list.set_map)
      then obtain e where e: "e \<in> set rows" "e_msg_id e = m" by auto
      then have "acked_by (edv env) r p e"
        unfolding acked_by_def using id ids rows p(2) m by (intro bexI [OF _ id(1)] exI [of _ ids]) (auto simp: list_all_iff)
      then show ?thesis using e by blast
    qed
    then have auth: "authorised env T R ?K (DeleteEnvIds pid ?asked)"
      unfolding authorised.simps using p(1,2) assms by blast
    show "obeys T ?G (case Inr es of Inl _ \<Rightarrow> Ret (errorJSON 500 ''storage_error'')
         | Inr mine \<Rightarrow> bind (SQLite_DeleteEnvelopesByMsgID pid (filter (\<lambda>m. m \<in> set ids) (map MsgID mine))) (\<lambda>d.
             case d of Inl _ \<Rightarrow> Ret (errorJSON 500 ''storage_error'') | Inr n \<Rightarrow> Ret (evicted_response n))) ?K ?Q"
      unfolding sum.case obeys_bind by (rule obeys_Delete [OF auth]) (simp add: dull_answer split: sum.splits)
  qed (simp add: dull_answer)
  show ?thesis
    unfolding ack_def SQLite_def storage.simps obeys_bind ack_batch
  proof (rule obeys_GetPair)
    fix p ps K' assume K': "K' = K \<union> PairSeen ` set (p # ps)" "p_path_id p = pid"
    then have "PairSeen p \<in> K'" by simp
    note m = main [OF this K'(2)]
    show "obeys T ?G (case scanPair p of
         Inl e \<Rightarrow> Ret (if e = ErrNotFound then errorJSON 404 ''pair_not_found'' else errorJSON 500 ''storage_error'')
       | Inr p \<Rightarrow> (case identify_caller (EdVerifier_Identify (edv env)) p r (path r) of Inl resp \<Rightarrow> Ret resp
         | Inr caller \<Rightarrow> (case ack_ids r of Inl resp \<Rightarrow> Ret resp
            | Inr ids \<Rightarrow> if readDirectionFor p caller = [] then Ret (errorJSON 401 ''caller_not_in_pair'')
                 else bind (SQLite_ListEnvelopes pid (readDirectionFor p caller) []) (\<lambda>l.
                   case l of Inl _ \<Rightarrow> Ret (errorJSON 500 ''storage_error'')
                   | Inr mine \<Rightarrow>
                       bind (SQLite_DeleteEnvelopesByMsgID pid (filter (\<lambda>m. m \<in> set ids) (map MsgID mine))) (\<lambda>d.
                         case d of Inl _ \<Rightarrow> Ret (errorJSON 500 ''storage_error'')
                         | Inr n \<Rightarrow> Ret (evicted_response n)))))) K' ?Q"
      using m dull_answer [OF dull_refusal [OF identify_caller_cases(2)]] dull_answer [OF ack_ids_dull]
      by (auto simp del: obeys.simps(1) split: sum.splits) (simp_all add: dull_answer)
  qed (auto intro!: dull_answer)
qed

section \<open>The other programs of the relay\<close>

lemma mail_free_methods:
  "prog_all mail_free (SQLite_GetPairRequest rid)" "prog_all mail_free (SQLite_GetPair pid)"
  "prog_all mail_free SQLite_ListPendingPairRequests" "prog_all mail_free (SQLite_InsertPair p)"
  "prog_all mail_free (SQLite_UpdatePairRequestStatus rid to own pid)"
  "prog_all mail_free (SQLite_ExpirePendingRequests t)" "prog_all mail_free (SQLite_InsertPairRequest q)"
proof -
  show g: "prog_all mail_free (SQLite_GetPairRequest rid)" for rid
    by (auto simp: SQLite_GetPairRequest_def intro!: prog_all_bind split: sqlresult.splits list.splits)
  show "prog_all mail_free (SQLite_UpdatePairRequestStatus rid to own pid)"
    using g by (auto simp: SQLite_UpdatePairRequestStatus_def intro!: prog_all_bind split: sum.splits)
qed (auto simp: SQLite_GetPair_def SQLite_ListPendingPairRequests_def SQLite_InsertPair_def
    SQLite_ExpirePendingRequests_def SQLite_InsertPairRequest_def intro!: prog_all_bind split: sqlresult.splits list.splits)

lemma mail_free_public: "prog_all mail_free (dispatchPublic ed SQLite r)"
proof -
  have "prog_all mail_free newUUIDv4" by (auto simp: newUUIDv4_def split: option.splits)
  then have "prog_all mail_free (createRequest ed SQLite r)"
    by (auto simp: createRequest_def SQLite_def mail_free_methods intro!: prog_all_bind split: sum.splits)
  moreover have "prog_all mail_free (getRequestStatus SQLite rid)" for rid
    by (auto simp: getRequestStatus_def SQLite_def mail_free_methods intro!: prog_all_bind)
  ultimately show ?thesis
    by (auto simp: dispatchPublic_def expire_first_def routePublic_def SQLite_def Let_def mail_free_methods intro!: prog_all_bind)
qed

lemma mail_free_owner: "prog_all mail_free (dispatchOwner ed secret SQLite r)"
proof -
  have act: "prog_all mail_free (approve_activate SQLite raw rid rq ow)" for raw rid rq ow
    by (auto simp: approve_activate_def SQLite_def Let_def mail_free_methods intro!: prog_all_bind split: sum.splits option.splits)
  have "prog_all mail_free (approve_pending ed SQLite raw rid q h)" for raw rid q h
    by (auto simp: approve_pending_def act intro!: prog_all_bind split: sum.splits option.splits)
  moreover have "prog_all mail_free (approve_decided ed SQLite rid q h)" for rid q h
    by (auto simp: approve_decided_def SQLite_def mail_free_methods intro!: prog_all_bind split: sum.splits)
  moreover have "GetPairRequest SQLite = SQLite_GetPairRequest" by (simp add: SQLite_def)
  ultimately have "prog_all mail_free (approve ed SQLite r rid)" for rid
    by (auto simp: approve_def mail_free_methods intro!: prog_all_bind split: sum.splits option.splits prod.splits)
  moreover have "prog_all mail_free (deny SQLite rid)" for rid
    by (auto simp: deny_def SQLite_def mail_free_methods intro!: prog_all_bind)
  moreover have "prog_all mail_free (listPending SQLite r)"
    by (auto simp: listPending_def Let_def SQLite_def mail_free_methods intro!: prog_all_bind)
  ultimately show ?thesis
    by (auto simp: dispatchOwner_def expire_first_def routeOwner_def SQLite_def [THEN arg_cong [where f = ExpirePendingRequests]]
        Let_def mail_free_methods intro!: prog_all_bind)
qed

lemma dull_pairing: "prog_ret dull (dispatchPublic ed SQLite r)"
proof -
  have create: "prog_ret dull (createRequest ed SQLite r)"
  proof -
    have "dull resp" if "create_parse r = Inl resp" for resp
      using create_parse_Inl [OF that] by (rule dull_refusal)
    moreover have "dull (writeJSON 201 j)" for j by (simp add: dull_status)
    ultimately show ?thesis
      by (auto simp: createRequest_def intro!: prog_ret_bind [OF prog_ret_True] split: sum.splits option.splits sterr.splits)
  qed
  have "dull (status_response q)" for q
    by (auto simp: dull_def status_response_def list_response_def writeJSON_def split: option.splits)
  then have "prog_ret dull (getRequestStatus SQLite rid)" for rid
    by (auto simp: getRequestStatus_def intro!: prog_ret_bind [OF prog_ret_True] split: sum.splits)
  then show ?thesis using create
    by (auto simp: dispatchPublic_def expire_first_def routePublic_def Let_def intro!: prog_ret_bind [OF prog_ret_True])
qed

lemma dispatch_custody:
  assumes "r \<in> R"
  shows "obeys T (authorised env T R) (dispatch SQLite (EdVerifier_Identify (edv env)) r) K (mail_answer (edv env) r)"
  using put_custody [OF assms, of T env] get_custody [of T env R r] ack_custody [OF assms, of T env]
  by (auto simp: dispatch_def Let_def dull_answer split: list.splits)

lemma pairing_custody:
  "obeys T (authorised env T R) (dispatchPublic ed SQLite r) K (mail_answer (edv env) r)"
  by (rule obeys_ret [OF obeys_prog_all [OF mail_free_public mail_free_authorised] dull_pairing dull_answer])

lemma static_dull:
  "dull (landing_Handler page r)" "dull (discovery_Handler doc r)" "dull (public_health r)" "dull (redirect_response loc)"
  "dull rate_limited" "dull (plain_error 500 hs m)"
  by (auto simp: dull_def list_response_def landing_Handler_def discovery_Handler_def public_health_def ok_response_def
      redirect_response_def rate_limited_def plain_error_def writeJSON_def NotFound_def httpError_def methodNotAllowed_def Let_def)

lemma public_custody:
  assumes "r \<in> R"
  shows "obeys T (authorised env T R) (fst (publicHandler env rl esc r t t')) K (mail_answer (edv env) r)"
proof -
  have "obeys T (authorised env T R) (publicMux env esc r) K (mail_answer (edv env) r)"
    using serve_mux_cases [of "public_handlers env" esc r]
    by (auto simp: publicMux_def public_handlers_def dull_answer static_dull pairing_custody dispatch_custody [OF assms])
  then show ?thesis
    by (auto simp: publicHandler_def RateLimit_def Recover_def split_beta Let_def dull_answer static_dull intro!: obeys_catch)
qed

lemma tailnet_custody: "obeys T (authorised env T R) (tailnetHandler env esc r) K anything"
proof -
  have "prog_all mail_free (tailnetMux env esc r)"
    unfolding tailnetMux_def by (rule serve_mux_all) (auto simp: tailnet_handlers_def mail_free_owner)
  then show ?thesis
    unfolding tailnetHandler_def Recover_def by (intro obeys_catch obeys_prog_all [OF _ mail_free_authorised]) auto
qed

lemma sweeping_custody: "obeys T (authorised env T R) (sweeping canceled (relay_flags env) es) K anything"
proof -
  let ?c = "sweep_config (relay_flags env)"
  have once: "obeys T (authorised env T R) (Once canceled SQLite ?c) K anything" for K
    by (auto simp: Once_def SQLite_def SQLite_DeleteEnvelopesOlderThan_def SQLite_ExpirePendingRequests_def
        swept_cutoff_def sweep_cutoff_def)
  have "obeys T (authorised env T R) (Run canceled SQLite ?c es) K anything" for K
  proof (induction es arbitrary: K)
    case (Cons e es)
    have "obeys T (authorised env T R) (Run canceled SQLite ?c (Tick # es)) K anything"
      unfolding Run.simps obeys_bind
      by (rule obeys_weaken [OF once], rule obeys_weaken [OF Cons]) (simp split: prod.splits)
    then show ?case by (cases e) simp_all
  qed simp
  from obeys_weaken [OF this] show ?thesis
    unfolding sweeping_def obeys_bind by (simp split: prod.splits)
qed

end
