(* ===== verification/RelayLive.thy ===== *)
theory RelayLive
  imports RelayFacts
begin

text \<open>
  Progress and the limits of the relay's listeners: every admitted request is answered
  under a fair schedule, a throttled one and one without the owner's secret run no
  statement, and a shut-down relay takes no more requests.
\<close>

section \<open>Programs that deliver\<close>

text \<open>A program that ends, without a panic, in a value of \<open>Q\<close>.\<close>

primrec delivers :: "('a \<Rightarrow> bool) \<Rightarrow> 'a prog \<Rightarrow> bool" where
  "delivers Q (Ret a) = Q a"
| "delivers Q Panic = False"
| "delivers Q (Exec s k) = (\<forall>r. delivers Q (k r))"
| "delivers Q (Now k) = (\<forall>t. delivers Q (k t))"
| "delivers Q (Rand k) = (\<forall>b. delivers Q (k b))"

lemma delivers_catch: "delivers (\<lambda>_. True) (catch v p)"
  by (induction p) auto

lemma delivers_bind: "delivers P p \<Longrightarrow> (\<And>a. P a \<Longrightarrow> delivers Q (f a)) \<Longrightarrow> delivers Q (bind p f)"
  by (induction p) auto

definition answered :: "outcome \<Rightarrow> bool" where
  "answered x \<longleftrightarrow> (case x of Answered _ \<Rightarrow> True | Logged _ _ \<Rightarrow> False)"

lemma delivers_answering: "delivers (\<lambda>_. True) p \<Longrightarrow> delivers answered (answering p)"
  unfolding answering_def by (erule delivers_bind) (simp add: answered_def)

lemma delivers_public: "delivers answered (answering (fst (publicHandler env rl esc r t t')))"
  by (rule delivers_answering) (simp add: publicHandler_def Recover_def split_beta delivers_catch)

lemma delivers_tailnet: "delivers answered (answering (tailnetHandler env esc r))"
  by (rule delivers_answering) (simp add: tailnetHandler_def Recover_def delivers_catch)

section \<open>Schedules\<close>

text \<open>The relay after \<open>n\<close> events of an infinite schedule.\<close>

primrec after :: "'l relay_env \<Rightarrow> (nat \<Rightarrow> relay_event) \<Rightarrow> 'l relay \<Rightarrow> nat \<Rightarrow> 'l relay" where
  "after env sched s 0 = s"
| "after env sched s (Suc n) = relay_step env (sched n) (after env sched s n)"

lemma after_run: "after env sched s n = relay_run env (map sched [0..<n]) s"
  by (induction n) (simp_all add: relay_run_def)

text \<open>An event moves only the program it calls, and removes none.\<close>

lemma step_length: "length (running s) \<le> length (running (relay_step env e s))"
  by (cases e) (auto simp: split_beta Let_def)

lemma step_other: "i < length (running s) \<Longrightarrow> e \<noteq> Call i \<Longrightarrow> running (relay_step env e s) ! i = running s ! i"
  by (cases e) (auto simp: split_beta Let_def nth_append)

lemma step_this:
  "i < length (running s) \<Longrightarrow> running (relay_step env (Call i) s) ! i = fst (call (running s ! i, rworld s))"
  by (simp add: split_beta)

lemma after_stable:
  assumes "i < length (running (after env sched s n))" "n \<le> m" "\<forall>j. n \<le> j \<and> j < m \<longrightarrow> sched j \<noteq> Call i"
  shows "i < length (running (after env sched s m)) \<and> running (after env sched s m) ! i = running (after env sched s n) ! i"
  using assms(2,3)
proof (induction rule: dec_induct)
  case (step m)
  then have "i < length (running (after env sched s m))" "running (after env sched s m) ! i = running (after env sched s n) ! i"
    by auto
  moreover have "sched m \<noteq> Call i" using step by auto
  ultimately show ?case
    using step_length [of "after env sched s m" env "sched m"] by (simp add: step_other)
qed (use assms(1) in simp)

lemma next_call:
  assumes "\<And>n. \<exists>m\<ge>n. sched m = Call i" "i < length (running (after env sched s n))"
  obtains m where "n \<le> m" "i < length (running (after env sched s (Suc m)))"
    "running (after env sched s (Suc m)) ! i = fst (call (running (after env sched s n) ! i, rworld (after env sched s m)))"
proof -
  let ?P = "\<lambda>m. n \<le> m \<and> sched m = Call i"
  define m where "m = (LEAST m. ?P m)"
  obtain m0 where "?P m0" using assms(1) by blast
  then have "?P m" unfolding m_def by (rule LeastI)
  then have m: "n \<le> m" "sched m = Call i" by simp_all
  have "\<forall>j. n \<le> j \<and> j < m \<longrightarrow> sched j \<noteq> Call i" unfolding m_def by (blast dest: not_less_Least)
  note st = after_stable [OF assms(2) m(1) this]
  have e: "after env sched s (Suc m) = relay_step env (Call i) (after env sched s m)" using m(2) by simp
  show ?thesis
  proof (rule that [OF m(1)])
    show "i < length (running (after env sched s (Suc m)))"
      unfolding e using st step_length [of "after env sched s m" env "Call i"] by linarith
    show "running (after env sched s (Suc m)) ! i = fst (call (running (after env sched s n) ! i, rworld (after env sched s m)))"
      unfolding e using st step_this [of i "after env sched s m" env] by metis
  qed
qed

lemma call_fst: "fst (call (Exec s k, w)) = k (fst (exec_world s w))" "fst (call (Now f, w)) = f (clock w 0)"
  "fst (call (Rand g, w)) = g (entropy w 0)"
  by (simp_all add: split_beta Let_def)

text \<open>A program scheduled again and again delivers.\<close>

lemma eventually_delivers:
  assumes fair: "\<And>n. \<exists>m\<ge>n. sched m = Call i"
  shows "i < length (running (after env sched s n)) \<Longrightarrow> running (after env sched s n) ! i = p \<Longrightarrow> delivers Q p
    \<Longrightarrow> \<exists>m\<ge>n. \<exists>a. running (after env sched s m) ! i = Ret a \<and> Q a"
proof (induction p arbitrary: n)
  case (Ret a)
  then show ?case by auto
next
  case Panic
  then show ?case by simp
next
  case (Exec st k)
  obtain m where m: "n \<le> m" "i < length (running (after env sched s (Suc m)))"
    "running (after env sched s (Suc m)) ! i = fst (call (Exec st k, rworld (after env sched s m)))"
    using next_call [OF fair Exec.prems(1)] unfolding Exec.prems(2) by blast
  note more = Exec.IH [OF rangeI m(2) m(3) [unfolded call_fst]]
  then obtain m' where "Suc m \<le> m'" "\<exists>a. running (after env sched s m') ! i = Ret a \<and> Q a"
    using Exec.prems(3) by auto
  then show ?case using m(1) by (meson Suc_leD order_trans)
next
  case (Now k)
  obtain m where m: "n \<le> m" "i < length (running (after env sched s (Suc m)))"
    "running (after env sched s (Suc m)) ! i = fst (call (Now k, rworld (after env sched s m)))"
    using next_call [OF fair Now.prems(1)] unfolding Now.prems(2) by blast
  note more = Now.IH [OF rangeI m(2) m(3) [unfolded call_fst]]
  then obtain m' where "Suc m \<le> m'" "\<exists>a. running (after env sched s m') ! i = Ret a \<and> Q a"
    using Now.prems(3) by auto
  then show ?case using m(1) by (meson Suc_leD order_trans)
next
  case (Rand k)
  obtain m where m: "n \<le> m" "i < length (running (after env sched s (Suc m)))"
    "running (after env sched s (Suc m)) ! i = fst (call (Rand k, rworld (after env sched s m)))"
    using next_call [OF fair Rand.prems(1)] unfolding Rand.prems(2) by blast
  note more = Rand.IH [OF rangeI m(2) m(3) [unfolded call_fst]]
  then obtain m' where "Suc m \<le> m'" "\<exists>a. running (after env sched s m') ! i = Ret a \<and> Q a"
    using Rand.prems(3) by auto
  then show ?case using m(1) by (meson Suc_leD order_trans)
qed

text \<open>
  C12. Every request is answered: a request the relay admits, on either listener,
  eventually has its response, and never a crash, under every schedule that keeps
  calling its handler, whatever else the relay does in between and whatever the
  storage, the clock and the random source answer.
\<close>

theorem every_request_answered:
  assumes "\<And>n. \<exists>m\<ge>n. sched m = Call (length (running s))"
    and "(\<exists>esc r t t'. sched 0 = Public esc r t t') \<and> public_open s \<or> (\<exists>esc r. sched 0 = Tailnet esc r) \<and> tailnet_open s"
  shows "\<exists>n resp. running (after env sched s n) ! length (running s) = Ret (Answered resp)"
proof -
  obtain p where p: "running (after env sched s 1) = running s @ [p]" "delivers answered p"
    using assms(2) delivers_public delivers_tailnet by (fastforce simp: split_beta Let_def)
  then obtain m a where "running (after env sched s m) ! length (running s) = Ret a" "answered a"
    using eventually_delivers [OF assms(1), where n = 1 and s = s and env = env and p = p and Q = answered] by auto
  then show ?thesis by (auto simp: answered_def split: outcome.splits)
qed

section \<open>Requests that run nothing\<close>

text \<open>
  A throttled request touches nothing: when the limiter refuses it, the public
  listener answers 429 with \<open>Retry-After\<close> without a single statement, clock reading or
  random byte; otherwise it runs the routed handler behind the panic barrier.
\<close>

theorem public_throttled:
  "fst (publicHandler env rl esc r t t')
     = (if fst (rl_admit (rate env) rl r t t') then Recover (publicMux env esc) r
        else Ret \<lparr>status = 429, headers = [(''Retry-After'', ''1''), (''Content-Type'', ''application/json'')],
               payload = payload rate_limited\<rparr>)"
  by (simp add: publicHandler_def RateLimit_def split_beta Let_def Recover_def rate_limited_def plain_error_def)

text \<open>
  C25. With an owner secret configured, a request on the tailnet listener without it
  runs no statement at all: it is answered at once, and with 401 when its path is a
  clean one below \<open>/pair/\<close>.
\<close>

theorem owner_secret_required:
  assumes "ownerSecret (relay_flags env) \<noteq> []"
    and "Get (hdr r) ''X-Owner-Secret'' \<noteq> ownerSecret (relay_flags env)"
  shows "\<exists>resp. tailnetHandler env esc r = Ret resp
    \<and> (cleanPath esc = esc \<and> hd (segments esc) = ''pair'' \<and> length (segments esc) > 1
        \<longrightarrow> resp = errorJSON 401 ''owner_auth_required'')"
proof -
  have "\<not> ownerAuthorized (ownerSecret (relay_flags env)) r" using assms by (simp add: ownerAuthorized_def)
  then have pair: "dispatchOwner (edv env) (ownerSecret (relay_flags env)) SQLite r = Ret (errorJSON 401 ''owner_auth_required'')"
    by (simp add: dispatchOwner_def)
  have some: "\<exists>resp. tailnetMux env esc r = Ret resp"
    unfolding tailnetMux_def by (rule serve_mux_all) (auto simp: tailnet_handlers_def pair)
  have "tailnetMux env esc r = Ret (errorJSON 401 ''owner_auth_required'')"
    if p: "cleanPath esc = esc" "hd (segments esc) = ''pair''" "length (segments esc) > 1"
  proof -
    obtain x xs where seg: "segments esc = ''pair'' # x # xs"
      using p(2,3) by (cases "segments esc"; cases "tl (segments esc)") auto
    have best: "best_match (tailnet_handlers env) (''pair'' # x # ys)
        = Some ([''pair'', []], dispatchOwner (edv env) (ownerSecret (relay_flags env)) SQLite)" for ys
      by (simp add: best_match_def tailnet_handlers_def pattern_matches_def preferred_def)
    show ?thesis
      by (simp add: tailnetMux_def serve_mux_def mux_def Let_def p(1) seg best exact_match_def pair)
  qed
  then show ?thesis using some by (auto simp: tailnetHandler_def Recover_def)
qed

section \<open>Shutdown\<close>

text \<open>
  After a shutdown the relay takes no new requests, on either listener: the running
  programs are exactly those there were, and calling them is all that still happens.
\<close>

theorem closed_after_shutdown:
  "length (running (relay_run env (shutdown @ es) s)) = length (running s)
   \<and> stop (limiters (relay_run env (shutdown @ es) s))"
proof -
  have closed: "length (running (relay_run env es s)) = length (running s) \<and> stop (limiters (relay_run env es s))"
    if "\<not> public_open s" "\<not> tailnet_open s" "stop (limiters s)" for s
    using that
  proof (induction es arbitrary: s)
    case (Cons e es)
    have "\<not> public_open (relay_step env e s)" "\<not> tailnet_open (relay_step env e s)" "stop (limiters (relay_step env e s))"
      "length (running (relay_step env e s)) = length (running s)"
      using Cons.prems by (cases e; auto simp: split_beta Let_def)+
    then show ?case using Cons.IH by simp
  qed simp
  have "relay_run env (shutdown @ es) s = relay_run env es (relay_run env shutdown s)" by (simp add: relay_run_def)
  then show ?thesis using closed [of "relay_run env shutdown s"] by (simp add: shutdown_def)
qed

end
