(* ===== verification/RelayMail.thy ===== *)
theory RelayMail
  imports MailRules RelayLive
begin

text \<open>
  The mail in runs of the relay: every envelope in the table was put by a signed request
  of a half of its pair, an envelope that is gone was acknowledged by its reader or swept,
  a PUT that was answered 202 is kept until then, and a page holds only its reader's mail.
\<close>

section \<open>Programs in a run\<close>

abbreviation db_of :: "'l relay \<Rightarrow> db" where "db_of s \<equiv> wdb (rworld s)"

text \<open>The envelopes there have been in a run.\<close>

definition history :: "'l relay_env \<Rightarrow> 'l relay \<Rightarrow> relay_event list \<Rightarrow> env_row set" where
  "history env s es = (\<Union>n \<le> length es. mail (db_of (relay_run env (take n es) s)))"

lemma history_Nil [simp]: "history env s [] = mail (db_of s)"
  by (simp add: history_def)

lemma history_Cons: "history env s (e # es) = mail (db_of s) \<union> history env (relay_step env e s) es"
proof -
  have "{..length (e # es)} = insert 0 (Suc ` {..length es})"
    by (auto simp: image_iff) (metis Suc_le_mono atMost_iff not0_implies_Suc)
  then show ?thesis by (simp add: history_def)
qed

lemma relay_run_append: "relay_run env (es1 @ es2) s = relay_run env es2 (relay_run env es1 s)"
  by (simp add: relay_run_def)

lemma history_append: "history env (relay_run env es1 s) es2 \<subseteq> history env s (es1 @ es2)"
  by (induction es1 arbitrary: s) (auto simp: history_Cons)

lemma history_at:
  assumes "e \<in> history env s es"
  obtains es1 es2 where "es = es1 @ es2" "e \<in> mail (db_of (relay_run env es1 s))"
proof -
  obtain n where "e \<in> mail (db_of (relay_run env (take n es) s))" using assms by (auto simp: history_def)
  then show ?thesis by (rule that [of "take n es" "drop n es", rotated]) simp
qed

lemma history_end: "mail (db_of (relay_run env es s)) \<subseteq> history env s es"
  by (induction es arbitrary: s) (auto simp: history_Cons)

lemma history_start: "mail (db_of s) \<subseteq> history env s es"
  by (cases es) (auto simp: history_Cons)

lemma call_world:
  "set (pairs (wdb w)) \<subseteq> set (pairs (wdb (snd (call (p, w)))))" "range (clock (snd (call (p, w)))) \<subseteq> range (clock w)"
proof -
  show "set (pairs (wdb w)) \<subseteq> set (pairs (wdb (snd (call (p, w)))))"
    using exec_world_pairs by (cases p) (auto simp: split_beta)
  show "range (clock (snd (call (p, w)))) \<subseteq> range (clock w)"
    by (cases p) (auto simp: split_beta exec_world_def Let_def split: list.splits option.splits)
qed

lemma relay_step_world:
  "set (pairs (db_of s)) \<subseteq> set (pairs (db_of (relay_step env e s)))"
  "range (clock (rworld (relay_step env e s))) \<subseteq> range (clock (rworld s))"
proof -
  show "set (pairs (db_of s)) \<subseteq> set (pairs (db_of (relay_step env e s)))"
    using call_world(1) by (cases e) (auto simp: split_beta Let_def)
  show "range (clock (rworld (relay_step env e s))) \<subseteq> range (clock (rworld s))"
  proof (cases e)
    case (Call i)
    then show ?thesis using call_world(2) [of "running s ! i" "rworld s"] by (simp add: split_beta Let_def)
  qed (auto simp: split_beta Let_def)
qed

lemma relay_run_world:
  "set (pairs (db_of s)) \<subseteq> set (pairs (db_of (relay_run env es s)))"
  "range (clock (rworld (relay_run env es s))) \<subseteq> range (clock (rworld s))"
proof (induction es arbitrary: s)
  case (Cons e es)
  case 1 show ?case using Cons(1) [of "relay_step env e s"] relay_step_world(1) [of s env e] by auto
  case 2 show ?case using Cons(2) [of "relay_step env e s"] relay_step_world(2) [of env e s] by auto
qed simp_all

text \<open>A program keeps its rule whatever the other programs do.\<close>

lemma step_obeys:
  assumes "obeys_at T G (running s ! i) Q (db_of s) H" "i < length (running s)" "range (clock (rworld s)) \<subseteq> T"
    and "mail (db_of s) \<subseteq> H"
  shows "obeys_at T G (running (relay_step env e s) ! i) Q (db_of (relay_step env e s)) (H \<union> mail (db_of (relay_step env e s)))"
proof (cases "e = Call i")
  case True
  then show ?thesis using call_obeys [OF assms(1,3,4)] assms(2) by (simp add: split_beta Let_def)
next
  case False
  then show ?thesis
    using obeys_at_mono [OF assms(1) relay_step_world(1) [of s env e]] step_other [OF assms(2) False] by simp
qed

lemma run_obeys:
  assumes "obeys_at T G (running s ! i) Q (db_of s) H" "i < length (running s)" "range (clock (rworld s)) \<subseteq> T"
    and "mail (db_of s) \<subseteq> H"
  shows "obeys_at T G (running (relay_run env es s) ! i) Q (db_of (relay_run env es s)) (H \<union> history env s es)"
  using assms
proof (induction es arbitrary: s H)
  case Nil
  then show ?case by (simp add: Un_absorb2)
next
  case (Cons e es)
  let ?s = "relay_step env e s"
  have "obeys_at T G (running (relay_run env es ?s) ! i) Q (db_of (relay_run env es ?s))
      ((H \<union> mail (db_of ?s)) \<union> history env ?s es)"
    by (rule Cons.IH [OF step_obeys [OF Cons.prems]])
      (use Cons.prems step_length [of s env e] relay_step_world(2) [of env e s] in auto)
  moreover have "(H \<union> mail (db_of ?s)) \<union> history env ?s es = H \<union> history env s (e # es)"
    using Cons.prems(4) history_start [of ?s env es] by (auto simp: history_Cons)
  ultimately show ?case by simp
qed

section \<open>What the programs do to the table\<close>

definition origin :: "'l relay_env \<Rightarrow> request set \<Rightarrow> db \<Rightarrow> env_row \<Rightarrow> bool" where
  "origin env R d e \<longleftrightarrow> (\<exists>r \<in> R. \<exists>p \<in> set (pairs d). sent_by (edv env) r p e)"

definition released :: "'l relay_env \<Rightarrow> time set \<Rightarrow> request set \<Rightarrow> db \<Rightarrow> env_row set \<Rightarrow> env_row \<Rightarrow> bool" where
  "released env T R d H e \<longleftrightarrow>
     (\<exists>r \<in> R. \<exists>p \<in> set (pairs d). \<exists>e' \<in> H. e_msg_id e' = e_msg_id e \<and> e_path_id e = p_path_id p \<and> acked_by (edv env) r p e')
     \<or> (\<exists>t \<in> T. e_received_at e < swept_cutoff (relay_flags env) t)"

lemma origin_mono: "origin env R d e \<Longrightarrow> set (pairs d) \<subseteq> set (pairs d') \<Longrightarrow> origin env R d' e"
  unfolding origin_def by blast

lemma released_mono:
  "released env T R d H e \<Longrightarrow> set (pairs d) \<subseteq> set (pairs d') \<Longrightarrow> H \<subseteq> H' \<Longrightarrow> released env T R d' H' e"
  unfolding released_def by blast

lemma authorised_stmt:
  assumes "authorised env T R K s" "\<forall>f \<in> K. holds d H f"
  shows "e \<in> mail (snd (exec_stmt u s d)) \<Longrightarrow> e \<in> mail d \<or> origin env R d e"
    and "e \<in> mail d \<Longrightarrow> e \<in> mail (snd (exec_stmt u s d)) \<or> released env T R d H e"
proof -
  show "e \<in> mail d \<or> origin env R d e" if e: "e \<in> mail (snd (exec_stmt u s d))"
  proof (cases s)
    case (InsertEnv e')
    obtain r p where "r \<in> R" "PairSeen p \<in> K" "sent_by (edv env) r p e'" using assms(1) InsertEnv by auto
    moreover have "p \<in> set (pairs d)" using assms(2) \<open>PairSeen p \<in> K\<close> by auto
    ultimately show ?thesis using e InsertEnv by (auto simp: mail_def origin_def split: if_splits)
  qed (use e in \<open>auto simp: mail_def split: if_splits\<close>)
  show "e \<in> mail (snd (exec_stmt u s d)) \<or> released env T R d H e" if e: "e \<in> mail d"
  proof (cases s)
    case (DeleteEnvIds pid ids)
    obtain r p where rp: "r \<in> R" "PairSeen p \<in> K" "p_path_id p = pid"
      "\<forall>m \<in> set ids. \<exists>e. MailSeen e \<in> K \<and> e_msg_id e = m \<and> acked_by (edv env) r p e"
      using assms(1) DeleteEnvIds by auto
    have "p \<in> set (pairs d)" using assms(2) rp(2) by auto
    moreover have "\<exists>e' \<in> H. e_msg_id e' = e_msg_id e \<and> acked_by (edv env) r p e'" if "e_msg_id e \<in> set ids"
      using rp(4) that assms(2) by fastforce
    ultimately show ?thesis using e DeleteEnvIds rp(1,3)
      by (auto simp: mail_def env_acked_def released_def)
  next
    case (DeleteEnvBefore c)
    then show ?thesis using e assms(1) by (auto simp: mail_def released_def)
  qed (use e in \<open>auto simp: mail_def split: if_splits\<close>)
qed

section \<open>Lawful states\<close>

definition lawful :: "'l relay_env \<Rightarrow> time set \<Rightarrow> request set \<Rightarrow> env_row set \<Rightarrow> 'l relay \<Rightarrow> bool" where
  "lawful env T R H s \<longleftrightarrow>
     (\<forall>i < length (running s). obeys_at T (authorised env T R) (running s ! i) anything (db_of s) H)
     \<and> range (clock (rworld s)) \<subseteq> T \<and> mail (db_of s) \<subseteq> H"

text \<open>What the response to a request promises, once its program has ended.\<close>

definition answer_post :: "ed_verify \<Rightarrow> request \<Rightarrow> outcome \<Rightarrow> fact set \<Rightarrow> bool" where
  "answer_post ed r x K \<longleftrightarrow> (case x of Answered resp \<Rightarrow> mail_answer ed r resp K | Logged _ _ \<Rightarrow> True)"

lemma admitted_obeys:
  assumes "r \<in> R"
  shows "obeys_at T (authorised env T R) (answering (fst (publicHandler env rl esc r t t'))) (answer_post (edv env) r) d H"
  unfolding answering_def
  by (rule obeys_atI) (use public_custody [OF assms] in \<open>simp add: answer_post_def\<close>)

lemma obeys_at_any: "obeys_at T G p Q d H \<Longrightarrow> obeys_at T G p anything d H"
  unfolding obeys_at_def by (blast intro: obeys_weaken)

lemma lawful_step:
  assumes "lawful env T R H s" "public_requests [e] \<subseteq> R"
  shows "lawful env T R (H \<union> mail (db_of (relay_step env e s))) (relay_step env e s)"
proof -
  let ?s = "relay_step env e s" and ?G = "authorised env T R"
  let ?H = "H \<union> mail (db_of ?s)"
  have old: "obeys_at T ?G (running ?s ! i) anything (db_of ?s) ?H" if "i < length (running s)" for i
    by (rule step_obeys) (use assms(1) that in \<open>auto simp: lawful_def\<close>)
  have new: "obeys_at T ?G (running ?s ! i) anything (db_of ?s) ?H" if i: "i < length (running ?s)" "\<not> i < length (running s)" for i
  proof (cases e)
    case (Public esc r t t')
    have "r \<in> R" using assms(2) Public by (auto simp: public_requests_def)
    then have "obeys_at T ?G (answering (fst (publicHandler env (limiters s) esc r t t'))) anything (db_of ?s) ?H"
      by (rule admitted_obeys [THEN obeys_at_any])
    moreover have "running ?s = (if public_open s then running s @ [answering (fst (publicHandler env (limiters s) esc r t t'))] else running s)"
      by (simp add: Public split_beta Let_def)
    ultimately show ?thesis using i by (auto simp: nth_append split: if_splits)
  next
    case (Tailnet esc r)
    have "obeys_at T ?G (answering (tailnetHandler env esc r)) anything (db_of ?s) ?H"
      unfolding answering_def by (rule obeys_atI) (simp add: tailnet_custody)
    moreover have "running ?s = (if tailnet_open s then running s @ [answering (tailnetHandler env esc r)] else running s)"
      by (simp add: Tailnet)
    ultimately show ?thesis using i by (auto simp: nth_append split: if_splits)
  qed (use i in \<open>auto simp: split_beta Let_def split: if_splits\<close>)
  have "range (clock (rworld ?s)) \<subseteq> T"
    using relay_step_world(2) [of env e s] assms(1) by (auto simp: lawful_def)
  then show ?thesis unfolding lawful_def using old new by blast
qed

lemma lawful_change:
  assumes "lawful env T R H s"
  shows "x \<in> mail (db_of (relay_step env e s)) \<Longrightarrow> x \<in> mail (db_of s) \<or> origin env R (db_of s) x"
    and "x \<in> mail (db_of s) \<Longrightarrow> x \<in> mail (db_of (relay_step env e s)) \<or> released env T R (db_of s) H x"
proof -
  have "db_of (relay_step env e s) = db_of s \<or> (\<exists>K st. authorised env T R K st \<and> (\<forall>f \<in> K. holds (db_of s) H f)
      \<and> db_of (relay_step env e s) = snd (exec_stmt (uv (rworld s)) st (db_of s)))"
  proof (cases e)
    case (Call i)
    show ?thesis
    proof (cases "i < length (running s)")
      case True
      then have "obeys_at T (authorised env T R) (running s ! i) anything (db_of s) H" "range (clock (rworld s)) \<subseteq> T"
        "mail (db_of s) \<subseteq> H" using assms by (auto simp: lawful_def)
      note c = call_obeys [OF this, THEN conjunct2, THEN conjunct2, THEN conjunct2]
      have "db_of (relay_step env e s) = wdb (snd (call (running s ! i, rworld s)))" using Call True by (simp add: split_beta)
      then show ?thesis using c by simp
    qed (use Call in simp)
  qed (auto simp: split_beta Let_def)
  then show "x \<in> mail (db_of (relay_step env e s)) \<Longrightarrow> x \<in> mail (db_of s) \<or> origin env R (db_of s) x"
    and "x \<in> mail (db_of s) \<Longrightarrow> x \<in> mail (db_of (relay_step env e s)) \<or> released env T R (db_of s) H x"
    using authorised_stmt by metis+
qed

lemma public_requests_Cons: "public_requests (e # es) = public_requests [e] \<union> public_requests es"
  by (auto simp: public_requests_def)

lemma lawful_run:
  assumes "lawful env T R H s" "public_requests es \<subseteq> R"
  shows "lawful env T R (H \<union> history env s es) (relay_run env es s)
    \<and> (\<forall>x \<in> mail (db_of (relay_run env es s)). x \<in> mail (db_of s) \<or> origin env R (db_of (relay_run env es s)) x)
    \<and> (\<forall>x \<in> mail (db_of s). x \<in> mail (db_of (relay_run env es s))
         \<or> released env T R (db_of (relay_run env es s)) (H \<union> history env s es) x)"
  using assms
proof (induction es arbitrary: s H)
  case Nil
  then show ?case by (auto simp: lawful_def Un_absorb2)
next
  case (Cons e es)
  let ?s = "relay_step env e s" and ?H = "H \<union> history env s (e # es)"
  let ?last = "relay_run env es ?s" and ?H1 = "H \<union> mail (db_of (relay_step env e s))"
  have R: "public_requests [e] \<subseteq> R" "public_requests es \<subseteq> R" using Cons.prems(2) public_requests_Cons [of e es] by auto
  note IH = Cons.IH [OF lawful_step [OF Cons.prems(1) R(1)] R(2)]
  have h: "?H1 \<union> history env ?s es = ?H"
    using Cons.prems(1) history_start [of ?s env es] by (auto simp: history_Cons lawful_def)
  note step = lawful_change [OF Cons.prems(1), of _ e]
  have ps: "set (pairs (db_of s)) \<subseteq> set (pairs (db_of ?last))"
    using relay_step_world(1) [of s env e] relay_run_world(1) [of ?s env es] by blast
  have "x \<in> mail (db_of s) \<or> origin env R (db_of ?last) x" if "x \<in> mail (db_of ?last)" for x
    using IH that step(1) [of x] origin_mono [OF _ ps] by blast
  moreover have "x \<in> mail (db_of ?last) \<or> released env T R (db_of ?last) ?H x" if x: "x \<in> mail (db_of s)" for x
    using IH step(2) [OF x] released_mono [OF _ ps, of env T R H x ?H] unfolding h by blast
  ultimately show ?case using IH unfolding h by simp
qed

lemma run_clock: "range (clock (snd (run p w))) \<subseteq> range (clock w)"
proof (induction p arbitrary: w)
  case (Exec s k)
  have "clock (snd (exec_world s w)) = clock w"
    by (auto simp: exec_world_def Let_def split_beta split: list.splits option.splits)
  then show ?case using Exec [OF rangeI, of "fst (exec_world s w)" "snd (exec_world s w)"] by (simp add: split_beta)
next
  case (Now k)
  show ?case using Now [OF rangeI, of "clock w 0" "w\<lparr>clock := \<lambda>n. clock w (Suc n)\<rparr>"] by fastforce
next
  case (Rand k)
  show ?case using Rand [OF rangeI, of "entropy w 0" "w\<lparr>entropy := \<lambda>n. entropy w (Suc n)\<rparr>"] by simp
qed simp_all

lemma main_lawful:
  assumes "relay_main canceled schema env wakes w = Inr s"
  shows "lawful env (range (clock w)) R (mail (db_of s)) s"
proof -
  have "range (clock (rworld s)) \<subseteq> range (clock w)"
    using assms run_clock [of "relay_open schema (relay_flags env)" w]
    by (auto simp: relay_main_def split: prod.splits option.splits)
  moreover have "obeys_at (range (clock w)) (authorised env (range (clock w)) R) (sweeping canceled (relay_flags env) wakes)
      anything (db_of s) (mail (db_of s))"
    by (rule obeys_atI [OF sweeping_custody])
  ultimately show ?thesis using main_started [OF assms] by (simp add: lawful_def started_def)
qed

section \<open>Custody\<close>

text \<open>Why an envelope may be gone at the end of a run: its reader's signed ack, or its age.\<close>

definition let_go :: "'l relay_env \<Rightarrow> 'l relay \<Rightarrow> (nat \<Rightarrow> time) \<Rightarrow> relay_event list \<Rightarrow> env_row \<Rightarrow> bool" where
  "let_go env s clk es e \<longleftrightarrow>
     (\<exists>r \<in> public_requests es. \<exists>p \<in> set (pairs (db_of (relay_run env es s))). \<exists>e' \<in> history env s es.
        e_msg_id e' = e_msg_id e \<and> e_path_id e = p_path_id p \<and> acked_by (edv env) r p e')
     \<or> (\<exists>n. e_received_at e < swept_cutoff (relay_flags env) (clk n))"

lemma let_go_released:
  "released env (range clk) (public_requests es) (db_of (relay_run env es s)) (history env s es) e \<longleftrightarrow> let_go env s clk es e"
  by (auto simp: released_def let_go_def)

text \<open>
  C20. Every envelope in the table was signed by a half of an existing pair: in every run
  of the relay, whatever is sent to both listeners and however handlers interleave, an
  envelope that was not there at the start is the body of a request the public listener
  received, whose signature over its canonical JSON verifies under a registered key of
  the pair it is filed under, in the direction of that half.
\<close>

theorem mail_authentic:
  assumes "relay_main canceled schema env wakes w = Inr s"
    and "e \<in> mail (db_of (relay_run env es s))" "e \<notin> mail (wdb w)"
  shows "\<exists>r \<in> public_requests es. \<exists>p \<in> set (pairs (db_of (relay_run env es s))). sent_by (edv env) r p e"
  using lawful_run [OF main_lawful [OF assms(1), of "public_requests es"] order_refl] main_db [OF assms(1)] assms(2,3)
  by (auto simp: origin_def)

lemma kept:
  assumes "relay_main canceled schema env wakes w = Inr s"
    and "e \<in> mail (db_of (relay_run env es1 s))"
  shows "e \<in> mail (db_of (relay_run env (es1 @ es2) s)) \<or> let_go env s (clock w) (es1 @ es2) e"
proof -
  let ?R = "public_requests (es1 @ es2)" and ?T = "range (clock w)"
  have R: "public_requests es1 \<subseteq> ?R" "public_requests es2 \<subseteq> ?R" by (auto simp: public_requests_def)
  note l = lawful_run [OF main_lawful [OF assms(1)] R(1), THEN conjunct1]
  have h: "mail (db_of s) \<union> history env s es1 \<union> history env (relay_run env es1 s) es2 \<subseteq> history env s (es1 @ es2)"
  proof -
    have "history env s es1 \<subseteq> history env s (es1 @ es2)"
    proof
      fix x assume "x \<in> history env s es1"
      then obtain a b where "es1 = a @ b" "x \<in> mail (db_of (relay_run env a s))" by (rule history_at)
      then show "x \<in> history env s (es1 @ es2)"
        using history_append [of env a s "b @ es2"] history_start [of "relay_run env a s" env "b @ es2"] by auto
    qed
    then show ?thesis using history_append [of env es1 s es2] history_start [of s env "es1 @ es2"] by blast
  qed
  have "e \<in> mail (db_of (relay_run env es2 (relay_run env es1 s)))
    \<or> released env ?T ?R (db_of (relay_run env (es1 @ es2) s)) (mail (db_of s) \<union> history env s es1 \<union> history env (relay_run env es1 s) es2) e"
    using lawful_run [OF l R(2)] assms(2) unfolding relay_run_append by blast
  then show ?thesis
    using released_mono [OF _ order_refl h] let_go_released [of env "clock w" "es1 @ es2" s e] unfolding relay_run_append by blast
qed

text \<open>
  Mail is kept: an envelope that is in the table at some point of a run is still there
  at its end, unless a half of its pair signed an ack naming it, which the public
  listener received, for mail addressed to that half, or the retention sweep found it
  older than the configured age at some reading of the clock.
\<close>

theorem mail_kept:
  assumes "relay_main canceled schema env wakes w = Inr s"
    and "e \<in> mail (db_of (relay_run env es1 s))"
  shows "e \<in> mail (db_of (relay_run env (es1 @ es2) s)) \<or> let_go env s (clock w) (es1 @ es2) e"
  by (rule kept [OF assms])

text \<open>The request admitted after \<open>es1\<close> and what its program knows when it has answered.\<close>

lemma answered_knows:
  assumes "relay_main canceled schema env wakes w = Inr s"
    and "es = es1 @ Public esc r t t' # es2" "public_open (relay_run env es1 s)"
    and "running (relay_run env es s) ! length (running (relay_run env es1 s)) = Ret (Answered resp)"
  obtains K where "mail_answer (edv env) r resp K" "\<forall>f \<in> K. holds (db_of (relay_run env es s)) (history env s es) f"
proof -
  let ?s1 = "relay_run env es1 s" and ?T = "range (clock w)" and ?R = "public_requests es"
  let ?s2 = "relay_step env (Public esc r t t') ?s1"
  let ?i = "length (running ?s1)"
  have r: "r \<in> ?R" using assms(2) by (auto simp: public_requests_def)
  have i: "?i < length (running ?s2)" "running ?s2 ! ?i = answering (fst (publicHandler env (limiters ?s1) esc r t t'))"
    "db_of ?s2 = db_of ?s1" using assms(3) by (simp_all add: split_beta Let_def)
  have clk: "range (clock (rworld ?s2)) \<subseteq> ?T"
    using main_lawful [OF assms(1)] unfolding lawful_def
    by (intro order_trans [OF relay_step_world(2)] order_trans [OF relay_run_world(2)]) simp
  have "obeys_at ?T (authorised env ?T ?R) (running ?s2 ! ?i) (answer_post (edv env) r) (db_of ?s2) (mail (db_of ?s2))"
    unfolding i(2) by (rule admitted_obeys [OF r])
  from run_obeys [OF this i(1) clk order_refl, of env es2]
  have "obeys_at ?T (authorised env ?T ?R) (Ret (Answered resp)) (answer_post (edv env) r) (db_of (relay_run env es s))
      (mail (db_of ?s2) \<union> history env ?s2 es2)"
    using assms(2,4) by (simp add: relay_run_append del: relay_step.simps)
  then obtain K where K: "mail_answer (edv env) r resp K"
    "\<forall>f \<in> K. holds (db_of (relay_run env es s)) (mail (db_of ?s2) \<union> history env ?s2 es2) f"
    by (auto simp: obeys_at_def answer_post_def)
  have "mail (db_of ?s2) \<union> history env ?s2 es2 \<subseteq> history env s es"
    using history_append [of env "es1 @ [Public esc r t t']" s es2] history_start [of ?s2 env es2] assms(2)
    by (auto simp: relay_run_append simp del: relay_step.simps)
  then show ?thesis using that [OF K(1)] K(2) holds_mono [OF _ order_refl] by blast
qed

lemma accepted_stored:
  assumes "relay_main canceled schema env wakes w = Inr s"
    and "es = es1 @ Public esc r t t' # es2" "public_open (relay_run env es1 s)"
    and "running (relay_run env es s) ! length (running (relay_run env es1 s)) = Ret (Answered resp)" "status resp = 202"
  obtains p e where "p \<in> set (pairs (db_of (relay_run env es s)))" "sent_by (edv env) r p e" "e \<in> history env s es"
proof -
  obtain K where K: "mail_answer (edv env) r resp K" "\<forall>f \<in> K. holds (db_of (relay_run env es s)) (history env s es) f"
    by (rule answered_knows [OF assms(1-4)])
  then obtain p e where pe: "PairSeen p \<in> K" "MailSeen e \<in> K" "sent_by (edv env) r p e"
    using assms(5) by (auto simp: mail_answer_def put_stored_def)
  show ?thesis using that [OF _ pe(3)] bspec [OF K(2) pe(1)] bspec [OF K(2) pe(2)] by simp
qed

text \<open>
  C9. A PUT that was answered 202 is durable: when the relay has answered a request of
  the public listener with 202, in any interleaving and under any storage faults, the
  request's body is an envelope that a half of an active pair signed, and it is in the
  table at the end of the run unless its reader acknowledged it or it was swept.
\<close>

theorem accepted_put_durable:
  assumes "relay_main canceled schema env wakes w = Inr s"
    and "es = es1 @ Public esc r t t' # es2" "public_open (relay_run env es1 s)"
    and "running (relay_run env es s) ! length (running (relay_run env es1 s)) = Ret (Answered resp)" "status resp = 202"
  shows "\<exists>p \<in> set (pairs (db_of (relay_run env es s))). \<exists>e. sent_by (edv env) r p e
    \<and> (e \<in> mail (db_of (relay_run env es s)) \<or> let_go env s (clock w) es e)"
proof -
  obtain p e where pe: "p \<in> set (pairs (db_of (relay_run env es s)))" "sent_by (edv env) r p e" "e \<in> history env s es"
    by (rule accepted_stored [OF assms])
  obtain a b where ab: "es = a @ b" "e \<in> mail (db_of (relay_run env a s))" using pe(3) by (rule history_at)
  from kept [OF assms(1) ab(2), of b] show ?thesis using pe(1,2) ab(1) by blast
qed

text \<open>
  A page of mail is private, also when handlers interleave: whenever the public
  listener answers a request with a list of envelopes, a half of an active pair signed
  exactly this path and query, and every item is the stored text of an envelope that was
  filed under the pair and addressed to that half.
\<close>

theorem served_page_private:
  assumes "relay_main canceled schema env wakes w = Inr s"
    and "es = es1 @ Public esc r t t' # es2" "public_open (relay_run env es1 s)"
    and "running (relay_run env es s) ! length (running (relay_run env es1 s)) = Ret (Answered (list_response items))"
  shows "\<exists>p \<in> set (pairs (db_of (relay_run env es s))). \<exists>k \<in> half_keys p. \<exists>rows.
    signed_by (edv env) k (Get (hdr r) ''X-Nexus-Signature'') (signedPath r) \<and> map OuterJSON items = map e_outer_json rows
    \<and> (\<forall>e \<in> set rows. e \<in> history env s es \<and> e_path_id e = p_path_id p
         \<and> e_direction e = (if k = p_requester_pubkey p then BToA else AToB))"
proof -
  obtain K where K: "mail_answer (edv env) r (list_response items) K"
    "\<forall>f \<in> K. holds (db_of (relay_run env es s)) (history env s es) f"
    by (rule answered_knows [OF assms(1-4)])
  then obtain p rows where pr: "PairSeen p \<in> K" "MailSeen ` set rows \<subseteq> K" "page_signed (edv env) r p rows"
    "map OuterJSON items = map e_outer_json rows" by (auto simp: mail_answer_def page_private_def)
  have p: "p \<in> set (pairs (db_of (relay_run env es s)))" and rows: "\<forall>e \<in> set rows. e \<in> history env s es"
    using bspec [OF K(2) pr(1)] bspec [OF K(2) subsetD [OF pr(2) imageI]] by simp_all
  then show ?thesis using pr(3,4) unfolding page_signed_def by blast
qed

end
