(* ===== verification/RelayDelivery.thy ===== *)
theory RelayDelivery
  imports RelayMail
begin

text \<open>
  Delivery in runs of the relay: a page of mail is the listing of the table at one moment
  between the admission of its request and its answer, so mail accepted before the
  request is on it.
\<close>

section \<open>What a program has looked at\<close>

text \<open>
  Whatever worlds the calls of a program meet, it ends in a value with the databases its
  statements met, for which \<open>Q\<close> holds.
\<close>

primrec sees :: "'a prog \<Rightarrow> ('a \<Rightarrow> db set \<Rightarrow> bool) \<Rightarrow> db set \<Rightarrow> bool" where
  "sees (Ret x) Q D = Q x D"
| "sees Panic Q D = True"
| "sees (Exec s k) Q D = (\<forall>w. sees (k (fst (exec_world s w))) Q (insert (wdb w) D))"
| "sees (Now k) Q D = (\<forall>t. sees (k t) Q D)"
| "sees (Rand k) Q D = (\<forall>b. sees (k b) Q D)"

lemma sees_bind [simp]: "sees (bind p f) Q D = sees p (\<lambda>a. sees (f a) Q) D"
  by (induction p arbitrary: D) simp_all

lemma sees_exec [simp]: "sees (exec s) Q D = (\<forall>w. Q (fst (exec_world s w)) (insert (wdb w) D))"
  by (simp add: exec_def)

lemma sees_ret: "prog_ret R p \<Longrightarrow> (\<And>a D. R a \<Longrightarrow> Q a D) \<Longrightarrow> sees p Q D"
  by (induction p arbitrary: D) auto

lemma sees_catch: "sees p Q D \<Longrightarrow> (\<And>D. Q v D) \<Longrightarrow> sees (catch v p) Q D"
  by (induction p arbitrary: D) auto

definition growing :: "('a \<Rightarrow> db set \<Rightarrow> bool) \<Rightarrow> bool" where
  "growing Q \<longleftrightarrow> (\<forall>x D D'. Q x D \<longrightarrow> D \<subseteq> D' \<longrightarrow> Q x D')"

lemma sees_more: "sees p Q D \<Longrightarrow> growing Q \<Longrightarrow> D \<subseteq> D' \<Longrightarrow> sees p Q D'"
proof (induction p arbitrary: D D')
  case (Exec s k)
  have "sees (k (fst (exec_world s w))) Q (insert (wdb w) D')" for w
    by (rule Exec.IH [OF rangeI _ Exec.prems(2), of _ "insert (wdb w) D"]) (use Exec.prems in auto)
  then show ?case by simp
next
  case (Now k)
  have "sees (k t) Q D'" for t
    by (rule Now.IH [OF rangeI _ Now.prems(2,3)]) (use Now.prems in simp)
  then show ?case by simp
next
  case (Rand k)
  have "sees (k b) Q D'" for b
    by (rule Rand.IH [OF rangeI _ Rand.prems(2,3)]) (use Rand.prems in simp)
  then show ?case by simp
qed (auto simp: growing_def)

lemma sees_call: "sees p Q D \<Longrightarrow> growing Q \<Longrightarrow> sees (fst (call (p, w))) Q (insert (wdb w) D)"
  using sees_more [of p Q D "insert (wdb w) D"] by (cases p) (auto simp: split_beta intro: sees_more)

text \<open>The databases of a run, at its start and after every event.\<close>

definition moments :: "'l relay_env \<Rightarrow> 'l relay \<Rightarrow> relay_event list \<Rightarrow> db set" where
  "moments env s es = (\<lambda>n. db_of (relay_run env (take n es) s)) ` {..length es}"

lemma moments_Nil [simp]: "moments env s [] = {db_of s}"
  by (simp add: moments_def)

lemma moments_Cons: "moments env s (e # es) = insert (db_of s) (moments env (relay_step env e s) es)"
proof -
  have "{..length (e # es)} = insert 0 (Suc ` {..length es})"
    by (auto simp: image_iff) (metis Suc_le_mono atMost_iff not0_implies_Suc)
  then show ?thesis by (simp add: moments_def image_image)
qed

lemma moment_at:
  assumes "d \<in> moments env s es"
  obtains es1 es2 where "es = es1 @ es2" "d = db_of (relay_run env es1 s)"
proof -
  obtain n where "d = db_of (relay_run env (take n es) s)" using assms by (auto simp: moments_def)
  then show ?thesis by (rule that [of "take n es" "drop n es", rotated]) simp
qed

lemma run_sees:
  assumes "sees (running s ! i) Q D" "growing Q" "i < length (running s)"
  shows "sees (running (relay_run env es s) ! i) Q (D \<union> moments env s es)"
  using assms(1,3)
proof (induction es arbitrary: s D)
  case Nil
  then show ?case using assms(2) by (auto intro: sees_more)
next
  case (Cons e es)
  let ?s = "relay_step env e s"
  have "sees (running ?s ! i) Q (insert (db_of s) D)"
  proof (cases "e = Call i")
    case True
    then show ?thesis using sees_call [OF Cons.prems(1) assms(2), of "rworld s"] Cons.prems(2) by (simp add: split_beta)
  next
    case False
    then show ?thesis using step_other [OF Cons.prems(2) False] sees_more [OF Cons.prems(1) assms(2), of "insert (db_of s) D"] by auto
  qed
  moreover have "i < length (running ?s)" using Cons.prems(2) step_length [of s env e] by linarith
  ultimately have "sees (running (relay_run env es ?s) ! i) Q (insert (db_of s) D \<union> moments env ?s es)" by (rule Cons.IH)
  then show ?case by (simp add: moments_Cons)
qed

section \<open>A page is a snapshot\<close>

text \<open>The inbox of a half and the first page after a cursor.\<close>

definition half_inbox :: "pair_row \<Rightarrow> string \<Rightarrow> direction" where
  "half_inbox p k = (if k = p_requester_pubkey p then BToA else AToB)"

definition page_rows :: "string \<Rightarrow> direction \<Rightarrow> string \<Rightarrow> db \<Rightarrow> env_row list" where
  "page_rows pid dir since d = take listLimit (sort_key e_msg_id (filter (env_wanted pid dir since) (envelopes d)))"

definition snapshot :: "ed_verify \<Rightarrow> request \<Rightarrow> db set \<Rightarrow> envelope list \<Rightarrow> pair_row \<Rightarrow> string \<Rightarrow> bool" where
  "snapshot ed r D items p k \<longleftrightarrow> (\<exists>d \<in> D. p \<in> set (pairs d)) \<and> k \<in> half_keys p
     \<and> path r = ''/mailbox/'' @ p_path_id p \<and> signed_by ed k (Get (hdr r) ''X-Nexus-Signature'') (signedPath r)
     \<and> (\<exists>d \<in> D. map OuterJSON items = map e_outer_json (page_rows (p_path_id p) (half_inbox p k) (QueryGet r ''since'') d))"

definition page_snapshot :: "ed_verify \<Rightarrow> request \<Rightarrow> response \<Rightarrow> db set \<Rightarrow> bool" where
  "page_snapshot ed r resp D \<longleftrightarrow> (\<forall>items. resp = list_response items \<longrightarrow> (\<exists>p k. snapshot ed r D items p k))"

lemma growing_snapshot: "growing (page_snapshot ed r)"
  unfolding growing_def page_snapshot_def snapshot_def by blast

lemma dull_snapshot: "dull resp \<Longrightarrow> page_snapshot ed r resp D"
  by (simp add: page_snapshot_def dull_def)

lemma not_list_snapshot: "status resp \<noteq> 200 \<Longrightarrow> page_snapshot ed r resp D"
  by (auto simp: page_snapshot_def list_response_def)

lemma list_response_inj:
  assumes "list_response es = list_response es'"
  shows "map OuterJSON es = map OuterJSON es'"
proof -
  have raw: "map (\<lambda>e. JRaw (OuterJSON e)) es = map (\<lambda>e. JRaw (OuterJSON e)) es'"
    using assms by (simp add: list_response_def writeJSON_def)
  show ?thesis using arg_cong [OF raw, of "map (\<lambda>j. case j of JRaw x \<Rightarrow> x | _ \<Rightarrow> [])"] by (simp add: comp_def)
qed

lemma exec_world_answer:
  obtains m where "fst (exec_world st w) = RErr m" | "fst (exec_world st w) = fst (exec_stmt (uv w) st (wdb w))"
proof (cases "\<exists>m fs. faults w = Some m # fs")
  case True
  then show ?thesis using that(1) by (auto simp: exec_world_def)
next
  case False
  then show ?thesis using that(2) by (cases "faults w"; cases "hd (faults w)") (auto simp: exec_world_def split_beta Let_def)
qed

lemma sees_GetPair:
  assumes "\<And>e D'. Q (Inl e) D'" "\<And>p d. p \<in> set (pairs d) \<Longrightarrow> p_path_id p = pid \<Longrightarrow> Q (scanPair p) (insert d D)"
  shows "sees (SQLite_GetPair pid) Q D"
proof -
  have "sees (case fst (exec_world (SelectPair pid) w) of RPairs (p # x) \<Rightarrow> Ret (scanPair p)
      | RErr m \<Rightarrow> Ret (Inl (ErrOther (''storage: get pair: '' @ m))) | _ \<Rightarrow> Ret (Inl ErrNotFound)) Q (insert (wdb w) D)" for w
  proof (cases rule: exec_world_answer [of "SelectPair pid" w])
    case 2
    show ?thesis
    proof (cases "filter (\<lambda>p. p_path_id p = pid) (pairs (wdb w))")
      case (Cons p ps)
      have "p \<in> set (filter (\<lambda>p. p_path_id p = pid) (pairs (wdb w)))" unfolding Cons by simp
      then have "Q (scanPair p) (insert (wdb w) D)" using assms(2) [of p "wdb w"] by simp
      then show ?thesis using Cons by (simp add: 2)
    qed (simp add: 2 assms(1))
  qed (simp add: assms(1))
  then show ?thesis by (simp add: SQLite_GetPair_def)
qed

lemma sees_ListEnvelopes:
  assumes "\<And>e D'. Q (Inl e) D'"
    and "\<And>es d. scan_all scanEnvelope (page_rows pid dir since d) = Inr es \<Longrightarrow> Q (Inr es) (insert d D)"
  shows "sees (SQLite_ListEnvelopes pid dir since) Q D"
proof -
  have "sees (case fst (exec_world (SelectEnvs pid dir since listLimit) w) of REnvs rows \<Rightarrow> Ret (scan_all scanEnvelope rows)
      | RErr m \<Rightarrow> Ret (Inl (ErrOther (''storage: list envelopes: '' @ m))) | _ \<Rightarrow> Ret (Inr [])) Q (insert (wdb w) D)" for w
  proof (cases rule: exec_world_answer [of "SelectEnvs pid dir since listLimit" w])
    case 2
    then show ?thesis using assms(2) [of "wdb w"]
      by (cases "scan_all scanEnvelope (page_rows pid dir since (wdb w))") (simp_all add: page_rows_def assms(1))
  qed (simp add: assms(1))
  then show ?thesis by (simp add: SQLite_ListEnvelopes_def)
qed

lemma get_sees:
  assumes "path r = ''/mailbox/'' @ pid"
  shows "sees (get SQLite (EdVerifier_Identify ed) r pid) (page_snapshot ed r) D"
proof -
  let ?Q = "page_snapshot ed r"
  have main: "sees (SQLite_ListEnvelopes pid (readDirectionFor q k) (QueryGet r ''since'')) (\<lambda>l. sees
        (case l of Inl _ \<Rightarrow> Ret (errorJSON 500 ''storage_error'') | Inr es \<Rightarrow> Ret (list_response es)) ?Q) (insert d D)"
    if p: "p \<in> set (pairs d)" "p_path_id p = pid" "scanPair p = Inr q"
      and k: "identify_caller (EdVerifier_Identify ed) q r (signedPath r) = Inr k" for p q k d
  proof (rule sees_ListEnvelopes)
    fix es d' assume es: "scan_all scanEnvelope (page_rows pid (readDirectionFor q k) (QueryGet r ''since'') d') = Inr es"
    note id = identified_half [OF k p(3)]
    have "snapshot ed r (insert d' (insert d D)) items p k" if "list_response es = list_response items" for items
      using id p(1,2) assms scan_envelopes [OF es] list_response_inj [OF that] by (auto simp: snapshot_def half_inbox_def)
    then show "sees (case Inr es of Inl _ \<Rightarrow> Ret (errorJSON 500 ''storage_error'') | Inr es \<Rightarrow> Ret (list_response es)) ?Q (insert d' (insert d D))"
      by (auto simp: page_snapshot_def)
  qed (simp add: dull_snapshot)
  show ?thesis
    unfolding get_def SQLite_def storage.simps sees_bind
  proof (rule sees_GetPair)
    fix p and d :: db assume "p \<in> set (pairs d)" "p_path_id p = pid"
    note m = main [OF this]
    show "sees (case scanPair p of
         Inl e \<Rightarrow> Ret (if e = ErrNotFound then errorJSON 404 ''pair_not_found'' else errorJSON 500 ''storage_error'')
       | Inr p \<Rightarrow> (case identify_caller (EdVerifier_Identify ed) p r (signedPath r) of Inl resp \<Rightarrow> Ret resp
         | Inr caller \<Rightarrow>
            (let since = QueryGet r ''since'' in
             if since \<noteq> [] \<and> \<not> uuidv7Regex since then Ret (errorJSON 400 ''invalid_since'')
             else if readDirectionFor p caller = [] then Ret (errorJSON 401 ''caller_not_in_pair'')
             else bind (SQLite_ListEnvelopes pid (readDirectionFor p caller) since) (\<lambda>l.
                    case l of Inl _ \<Rightarrow> Ret (errorJSON 500 ''storage_error'')
                    | Inr es \<Rightarrow> Ret (list_response es))))) ?Q (insert d D)"
      using m dull_snapshot [OF dull_refusal [OF identify_caller_cases(2)]]
      by (auto simp: Let_def simp del: sees.simps(1) split: sum.splits) (simp_all add: dull_snapshot)
  qed (auto intro!: dull_snapshot)
qed

text \<open>No other program answers with a page.\<close>

lemma sees_dull: "prog_ret dull p \<Longrightarrow> sees p (page_snapshot ed r) D"
  by (rule sees_ret [OF _ dull_snapshot])

definition pageless :: "response \<Rightarrow> bool" where
  "pageless resp \<longleftrightarrow> (\<forall>items. resp \<noteq> list_response items)"

lemma pageless_dull: "dull resp \<Longrightarrow> pageless resp" "status resp \<noteq> 200 \<Longrightarrow> pageless resp"
  by (auto simp: dull_def pageless_def list_response_def)

lemma sees_pageless: "prog_ret pageless p \<Longrightarrow> sees p (page_snapshot ed r) D"
  by (erule sees_ret) (simp add: pageless_def page_snapshot_def)

lemma put_pageless: "prog_ret pageless (put SQLite vf r pid)"
proof -
  have "put_parse r pid = Inl resp \<Longrightarrow> pageless resp" "put_admit vf p r env t = Inl resp \<Longrightarrow> pageless resp" for resp p env t
    using put_parse_Inl put_admit_Inl dull_refusal pageless_dull(1) by blast+
  moreover have "pageless (writeJSON 202 j)" for j by (rule pageless_dull(2)) simp
  ultimately show ?thesis
    by (auto simp: put_def pageless_dull intro!: prog_ret_bind [OF prog_ret_True] split: sum.splits sterr.splits option.splits)
qed

lemma ack_pageless: "prog_ret pageless (ack SQLite vf r pid)"
proof -
  have "identify_caller vf p r m = Inl resp \<Longrightarrow> pageless resp" for p m resp
    using identify_caller_cases(2) dull_refusal pageless_dull(1) by blast
  moreover have "ack_ids r = Inl resp \<Longrightarrow> pageless resp" for resp
    using ack_ids_dull pageless_dull(1) by blast
  ultimately show ?thesis
    unfolding ack_def ack_batch
    by (auto simp: pageless_dull intro!: prog_ret_bind [OF prog_ret_True] split: sum.splits)
qed

lemma dispatch_sees: "sees (dispatch SQLite (EdVerifier_Identify ed) r) (page_snapshot ed r) D"
proof -
  have "path r = ''/mailbox/'' @ pid" if pre: "TrimPrefix (path r) ''/mailbox/'' \<noteq> path r" and split: "Split CHR ''/'' (TrimPrefix (path r) ''/mailbox/'') = [pid]" for pid
  proof -
    have "TrimPrefix (path r) ''/mailbox/'' = pid" using Join_Split [of "CHR ''/''" "TrimPrefix (path r) ''/mailbox/''"] split by simp
    moreover obtain q where "path r = ''/mailbox/'' @ q" using pre unfolding TrimPrefix_eq_self_iff HasPrefix_iff by blast
    ultimately show ?thesis using TrimPrefix_append [of "''/mailbox/''" q] by metis
  qed
  then have "sees (get SQLite (EdVerifier_Identify ed) r pid) (page_snapshot ed r) D"
    if "TrimPrefix (path r) ''/mailbox/'' \<noteq> path r" "Split CHR ''/'' (TrimPrefix (path r) ''/mailbox/'') = [pid]" for pid D
    using that by (intro get_sees)
  then show ?thesis
    by (auto simp: dispatch_def Let_def dull_snapshot intro: sees_pageless put_pageless ack_pageless split: list.splits)
qed

lemma public_sees: "sees (fst (publicHandler env rl esc r t t')) (page_snapshot (edv env) r) D"
proof -
  have "sees (publicMux env esc r) (page_snapshot (edv env) r) D"
    using serve_mux_cases [of "public_handlers env" esc r]
    by (auto simp: publicMux_def public_handlers_def dull_snapshot static_dull sees_dull [OF dull_pairing] dispatch_sees)
  then show ?thesis
    by (auto simp: publicHandler_def RateLimit_def Recover_def split_beta Let_def dull_snapshot static_dull intro!: sees_catch)
qed

section \<open>Mail is delivered\<close>

lemma run_pairs: "set (pairs (db_of (relay_run env es1 s))) \<subseteq> set (pairs (db_of (relay_run env (es1 @ es2) s)))"
  unfolding relay_run_append by (rule relay_run_world(1))

lemma answered_snapshot:
  assumes "es = es1 @ Public esc r t t' # es2" "public_open (relay_run env es1 s)"
    and "running (relay_run env es s) ! length (running (relay_run env es1 s)) = Ret (Answered (list_response items))"
  obtains p k where "snapshot (edv env) r (moments env (relay_run env (es1 @ [Public esc r t t']) s) es2) items p k"
proof -
  let ?s1 = "relay_run env es1 s" and ?s2 = "relay_run env (es1 @ [Public esc r t t']) s"
  let ?i = "length (running ?s1)" and ?Q = "\<lambda>x. case x of Answered resp \<Rightarrow> page_snapshot (edv env) r resp | Logged _ _ \<Rightarrow> (\<lambda>D. True)"
  have s2: "?i < length (running ?s2)" "running ?s2 ! ?i = answering (fst (publicHandler env (limiters ?s1) esc r t t'))"
    using assms(2) by (simp_all add: relay_run_append split_beta Let_def)
  have "sees (running ?s2 ! ?i) ?Q {}" unfolding s2(2) answering_def sees_bind sees.simps outcome.case by (rule public_sees)
  moreover have "growing ?Q" using growing_snapshot [of "edv env" r] by (auto simp: growing_def split: outcome.splits)
  ultimately have "sees (running (relay_run env es2 ?s2) ! ?i) ?Q ({} \<union> moments env ?s2 es2)" using s2(1) by (rule run_sees)
  moreover have "relay_run env es s = relay_run env es2 ?s2" by (simp add: assms(1) relay_run_append)
  ultimately have "page_snapshot (edv env) r (list_response items) (moments env ?s2 es2)" using assms(3) by simp
  then show ?thesis using that by (auto simp: page_snapshot_def)
qed

lemma moment_after:
  assumes "d \<in> moments env (relay_run env (es1 @ [g]) s) es2"
  obtains a b where "es2 = a @ b" "d = db_of (relay_run env (es1 @ g # a) s)"
proof -
  obtain a b where "es2 = a @ b" "d = db_of (relay_run env a (relay_run env (es1 @ [g]) s))" using assms by (rule moment_at)
  then show ?thesis using that by (simp add: relay_run_append [symmetric])
qed

text \<open>
  C13. A page of mail is a snapshot: whenever the public listener answers a GET with a list
  of envelopes, in any interleaving and under any faults, there is one moment between the
  admission of the request and its answer at which the list was exactly the first fifty
  envelopes, by message id, newer than the cursor in the inbox of the half that signed.
\<close>

theorem page_is_snapshot:
  assumes "es = es1 @ Public esc r t t' # es2" "public_open (relay_run env es1 s)"
    and "running (relay_run env es s) ! length (running (relay_run env es1 s)) = Ret (Answered (list_response items))"
  shows "\<exists>p \<in> set (pairs (db_of (relay_run env es s))). \<exists>k \<in> half_keys p. path r = ''/mailbox/'' @ p_path_id p
    \<and> signed_by (edv env) k (Get (hdr r) ''X-Nexus-Signature'') (signedPath r)
    \<and> (\<exists>es3 es4. es = es1 @ Public esc r t t' # es3 @ es4 \<and> map OuterJSON items = map e_outer_json
         (page_rows (p_path_id p) (half_inbox p k) (QueryGet r ''since'') (db_of (relay_run env (es1 @ Public esc r t t' # es3) s))))"
proof -
  let ?s2 = "relay_run env (es1 @ [Public esc r t t']) s"
  obtain p k where sn: "snapshot (edv env) r (moments env ?s2 es2) items p k" by (rule answered_snapshot [OF assms])
  obtain d1 where "d1 \<in> moments env ?s2 es2" "p \<in> set (pairs d1)" using sn by (auto simp: snapshot_def)
  then obtain a b where "es2 = a @ b" "p \<in> set (pairs (db_of (relay_run env (es1 @ Public esc r t t' # a) s)))"
    by (auto elim: moment_after)
  then have "p \<in> set (pairs (db_of (relay_run env es s)))"
    using run_pairs [of env "es1 @ Public esc r t t' # a" s b] assms(1) by auto
  moreover obtain d2 where d2: "d2 \<in> moments env ?s2 es2"
    "map OuterJSON items = map e_outer_json (page_rows (p_path_id p) (half_inbox p k) (QueryGet r ''since'') d2)"
    using sn by (auto simp: snapshot_def)
  moreover obtain a' b' where "es2 = a' @ b'" "d2 = db_of (relay_run env (es1 @ Public esc r t t' # a') s)"
    using d2(1) by (rule moment_after)
  ultimately show ?thesis using sn assms(1) unfolding snapshot_def by blast
qed

lemma run_unique_paths:
  assumes "relay_main canceled schema env wakes w = Inr s" "unique_keys (wdb w)"
    and "p \<in> set (pairs (db_of (relay_run env es s)))" "q \<in> set (pairs (db_of (relay_run env es s)))" "p_path_id p = p_path_id q"
  shows "p = q"
proof -
  have "(server (relay_programs env True))\<^sup>*\<^sup>* (running s, rworld s) (running (relay_run env es s), rworld (relay_run env es s))"
    by (rule relay_run_server) simp
  from server_unique_keys [OF this] have "unique_keys (db_of (relay_run env es s))" using main_db [OF assms(1)] assms(2) by simp
  then show ?thesis using assms(3-5) by (auto simp: unique_keys_def distinct_map inj_on_def)
qed

lemma history_mono: "history env s es \<subseteq> history env s (es @ es')"
proof
  fix x assume "x \<in> history env s es"
  then obtain a b where "es = a @ b" "x \<in> mail (db_of (relay_run env a s))" by (rule history_at)
  then show "x \<in> history env s (es @ es')"
    using history_append [of env a s "b @ es'"] history_start [of "relay_run env a s" env "b @ es'"] by auto
qed

lemma let_go_mono: "let_go env s clk es e \<Longrightarrow> let_go env s clk (es @ es') e"
proof -
  have "public_requests es \<subseteq> public_requests (es @ es')" by (auto simp: public_requests_def)
  then show "let_go env s clk es e \<Longrightarrow> let_go env s clk (es @ es') e"
    unfolding let_go_def using run_pairs [of env es s es'] history_mono [of env s es es'] by blast
qed

text \<open>A page that is not full shows all there is.\<close>

lemma on_page:
  assumes "map OuterJSON items = map e_outer_json (page_rows pid dir since d)" "e \<in> mail d" "env_wanted pid dir since e"
    and "length items < listLimit"
  shows "e_outer_json e \<in> OuterJSON ` set items"
proof -
  have "length (page_rows pid dir since d) < listLimit" using arg_cong [OF assms(1), of length] assms(4) by simp
  then have "page_rows pid dir since d = sort_key e_msg_id (filter (env_wanted pid dir since) (envelopes d))"
    unfolding page_rows_def by (intro take_all) simp
  then have "e_outer_json e \<in> set (map OuterJSON items)" unfolding assms(1) using assms(2,3) by (simp add: mail_def)
  then show ?thesis by simp
qed

text \<open>
  C6. Mail is delivered: take a PUT the relay has answered with 202, and a later GET of the
  same mailbox that it answers with a page shorter than fifty.  In every interleaving with
  other requests, and under any faults, the half that signed the GET finds the envelope on
  the page if it is addressed to it and newer than its cursor, unless its reader had
  already acknowledged it or the retention sweep had taken it.
\<close>

theorem mail_delivered:
  assumes "relay_main canceled schema env wakes w = Inr s" "unique_keys (wdb w)"
    and "mid = es1 @ Public esc rp t t' # es2" "es = mid @ Public esc' rg u u' # es3"
    and "public_open (relay_run env es1 s)" "public_open (relay_run env mid s)"
    and "running (relay_run env mid s) ! length (running (relay_run env es1 s)) = Ret (Answered resp)" "status resp = 202"
    and "running (relay_run env es s) ! length (running (relay_run env mid s)) = Ret (Answered (list_response items))"
    and "length items < listLimit"
  shows "\<exists>p \<in> set (pairs (db_of (relay_run env es s))). \<exists>e. sent_by (edv env) rp p e
    \<and> (path rg = ''/mailbox/'' @ p_path_id p \<longrightarrow> (\<exists>k \<in> half_keys p.
         signed_by (edv env) k (Get (hdr rg) ''X-Nexus-Signature'') (signedPath rg)
         \<and> (e_direction e = half_inbox p k \<and> QueryGet rg ''since'' < e_msg_id e \<longrightarrow>
              e_outer_json e \<in> OuterJSON ` set items \<or> let_go env s (clock w) es e)))"
proof -
  let ?g = "Public esc' rg u u'"
  obtain p e where p: "p \<in> set (pairs (db_of (relay_run env mid s)))" and e: "sent_by (edv env) rp p e" "e \<in> history env s mid"
    by (rule accepted_stored [OF assms(1,3,5,7,8)])
  have p_end: "p \<in> set (pairs (db_of (relay_run env es s)))" using p run_pairs [of env mid s] assms(4) by auto
  obtain q k where sn: "snapshot (edv env) rg (moments env (relay_run env (mid @ [?g]) s) es3) items q k"
    by (rule answered_snapshot [OF assms(4,6,9)])
  have there: "e \<in> mail d \<or> let_go env s (clock w) es e" if d: "d \<in> moments env (relay_run env (mid @ [?g]) s) es3" for d
  proof -
    obtain a b where ab: "es3 = a @ b" "d = db_of (relay_run env (mid @ ?g # a) s)" using d by (rule moment_after)
    obtain x y where xy: "mid = x @ y" "e \<in> mail (db_of (relay_run env x s))" using e(2) by (rule history_at)
    have "e \<in> mail d \<or> let_go env s (clock w) (mid @ ?g # a) e"
      using kept [OF assms(1) xy(2), of "y @ ?g # a"] unfolding ab(2) xy(1) by simp
    then show ?thesis using let_go_mono [of env s "clock w" "mid @ ?g # a" e b] assms(4) ab(1) by auto
  qed
  have "\<exists>k \<in> half_keys p. signed_by (edv env) k (Get (hdr rg) ''X-Nexus-Signature'') (signedPath rg)
      \<and> (e_direction e = half_inbox p k \<and> QueryGet rg ''since'' < e_msg_id e \<longrightarrow> e_outer_json e \<in> OuterJSON ` set items \<or> let_go env s (clock w) es e)"
    if path: "path rg = ''/mailbox/'' @ p_path_id p"
  proof -
    obtain d1 where "d1 \<in> moments env (relay_run env (mid @ [?g]) s) es3" "q \<in> set (pairs d1)" using sn by (auto simp: snapshot_def)
    then obtain a b where "es3 = a @ b" "q \<in> set (pairs (db_of (relay_run env (mid @ ?g # a) s)))" by (auto elim: moment_after)
    then have "q \<in> set (pairs (db_of (relay_run env es s)))" using run_pairs [of env "mid @ ?g # a" s b] assms(4) by auto
    moreover have "p_path_id p = p_path_id q" using sn path by (simp add: snapshot_def)
    ultimately have q: "q = p" using run_unique_paths [OF assms(1,2) p_end] by blast
    obtain d where d: "d \<in> moments env (relay_run env (mid @ [?g]) s) es3"
      "map OuterJSON items = map e_outer_json (page_rows (p_path_id p) (half_inbox p k) (QueryGet rg ''since'') d)"
      using sn unfolding snapshot_def q by blast
    have "e_outer_json e \<in> OuterJSON ` set items" if "e_direction e = half_inbox p k" "QueryGet rg ''since'' < e_msg_id e" "e \<in> mail d"
      by (rule on_page [OF d(2) that(3) _ assms(10)]) (use that e(1) in \<open>auto simp: env_wanted_def sent_by_def\<close>)
    then show ?thesis using sn there [OF d(1)] unfolding snapshot_def q by blast
  qed
  then show ?thesis using p_end e(1) by blast
qed

end
