(* ===== verification/RelayDemo.thy ===== *)
theory RelayDemo
  imports RelayLive PairflowDemo
begin

text \<open>
  The limiter, the sweeper and the relay on concrete inputs: an exact token bucket in
  place of the library's, the relay's own rules, and worlds of the mailbox example.
\<close>

section \<open>A token bucket\<close>

text \<open>A rule, the tokens left, and when they were counted; a new bucket is full.\<close>

type_synonym tokens = "RateRule \<times> rat \<times> time option"

definition filled :: "tokens \<Rightarrow> time \<Rightarrow> rat" where
  "filled b v = (case b of (rule, tok, last_time) \<Rightarrow> (case last_time of None \<Rightarrow> of_int (Burst rule)
     | Some u \<Rightarrow> min (of_int (Burst rule)) (tok + PerSecond rule * of_int (v - u) / 1000000000)))"

definition token_bucket :: "tokens rate_lib" where
  "token_bucket = \<lparr>NewLimiter = \<lambda>rule. (rule, 0, None),
     Allow = \<lambda>b v. (1 \<le> filled b v, fst b, if 1 \<le> filled b v then filled b v - 1 else filled b v, Some v)\<rparr>"

text \<open>A rule whose bucket refills within \<open>d\<close>.\<close>

definition quick :: "duration \<Rightarrow> RateRule \<Rightarrow> bool" where
  "quick d rule \<longleftrightarrow> 0 \<le> PerSecond rule \<and> 0 \<le> Burst rule \<and> of_int (Burst rule) \<le> PerSecond rule * of_int d / 1000000000"

lemma asked_bucket:
  assumes "quick d rule" "sorted ts"
  shows "fst (ask_all token_bucket rule ts) = rule \<and> 0 \<le> fst (snd (ask_all token_bucket rule ts))
    \<and> snd (snd (ask_all token_bucket rule ts)) = (if ts = [] then None else Some (last ts))"
  using assms(2)
proof (induction ts rule: rev_induct)
  case Nil
  then show ?case by (simp add: ask_all_def token_bucket_def)
next
  case (snoc v ts)
  obtain r tok lt where b: "ask_all token_bucket rule ts = (r, tok, lt)" by (cases "ask_all token_bucket rule ts")
  then have IH: "r = rule" "0 \<le> tok" "lt = (if ts = [] then None else Some (last ts))"
    using snoc by (simp_all add: sorted_append)
  have "0 \<le> filled (ask_all token_bucket rule ts) v"
  proof (cases "ts = []")
    case True
    then show ?thesis using b IH assms(1) by (simp add: filled_def quick_def)
  next
    case False
    then have "last ts \<le> v" using snoc.prems by (simp add: sorted_append)
    then have "0 \<le> PerSecond rule * of_int (v - last ts) / (1000000000 :: rat)"
      using assms(1) by (simp add: quick_def)
    then show ?thesis using b IH assms(1) False by (simp add: filled_def quick_def)
  qed
  then show ?case using b IH by (simp add: ask_all_snoc token_bucket_def)
qed

lemma token_bucket_refills:
  assumes "list_all (quick d) rules"
  shows "refills token_bucket d rules"
  unfolding refills_def
proof (intro ballI allI impI)
  fix rule ts u v assume r: "rule \<in> set rules" and s: "sorted (ts @ [u])" and v: "u + d \<le> v"
  have q: "quick d rule" using assms r by (simp add: list_all_iff)
  obtain tok where b: "ask_all token_bucket rule (ts @ [u]) = (rule, tok, Some u)" "0 \<le> tok"
    using asked_bucket [OF q s] by (cases "ask_all token_bucket rule (ts @ [u])") auto
  have "PerSecond rule * of_int d / 1000000000 \<le> PerSecond rule * of_int (v - u) / (1000000000 :: rat)"
    using q v by (intro divide_right_mono mult_left_mono) (auto simp: quick_def)
  then have "of_int (Burst rule) \<le> tok + PerSecond rule * of_int (v - u) / 1000000000"
    using q b(2) by (simp add: quick_def)
  then have "filled (rule, tok, Some u) v = of_int (Burst rule)" by (simp add: filled_def)
  moreover have "filled (rule, 0, None) v = of_int (Burst rule)" by (simp add: filled_def)
  moreover have "NewLimiter token_bucket rule = (rule, 0, None)" by (simp add: token_bucket_def)
  ultimately show "Allow token_bucket (ask_all token_bucket rule (ts @ [u])) v = Allow token_bucket (NewLimiter token_bucket rule) v"
    unfolding b(1) by (simp add: token_bucket_def)
qed

text \<open>Every rule of the relay refills within a minute.\<close>

lemma rateCfg_refills: "refills token_bucket Minute (rules_of rateCfg)"
  by (rule token_bucket_refills) (simp add: rules_of_def rateCfg_def quick_def duration_defs)

section \<open>The limiter\<close>

definition client_req :: request where
  "client_req = \<lparr>meth = ''GET'', path = ''/health'', rawQuery = [], hdr = no_header, body = [], bodyBroken = False,
     RemoteAddr = ''192.0.2.7:4711''\<rparr>"

definition demo_events :: "rl_event list" where
  "demo_events = [Request client_req demo_now demo_now, Evict (demo_now + 11 * Minute),
     Request client_req (demo_now + 12 * Minute) (demo_now + 12 * Minute + 1)]"

theorem buckets_bounded_witness:
  "\<exists>rl. snd (rl_run token_bucket (new_rateLimiter rateCfg) demo_events) = rl
     \<and> int (length (ips_of (keyMap rl) ''default'')) \<le> 50000"
proof -
  let ?rl = "snd (rl_run token_bucket (new_rateLimiter rateCfg) demo_events)"
  have "0 \<le> MaxBucketsPerRule rateCfg" by (simp add: rateCfg_def)
  from buckets_bounded [OF this, of token_bucket demo_events ?rl "''default''"] show ?thesis
    by (simp add: rateCfg_def)
qed

theorem buckets_isolated_witness:
  "bucket_at (snd (allow token_bucket (new_rateLimiter rateCfg) ''default'' ''192.0.2.7'' (Default rateCfg) 0 0)) (''default'', ''192.0.2.8'')
     = bucket_at (new_rateLimiter rateCfg) (''default'', ''192.0.2.8'')"
proof -
  have "rl_wf (new_rateLimiter rateCfg :: tokens rateLimiter)" by (simp add: rl_wf_def new_rateLimiter_def)
  from buckets_isolated [OF this, of "(''default'', ''192.0.2.8'')" "''default''" "''192.0.2.7''"] show ?thesis by simp
qed


section \<open>The sweeper\<close>

theorem sweep_correct_witness:
  "\<exists>w'. run (Once (\<lambda>_. False) SQLite (defaults \<lparr>Interval = 0, EnvelopeMaxAge = 0\<rparr>)) many_world = (Some [Swept 51 0], w')
     \<and> senvs (db_view w') = []"
proof -
  let ?c = "defaults \<lparr>Interval = 0, EnvelopeMaxAge = 0\<rparr>" and ?can = "\<lambda>_ :: sterr. False"
  have c: "clock many_world 0 = demo_now" "sweep_cutoff ?c demo_now = demo_now - 604800000000000"
    by (simp_all add: many_world_def demo_range sweep_cutoff_def defaults_def duration_defs neg64_def time_Add_def minDuration_def)
  then have rng: "wire_range (clock many_world 0)" "wire_range (sweep_cutoff ?c (clock many_world 0))"
    by (simp_all add: wire_range_def demo_now_def)
  obtain logs w' where r: "run (Once ?can SQLite ?c) many_world = (Some logs, w')"
    using retention_sq.once_refines [OF many_healthy rng, of ?can] by auto
  have old: "ReceivedAt (env_of_row (many_row i)) = 0" for i
  proof -
    have "the_time ''1970-01-01T00:00:00Z'' = 0" by code_simp
    then show ?thesis by (simp add: env_of_row_def many_row_def)
  qed
  have "(0 :: int) < truncSec (demo_now - 604800000000000)" by (simp add: truncSec_def demo_now_def)
  then have none: "filter (\<lambda>e. \<not> ReceivedAt e < truncSec (sweep_cutoff ?c (clock many_world 0))) (senvs (db_view many_world)) = []"
    unfolding c using old by (auto simp: db_view_def many_world_def filter_empty_conv simp del: upt.simps upt_Suc)
  have len: "length (senvs (db_view many_world)) = 51" "sreqs (db_view many_world) = []"
    by (simp_all add: db_view_def many_world_def demo_world_def empty_db_def del: upt.simps upt_Suc)
  from sweep_correct [OF many_healthy rng r] none len
  have "senvs (db_view w') = []" "logs = sweep_lines (51, 0)" by simp_all
  then show ?thesis using r by (simp add: sweep_lines_def)
qed

section \<open>The relay\<close>

definition demo_relay_env :: "tokens relay_env" where
  "demo_relay_env = \<lparr>edv = toy_ed, rate = token_bucket, landing_page = [], discovery_doc = [],
     relay_flags = \<lparr>interchangeID = ''owner'', sweepInterval = 0, envelopeMaxAge = 0, ownerSecret = ''s3cret''\<rparr>\<rparr>"

lemma demo_main: "\<exists>s. relay_main (\<lambda>_. False) [] demo_relay_env [Tick, Done] demo_world = Inr s \<and> public_open s \<and> tailnet_open s"
proof -
  have ddl: "run (run_ddl wrap ss) demo_world = (Some None, demo_world)" for wrap ss
    by (induction wrap ss rule: run_ddl.induct) (simp_all add: run_bind run_exec exec_world_def demo_world_def)
  then have "run (relay_open [] (relay_flags demo_relay_env)) demo_world = (Some None, demo_world)"
    by (simp add: relay_open_def demo_relay_env_def OpenSQLite_def SQLite_CreateSchema_def run_bind)
  then show ?thesis by (simp add: relay_main_def)
qed

abbreviation demo_schedule :: "relay_event list" where
  "demo_schedule \<equiv> [Public ''/health'' client_req demo_now demo_now, Call 0, Call 1, LimiterTick demo_now]"

theorem relay_invariant_witness:
  "\<exists>s. relay_main (\<lambda>_. False) [] demo_relay_env [Tick, Done] demo_world = Inr s
     \<and> unique_keys (wdb (rworld (relay_run demo_relay_env demo_schedule s)))
     \<and> approved_paired (wdb (rworld (relay_run demo_relay_env demo_schedule s)))"
proof -
  obtain s where s: "relay_main (\<lambda>_. False) [] demo_relay_env [Tick, Done] demo_world = Inr s" using demo_main by blast
  have "unique_keys (wdb demo_world)" using demo_healthy by (simp add: healthy_def)
  moreover have "approved_paired (wdb demo_world)" by (simp add: approved_paired_def demo_world_def empty_db_def)
  ultimately show ?thesis using relay_invariant [OF s] s by blast
qed

theorem public_cannot_decide_witness:
  "\<exists>s. relay_main (\<lambda>_. False) [] demo_relay_env [Tick, Done] demo_world = Inr s
     \<and> pairs (wdb (rworld (relay_run demo_relay_env demo_schedule s))) = [pair_to_row demo_pair]"
proof -
  obtain s where s: "relay_main (\<lambda>_. False) [] demo_relay_env [Tick, Done] demo_world = Inr s" using demo_main by blast
  have "list_all (\<lambda>e. \<not> from_tailnet e) demo_schedule" by simp
  from public_cannot_decide [OF s this] s show ?thesis by (simp add: demo_world_def)
qed

theorem every_request_answered_witness:
  "\<exists>s. relay_main (\<lambda>_. False) [] demo_relay_env [Tick, Done] demo_world = Inr s
     \<and> (\<exists>n resp. running (after demo_relay_env
           (\<lambda>n. if n = 0 then Public ''/health'' client_req demo_now demo_now else Call 1) s n) ! 1 = Ret (Answered resp))"
proof -
  let ?sched = "\<lambda>n :: nat. if n = 0 then Public ''/health'' client_req demo_now demo_now else Call 1"
  obtain s where s: "relay_main (\<lambda>_. False) [] demo_relay_env [Tick, Done] demo_world = Inr s" "public_open s"
    using demo_main by blast
  have len: "length (running s) = 1" using main_started [OF s(1)] by (simp add: started_def)
  have fair: "\<exists>m\<ge>n. ?sched m = Call (length (running s))" for n using len by (intro exI [of _ "Suc n"]) simp
  have "(\<exists>esc r t t'. ?sched 0 = Public esc r t t') \<and> public_open s \<or> (\<exists>esc r. ?sched 0 = Tailnet esc r) \<and> tailnet_open s"
    using s(2) by simp
  from every_request_answered [OF fair this, of demo_relay_env] s(1) len show ?thesis by auto
qed

theorem owner_secret_required_witness:
  "\<exists>resp. tailnetHandler demo_relay_env ''/pair/requests'' client_req = Ret resp
     \<and> resp = errorJSON 401 ''owner_auth_required''"
proof -
  have "ownerSecret (relay_flags demo_relay_env) \<noteq> []"
    "Get (hdr client_req) ''X-Owner-Secret'' \<noteq> ownerSecret (relay_flags demo_relay_env)"
    by (simp_all add: demo_relay_env_def client_req_def Get_def no_header_def)
  moreover have p: "cleanPath ''/pair/requests'' = ''/pair/requests''" "segments ''/pair/requests'' = [''pair'', ''requests'']"
    by code_simp+
  ultimately show ?thesis using owner_secret_required [of demo_relay_env client_req "''/pair/requests''"] by (simp add: p)
qed

end
