(* ===== verification/RelayMailDemo.thy ===== *)
theory RelayMailDemo
  imports RelayMail RelayDemo
begin

text \<open>
  The mail of the relay on a concrete run: the requester's PUT of the mailbox example
  arrives at the public listener and is answered 202, then the owner's GET is answered
  with the envelope.
\<close>

section \<open>A program alone\<close>

lemma call_in_place:
  "i < length (running s) \<Longrightarrow> relay_step env (Call i) (s\<lparr>running := (running s)[i := p], rworld := w\<rparr>)
     = s\<lparr>running := (running s)[i := fst (call (p, w))], rworld := snd (call (p, w))\<rparr>"
  by (simp add: split_beta)

lemma calls_in_place:
  assumes "i < length (running s)"
  shows "run p w = (Some a, w') \<Longrightarrow> \<exists>n. relay_run env (replicate n (Call i)) (s\<lparr>running := (running s)[i := p], rworld := w\<rparr>)
     = s\<lparr>running := (running s)[i := Ret a], rworld := w'\<rparr>"
proof (induction p arbitrary: w)
  case (Ret b)
  then show ?case by (intro exI [of _ 0]) simp
next
  case (Exec st k)
  have "run (fst (call (Exec st k, w))) (snd (call (Exec st k, w))) = (Some a, w')"
    using Exec.prems by (simp add: split_beta)
  then obtain n where "relay_run env (replicate n (Call i)) (s\<lparr>running := (running s)[i := fst (call (Exec st k, w))],
      rworld := snd (call (Exec st k, w))\<rparr>) = s\<lparr>running := (running s)[i := Ret a], rworld := w'\<rparr>"
    using Exec.IH [OF rangeI] by (auto simp: split_beta)
  then show ?case
    by (intro exI [of _ "Suc n"]) (simp only: replicate_Suc relay_run_Cons call_in_place [OF assms])
next
  case (Now k)
  have "run (fst (call (Now k, w))) (snd (call (Now k, w))) = (Some a, w')" using Now.prems by simp
  then obtain n where "relay_run env (replicate n (Call i)) (s\<lparr>running := (running s)[i := fst (call (Now k, w))],
      rworld := snd (call (Now k, w))\<rparr>) = s\<lparr>running := (running s)[i := Ret a], rworld := w'\<rparr>"
    using Now.IH [OF rangeI] by auto
  then show ?case
    by (intro exI [of _ "Suc n"]) (simp only: replicate_Suc relay_run_Cons call_in_place [OF assms])
next
  case (Rand k)
  have "run (fst (call (Rand k, w))) (snd (call (Rand k, w))) = (Some a, w')" using Rand.prems by simp
  then obtain n where "relay_run env (replicate n (Call i)) (s\<lparr>running := (running s)[i := fst (call (Rand k, w))],
      rworld := snd (call (Rand k, w))\<rparr>) = s\<lparr>running := (running s)[i := Ret a], rworld := w'\<rparr>"
    using Rand.IH [OF rangeI] by auto
  then show ?case
    by (intro exI [of _ "Suc n"]) (simp only: replicate_Suc relay_run_Cons call_in_place [OF assms])
qed simp

lemma calls_alone:
  assumes "i < length (running s)" "running s ! i = p" "run p (rworld s) = (Some a, w')"
  obtains n where "relay_run env (replicate n (Call i)) s = s\<lparr>running := (running s)[i := Ret a], rworld := w'\<rparr>"
proof -
  have "s\<lparr>running := (running s)[i := p], rworld := rworld s\<rparr> = s"
    using assms(1,2) by (intro relay.equality) (auto simp: list_update_same_conv)
  then show ?thesis using calls_in_place [OF assms(1,3), of env] that by metis
qed

lemma run_catch_Some: "run p w = (Some a, w') \<Longrightarrow> run (catch v p) w = (Some a, w')"
  by (induction p arbitrary: w) (auto simp: split_beta)

section \<open>The run\<close>

lemma demo_start:
  obtains s where "relay_main (\<lambda>_. False) [] demo_relay_env [Tick, Done] demo_world = Inr s"
    "limiters s = new_rateLimiter rateCfg" "public_open s" "length (running s) = 1" "rworld s = demo_world"
proof -
  have ddl: "run (run_ddl wrap ss) demo_world = (Some None, demo_world)" for wrap ss
    by (induction wrap ss rule: run_ddl.induct) (simp_all add: run_bind run_exec exec_world_def demo_world_def)
  then have "run (relay_open [] (relay_flags demo_relay_env)) demo_world = (Some None, demo_world)"
    by (simp add: relay_open_def demo_relay_env_def OpenSQLite_def SQLite_CreateSchema_def run_bind)
  then show ?thesis using that by (simp add: relay_main_def)
qed

abbreviation put_event :: relay_event where "put_event \<equiv> Public (path demo_put) demo_put demo_now demo_now"
abbreviation get_event :: relay_event where "get_event \<equiv> Public (path demo_get) demo_get demo_now demo_now"

lemma demo_segments:
  "cleanPath (''/mailbox/'' @ demo_path) = ''/mailbox/'' @ demo_path" "segments (''/mailbox/'' @ demo_path) = [''mailbox'', demo_path]"
  "TrimPrefix (''/mailbox/'' @ demo_path) ''/mailbox/'' = demo_path" "Split CHR ''/'' demo_path = [demo_path]"
  "pathIDRegex demo_path" "demo_path \<noteq> []" "demo_path \<noteq> ''/mailbox/'' @ demo_path"
  by code_simp+

lemma demo_routed:
  assumes "path r = ''/mailbox/'' @ demo_path" "meth r \<noteq> ''CONNECT''"
  shows "publicMux demo_relay_env (path r) r = dispatch SQLite (EdVerifier_Identify toy_ed) r"
proof -
  have best: "best_match (public_handlers demo_relay_env) (''mailbox'' # demo_path # ys)
      = Some ([''mailbox'', []], dispatch SQLite (EdVerifier_Identify toy_ed))" for ys
    by (simp add: best_match_def public_handlers_def pattern_matches_def preferred_def demo_relay_env_def)
  define up where "up = ''/mailbox/'' @ demo_path"
  have "cleanPath up = up" "segments up = [''mailbox'', demo_path]" "path r = up"
    using demo_segments(1,2) assms(1) by (simp_all only: up_def)
  then show ?thesis using assms(2)
    by (simp add: publicMux_def serve_mux_def mux_def Let_def best exact_match_def demo_segments(6))
qed

lemma demo_dispatch:
  "dispatch SQLite vf demo_put = put SQLite vf demo_put demo_path"
  "dispatch SQLite vf demo_get = get SQLite vf demo_get demo_path"
proof -
  define up where "up = ''/mailbox/'' @ demo_path"
  have p: "TrimPrefix up ''/mailbox/'' = demo_path" "(demo_path = up) = False"
    using demo_segments(3,7) by (simp_all only: up_def simp_thms)
  have "path demo_put = up" "meth demo_put = ''PUT''" "path demo_get = up" "meth demo_get = ''GET''"
    by (simp_all only: demo_put_def demo_get_def up_def request.simps)
  then show "dispatch SQLite vf demo_put = put SQLite vf demo_put demo_path"
    "dispatch SQLite vf demo_get = get SQLite vf demo_get demo_path"
    by (simp_all add: dispatch_def Let_def p demo_segments(4,5,6))
qed

lemma first_admitted:
  "ips_of (keyMap rl) k = [] \<Longrightarrow> 0 < MaxBucketsPerRule (rl_cfg rl) \<Longrightarrow> 1 \<le> Burst rule
     \<Longrightarrow> fst (allow token_bucket rl k ip rule t t')"
  by (simp add: allow_def token_bucket_def filled_def Let_def)

lemma allow_other:
  "k \<noteq> k' \<Longrightarrow> ips_of (keyMap (snd (allow lib rl k ip rule t t'))) k' = ips_of (keyMap rl) k'
     \<and> rl_cfg (snd (allow lib rl k ip rule t t')) = rl_cfg rl"
  by (auto simp: allow_def Let_def split_beta ips_of_def update_conv' split: option.splits)

lemma demo_rules:
  "\<exists>rule. matchRule (rl_defaults rateCfg) demo_put = (rule, ''PUT:/mailbox/'') \<and> 1 \<le> Burst rule"
  "\<exists>rule. matchRule (rl_defaults rateCfg) demo_get = (rule, ''GET:/mailbox/'') \<and> 1 \<le> Burst rule"
  by (simp_all add: matchRule_def rl_defaults_def rateCfg_def rule_matches_def rule_id_def demo_put_def demo_get_def HasPrefix_def)

lemma demo_admits:
  "fst (rl_admit token_bucket (new_rateLimiter rateCfg) demo_put demo_now demo_now)"
  "fst (rl_admit token_bucket (snd (rl_admit token_bucket (new_rateLimiter rateCfg) demo_put demo_now demo_now)) demo_get demo_now demo_now)"
proof -
  let ?rl = "new_rateLimiter rateCfg :: tokens rateLimiter"
  obtain u v where u: "matchRule (rl_defaults rateCfg) demo_put = (u, ''PUT:/mailbox/'')" "1 \<le> Burst u"
    and v: "matchRule (rl_defaults rateCfg) demo_get = (v, ''GET:/mailbox/'')" "1 \<le> Burst v"
    using demo_rules by blast
  have new: "rl_cfg ?rl = rl_defaults rateCfg" "ips_of (keyMap ?rl) k = []" "0 < MaxBucketsPerRule (rl_defaults rateCfg)" for k
    by (simp_all add: new_rateLimiter_def ips_of_def) (simp add: rl_defaults_def rateCfg_def)
  show "fst (rl_admit token_bucket ?rl demo_put demo_now demo_now)"
    using first_admitted [of ?rl] new u by (simp add: rl_admit_def)
  have "ips_of (keyMap (snd (rl_admit token_bucket ?rl demo_put demo_now demo_now))) ''GET:/mailbox/'' = []
    \<and> rl_cfg (snd (rl_admit token_bucket ?rl demo_put demo_now demo_now)) = rl_defaults rateCfg"
    using allow_other [of "''PUT:/mailbox/''" "''GET:/mailbox/''" token_bucket ?rl] u new by (simp add: rl_admit_def)
  then show "fst (rl_admit token_bucket (snd (rl_admit token_bucket ?rl demo_put demo_now demo_now)) demo_get demo_now demo_now)"
    using first_admitted [of "snd (rl_admit token_bucket ?rl demo_put demo_now demo_now)"] v new(3)
    by (simp add: rl_admit_def [of _ _ demo_get])
qed

text \<open>An admitted request whose handler runs alone.\<close>

lemma served_alone:
  assumes "public_open s" "rl_admit (rate env) (limiters s) r t t' = (True, rl)" "run (publicMux env esc r) (rworld s) = (Some resp, w')"
  obtains n where "relay_run env (Public esc r t t' # replicate n (Call (length (running s)))) s
      = s\<lparr>limiters := rl, running := running s @ [Ret (Answered resp)], rworld := w'\<rparr>"
proof -
  let ?p = "answering (Recover (publicMux env esc) r)" and ?s = "relay_step env (Public esc r t t') s"
  have s: "?s = s\<lparr>limiters := rl, running := running s @ [?p]\<rparr>"
    using assms(1,2) by (simp add: publicHandler_def RateLimit_def Recover_def Let_def)
  have run: "run ?p (rworld ?s) = (Some (Answered resp), w')"
    using run_catch_Some [OF assms(3)] by (simp add: s answering_def Recover_def run_bind del: relay_step.simps)
  have at: "length (running s) < length (running ?s)" "running ?s ! length (running s) = ?p"
    by (simp_all add: s del: relay_step.simps)
  obtain n where "relay_run env (replicate n (Call (length (running s)))) ?s
      = ?s\<lparr>running := (running ?s)[length (running s) := Ret (Answered resp)], rworld := w'\<rparr>"
    by (rule calls_alone [OF at run])
  then show ?thesis using that by (simp add: s del: relay_step.simps)
qed

text \<open>The run that stores the example's envelope and serves it.\<close>

abbreviation demo_ok :: response where "demo_ok \<equiv> writeJSON 202 (JObj [(''msg_id'', JStr (EnvMsgID demo_env))])"
abbreviation demo_item :: envelope where
  "demo_item \<equiv> put_envelope demo_put demo_path (canonicalJSON demo_env) demo_env AToB (truncSec demo_now)"

lemma demo_mail_run:
  obtains s n m where "relay_main (\<lambda>_. False) [] demo_relay_env [Tick, Done] demo_world = Inr s" "public_open s"
    "length (running s) = 1"
    "running (relay_run demo_relay_env (put_event # replicate n (Call 1)) s) ! 1 = Ret (Answered demo_ok)"
    "public_open (relay_run demo_relay_env (put_event # replicate n (Call 1)) s)"
    "length (running (relay_run demo_relay_env (put_event # replicate n (Call 1)) s)) = 2"
    "length (envelopes (db_of (relay_run demo_relay_env (put_event # replicate n (Call 1)) s))) = 1"
    "running (relay_run demo_relay_env ((put_event # replicate n (Call 1)) @ get_event # replicate m (Call 2)) s) ! 2
      = Ret (Answered (list_response [demo_item]))"
proof -
  obtain s where s: "relay_main (\<lambda>_. False) [] demo_relay_env [Tick, Done] demo_world = Inr s"
    "limiters s = new_rateLimiter rateCfg" "public_open s" "length (running s) = 1" "rworld s = demo_world"
    by (rule demo_start)
  obtain w1 where w1: "run (put SQLite (EdVerifier_Identify toy_ed) demo_put demo_path) demo_world = (Some demo_ok, w1)"
    "senvs (db_view w1) = [demo_item]" "find_pair (db_view w1) demo_path = Some demo_pair" "healthy w1" by (rule demo_put_run)
  obtain w2 where "run (get SQLite (EdVerifier_Identify toy_ed) demo_get demo_path) w1
      = (Some (list_response (take listLimit (inbox (db_view w1) demo_path AToB []))), w2)"
    using demo_get_run [OF w1(4,3)] .
  then have w2: "run (get SQLite (EdVerifier_Identify toy_ed) demo_get demo_path) w1 = (Some (list_response [demo_item]), w2)"
    by (simp add: demo_inbox [OF w1(2)] listLimit_def)
  have "path demo_put = ''/mailbox/'' @ demo_path" "meth demo_put \<noteq> ''CONNECT''"
    "path demo_get = ''/mailbox/'' @ demo_path" "meth demo_get \<noteq> ''CONNECT''" by (simp_all add: demo_put_def demo_get_def)
  note routed = demo_routed [OF this(1,2), unfolded demo_dispatch] demo_routed [OF this(3,4), unfolded demo_dispatch]
  have rate: "rate demo_relay_env = token_bucket" by (simp add: demo_relay_env_def)
  obtain rl1 where rl1: "rl_admit (rate demo_relay_env) (limiters s) demo_put demo_now demo_now = (True, rl1)"
    using demo_admits(1) unfolding s(2) rate by (metis prod.collapse)
  obtain rl2 where rl2: "rl_admit (rate demo_relay_env) rl1 demo_get demo_now demo_now = (True, rl2)"
    using demo_admits(2) rl1 unfolding s(2) rate by (metis prod.collapse snd_conv)
  obtain n where n: "relay_run demo_relay_env (put_event # replicate n (Call 1)) s
      = s\<lparr>limiters := rl1, running := running s @ [Ret (Answered demo_ok)], rworld := w1\<rparr>" (is "?s2 = _")
    using served_alone [OF s(3) rl1, of "path demo_put" demo_ok w1] w1(1) routed(1) s(4,5) by auto
  have s2: "public_open ?s2" "length (running ?s2) = 2" "rworld ?s2 = w1" "limiters ?s2 = rl1" "running ?s2 ! 1 = Ret (Answered demo_ok)"
    using s(3,4) unfolding n by (simp_all add: nth_append)
  obtain m where m: "relay_run demo_relay_env (get_event # replicate m (Call 2)) ?s2
      = ?s2\<lparr>limiters := rl2, running := running ?s2 @ [Ret (Answered (list_response [demo_item]))], rworld := w2\<rparr>"
    using served_alone [OF s2(1), of demo_relay_env demo_get demo_now demo_now rl2 "path demo_get" "list_response [demo_item]" w2]
      w2 routed(2) s2(2-4) rl2 by auto
  have "length (envelopes (db_of ?s2)) = 1"
    using arg_cong [OF w1(2), of length] s2(3) by (simp add: db_view_def del: relay_run_Cons)
  moreover have "running (relay_run demo_relay_env ((put_event # replicate n (Call 1)) @ get_event # replicate m (Call 2)) s) ! 2
      = Ret (Answered (list_response [demo_item]))"
    unfolding relay_run_append m using s2(2) by (simp add: nth_append del: relay_run_Cons)
  ultimately show ?thesis using that [OF s(1,3,4) s2(5,1,2)] by blast
qed

section \<open>The witnesses\<close>

theorem accepted_put_durable_witness:
  "\<exists>s n p e. relay_main (\<lambda>_. False) [] demo_relay_env [Tick, Done] demo_world = Inr s
     \<and> p \<in> set (pairs (db_of (relay_run demo_relay_env (put_event # replicate n (Call 1)) s))) \<and> sent_by toy_ed demo_put p e"
proof -
  obtain s n where s: "relay_main (\<lambda>_. False) [] demo_relay_env [Tick, Done] demo_world = Inr s" "public_open s"
    "length (running s) = 1" "running (relay_run demo_relay_env (put_event # replicate n (Call 1)) s) ! 1 = Ret (Answered demo_ok)"
    by (rule demo_mail_run)
  have start: "public_open (relay_run demo_relay_env [] s)"
    "running (relay_run demo_relay_env (put_event # replicate n (Call 1)) s) ! length (running (relay_run demo_relay_env [] s)) = Ret (Answered demo_ok)"
    using s(2-4) by (simp_all only: relay_run_Nil)
  have es: "put_event # replicate n (Call 1) = [] @ put_event # replicate n (Call 1)" and ok: "status demo_ok = 202" by simp_all
  note accepted_put_durable [OF s(1) es start ok]
  moreover have "edv demo_relay_env = toy_ed" by (simp add: demo_relay_env_def)
  ultimately show ?thesis using s(1) by metis
qed

theorem served_page_private_witness:
  "\<exists>s n m p k (rows :: env_row list). relay_main (\<lambda>_. False) [] demo_relay_env [Tick, Done] demo_world = Inr s
     \<and> p \<in> set (pairs (db_of (relay_run demo_relay_env ((put_event # replicate n (Call 1)) @ get_event # replicate m (Call 2)) s)))
     \<and> k \<in> half_keys p \<and> map e_outer_json rows = [canonicalJSON demo_env]
     \<and> signed_by toy_ed k (Get (hdr demo_get) ''X-Nexus-Signature'') (signedPath demo_get)"
proof -
  obtain s n m where s: "relay_main (\<lambda>_. False) [] demo_relay_env [Tick, Done] demo_world = Inr s"
    "public_open (relay_run demo_relay_env (put_event # replicate n (Call 1)) s)"
    "length (running (relay_run demo_relay_env (put_event # replicate n (Call 1)) s)) = 2"
    "running (relay_run demo_relay_env ((put_event # replicate n (Call 1)) @ get_event # replicate m (Call 2)) s) ! 2
      = Ret (Answered (list_response [demo_item]))"
    by (rule demo_mail_run)
  define es1 where "es1 = put_event # replicate n (Call 1)"
  note run = s(2-4) [folded es1_def]
  have at: "running (relay_run demo_relay_env (es1 @ get_event # replicate m (Call 2)) s) ! length (running (relay_run demo_relay_env es1 s))
      = Ret (Answered (list_response [demo_item]))" using run(2,3) by (simp only:)
  obtain p k and rows :: "env_row list" where p: "p \<in> set (pairs (db_of (relay_run demo_relay_env (es1 @ get_event # replicate m (Call 2)) s)))" "k \<in> half_keys p"
    "signed_by (edv demo_relay_env) k (Get (hdr demo_get) ''X-Nexus-Signature'') (signedPath demo_get)"
    "map OuterJSON [demo_item] = map e_outer_json rows"
    using served_page_private [OF s(1) refl run(1) at] by blast
  have "map e_outer_json rows = [canonicalJSON demo_env]" using p(4) by (simp add: put_envelope_def)
  moreover have "edv demo_relay_env = toy_ed" by (simp add: demo_relay_env_def)
  ultimately have "signed_by toy_ed k (Get (hdr demo_get) ''X-Nexus-Signature'') (signedPath demo_get)"
    "map e_outer_json rows = [canonicalJSON demo_env]" using p(3) by simp_all
  then show ?thesis using p(1,2) s(1) unfolding es1_def by (intro exI conjI)
qed

text \<open>The stored row is in the table after the PUT, and was not there at the start.\<close>

lemma demo_stored:
  obtains s n e where "relay_main (\<lambda>_. False) [] demo_relay_env [Tick, Done] demo_world = Inr s"
    "e \<in> mail (db_of (relay_run demo_relay_env (put_event # replicate n (Call 1)) s))" "e \<notin> mail (wdb demo_world)"
proof -
  obtain s n where s: "relay_main (\<lambda>_. False) [] demo_relay_env [Tick, Done] demo_world = Inr s"
    "length (envelopes (db_of (relay_run demo_relay_env (put_event # replicate n (Call 1)) s))) = 1" by (rule demo_mail_run)
  then obtain e where "e \<in> mail (db_of (relay_run demo_relay_env (put_event # replicate n (Call 1)) s))"
    by (cases "envelopes (db_of (relay_run demo_relay_env (put_event # replicate n (Call 1)) s))") (auto simp: mail_def)
  moreover have "e \<notin> mail (wdb demo_world)" by (simp add: mail_def demo_world_def empty_db_def)
  ultimately show ?thesis using that s(1) by blast
qed

theorem mail_authentic_witness:
  "\<exists>s n p e. relay_main (\<lambda>_. False) [] demo_relay_env [Tick, Done] demo_world = Inr s
     \<and> e \<in> mail (db_of (relay_run demo_relay_env (put_event # replicate n (Call 1)) s)) \<and> sent_by toy_ed demo_put p e"
proof -
  obtain s n e where s: "relay_main (\<lambda>_. False) [] demo_relay_env [Tick, Done] demo_world = Inr s"
    "e \<in> mail (db_of (relay_run demo_relay_env (put_event # replicate n (Call 1)) s))" "e \<notin> mail (wdb demo_world)" by (rule demo_stored)
  have "public_requests (put_event # replicate n (Call 1)) = {demo_put}" by (auto simp: public_requests_def)
  then have "\<exists>p. sent_by (edv demo_relay_env) demo_put p e" using mail_authentic [OF s] by auto
  moreover have "edv demo_relay_env = toy_ed" by (simp add: demo_relay_env_def)
  ultimately show ?thesis using s(1,2) by metis
qed

theorem mail_kept_witness:
  "\<exists>s n e. relay_main (\<lambda>_. False) [] demo_relay_env [Tick, Done] demo_world = Inr s
     \<and> e \<in> mail (db_of (relay_run demo_relay_env (put_event # replicate n (Call 1)) s))
     \<and> (e \<in> mail (db_of (relay_run demo_relay_env ((put_event # replicate n (Call 1)) @ [get_event, Call 2]) s))
        \<or> let_go demo_relay_env s (clock demo_world) ((put_event # replicate n (Call 1)) @ [get_event, Call 2]) e)"
proof -
  obtain s n e where s: "relay_main (\<lambda>_. False) [] demo_relay_env [Tick, Done] demo_world = Inr s"
    "e \<in> mail (db_of (relay_run demo_relay_env (put_event # replicate n (Call 1)) s))" by (rule demo_stored)
  from mail_kept [OF s, of "[get_event, Call 2]"] s show ?thesis by blast
qed

end
