(* ===== verification/RelayDeliveryDemo.thy ===== *)
theory RelayDeliveryDemo
  imports RelayDelivery RelayMailDemo
begin

text \<open>The concrete run of \<open>RelayMailDemo\<close>: the owner's GET shows what the requester has put.\<close>

lemma demo_delivery:
  obtains s mid n m where "relay_main (\<lambda>_. False) [] demo_relay_env [Tick, Done] demo_world = Inr s"
    "mid = [] @ put_event # replicate n (Call 1)" "public_open (relay_run demo_relay_env [] s)"
    "running (relay_run demo_relay_env mid s) ! length (running (relay_run demo_relay_env [] s)) = Ret (Answered demo_ok)"
    "public_open (relay_run demo_relay_env mid s)"
    "running (relay_run demo_relay_env (mid @ get_event # replicate m (Call 2)) s) ! length (running (relay_run demo_relay_env mid s))
      = Ret (Answered (list_response [demo_item]))"
proof -
  obtain s n m where s: "relay_main (\<lambda>_. False) [] demo_relay_env [Tick, Done] demo_world = Inr s" "public_open s"
    "length (running s) = 1"
    "running (relay_run demo_relay_env (put_event # replicate n (Call 1)) s) ! 1 = Ret (Answered demo_ok)"
    "public_open (relay_run demo_relay_env (put_event # replicate n (Call 1)) s)"
    "length (running (relay_run demo_relay_env (put_event # replicate n (Call 1)) s)) = 2"
    "running (relay_run demo_relay_env ((put_event # replicate n (Call 1)) @ get_event # replicate m (Call 2)) s) ! 2
      = Ret (Answered (list_response [demo_item]))"
    by (rule demo_mail_run)
  define mid where "mid = put_event # replicate n (Call 1)"
  note run = s(4-7) [folded mid_def]
  show ?thesis
  proof (rule that [OF s(1)])
    show "mid = [] @ put_event # replicate n (Call 1)" by (simp add: mid_def)
    show "public_open (relay_run demo_relay_env [] s)" using s(2) by (simp only: relay_run_Nil)
    show "running (relay_run demo_relay_env mid s) ! length (running (relay_run demo_relay_env [] s)) = Ret (Answered demo_ok)"
      using run(1) s(3) by (simp only: relay_run_Nil)
    show "public_open (relay_run demo_relay_env mid s)" by (rule run(2))
    show "running (relay_run demo_relay_env (mid @ get_event # replicate m (Call 2)) s) ! length (running (relay_run demo_relay_env mid s))
        = Ret (Answered (list_response [demo_item]))" using run(3,4) by (simp only:)
  qed
qed

theorem page_is_snapshot_witness:
  "\<exists>s es1 es3 d p k. relay_main (\<lambda>_. False) [] demo_relay_env [Tick, Done] demo_world = Inr s
     \<and> d = db_of (relay_run demo_relay_env (es1 @ get_event # es3) s) \<and> k \<in> half_keys p
     \<and> [canonicalJSON demo_env] = map e_outer_json (page_rows (p_path_id p) (half_inbox p k) (QueryGet demo_get ''since'') d)"
proof -
  obtain s mid n m where s: "relay_main (\<lambda>_. False) [] demo_relay_env [Tick, Done] demo_world = Inr s"
    "public_open (relay_run demo_relay_env mid s)"
    "running (relay_run demo_relay_env (mid @ get_event # replicate m (Call 2)) s) ! length (running (relay_run demo_relay_env mid s))
      = Ret (Answered (list_response [demo_item]))"
    by (rule demo_delivery)
  have "map OuterJSON [demo_item] = [canonicalJSON demo_env]" by (simp add: put_envelope_def)
  then show ?thesis using page_is_snapshot [OF refl s(2,3)] s(1) by metis
qed

lemma demo_wrong_key: "\<not> signed_by toy_ed key_A sig_B m" "\<not> signed_by toy_ed key_B sig_A m"
proof -
  have "\<not> toy_ed (concat (replicate 10 [4, 16, 65]) @ [4, 16]) b (replicate 64 0)" for b unfolding toy_ed_def by code_simp
  then show "\<not> signed_by toy_ed key_A sig_B m" "\<not> signed_by toy_ed key_B sig_A m"
    by (simp_all add: signed_by_def demo_decode demo_toy del: concat.simps replicate.simps concat_append replicate_Suc)
qed

abbreviation demo_row :: pair_row where "demo_row \<equiv> pair_to_row demo_pair"

lemma demo_row: "p_path_id demo_row = demo_path" "half_keys demo_row = {key_A, key_B}" "p_requester_pubkey demo_row = key_A"
  by (simp_all add: pair_to_row_def demo_pair_def half_keys_def)

lemma demo_sent:
  assumes "sent_by toy_ed demo_put p e"
  shows "p_path_id p = demo_path" "e_outer_json e = canonicalJSON demo_env" "e_msg_id e = EnvMsgID demo_env"
    "p = demo_row \<Longrightarrow> e_direction e = AToB"
proof -
  have parse: "readLimited putLimit demo_put = Some (canonicalJSON demo_env)" "unmarshalEnvelope (canonicalJSON demo_env) = Some demo_env"
    using put_parse_Inr [OF demo_parse] by simp_all
  obtain k env where k: "k \<in> half_keys p" "unmarshalEnvelope (e_outer_json e) = Some env" "readLimited putLimit demo_put = Some (e_outer_json e)"
    "signed_by toy_ed k sig_A (canonicalJSON env)" "EnvPathID env = p_path_id p" "e_msg_id e = EnvMsgID env"
    "e_direction e = (if k = p_requester_pubkey p then AToB else BToA)"
    using assms demo_header [of sig_A] by (auto simp: sent_by_def demo_put_def [THEN arg_cong [where f = hdr]])
  show out: "e_outer_json e = canonicalJSON demo_env" using k(3) parse(1) by simp
  then have env: "env = demo_env" using k(2) parse(2) by simp
  show "p_path_id p = demo_path" using k(5) by (simp add: env demo_env_def)
  show "e_msg_id e = EnvMsgID demo_env" using k(6) by (simp add: env)
  show "e_direction e = AToB" if "p = demo_row"
    using k(1,4,7) demo_wrong_key(2) demo_row(2,3) unfolding that by auto
qed

theorem mail_delivered_witness:
  "\<exists>s es e. relay_main (\<lambda>_. False) [] demo_relay_env [Tick, Done] demo_world = Inr s \<and> sent_by toy_ed demo_put demo_row e
     \<and> (e_outer_json e \<in> OuterJSON ` set [demo_item] \<or> let_go demo_relay_env s (clock demo_world) es e)"
proof -
  obtain s mid n m where s: "relay_main (\<lambda>_. False) [] demo_relay_env [Tick, Done] demo_world = Inr s"
    "mid = [] @ put_event # replicate n (Call 1)" "public_open (relay_run demo_relay_env [] s)"
    "running (relay_run demo_relay_env mid s) ! length (running (relay_run demo_relay_env [] s)) = Ret (Answered demo_ok)"
    "public_open (relay_run demo_relay_env mid s)"
    "running (relay_run demo_relay_env (mid @ get_event # replicate m (Call 2)) s) ! length (running (relay_run demo_relay_env mid s))
      = Ret (Answered (list_response [demo_item]))"
    by (rule demo_delivery)
  define es where "es = mid @ get_event # replicate m (Call 2)"
  have u: "unique_keys (wdb demo_world)" by (simp add: unique_keys_def demo_world_def empty_db_def)
  have ok: "status demo_ok = 202" "length [demo_item] < listLimit" by (simp_all add: listLimit_def)
  have ed: "edv demo_relay_env = toy_ed" by (simp add: demo_relay_env_def)
  have get: "path demo_get = ''/mailbox/'' @ demo_path" "Get (hdr demo_get) ''X-Nexus-Signature'' = sig_B"
    by (simp_all add: demo_get_def demo_header)
  obtain p e where pe: "p \<in> set (pairs (db_of (relay_run demo_relay_env es s)))" "sent_by toy_ed demo_put p e"
    "path demo_get = ''/mailbox/'' @ p_path_id p \<longrightarrow> (\<exists>k \<in> half_keys p.
       signed_by toy_ed k (Get (hdr demo_get) ''X-Nexus-Signature'') (signedPath demo_get)
       \<and> (e_direction e = half_inbox p k \<and> QueryGet demo_get ''since'' < e_msg_id e \<longrightarrow>
          e_outer_json e \<in> OuterJSON ` set [demo_item] \<or> let_go demo_relay_env s (clock demo_world) es e))"
    using mail_delivered [OF s(1) u s(2) refl s(3,5,4) ok(1) s(6) ok(2)] unfolding ed es_def by blast
  have "demo_row \<in> set (pairs (db_of (relay_run demo_relay_env es s)))"
    using relay_run_world(1) [of s demo_relay_env es] main_db [OF s(1)] by (auto simp: demo_world_def)
  from run_unique_paths [OF s(1) u pe(1) this] have p: "p = demo_row" using demo_sent(1) [OF pe(2)] demo_row(1) by simp
  obtain k where k: "k \<in> half_keys demo_row" "signed_by toy_ed k sig_B (signedPath demo_get)"
    "e_direction e = half_inbox demo_row k \<and> QueryGet demo_get ''since'' < e_msg_id e \<longrightarrow>
       e_outer_json e \<in> OuterJSON ` set [demo_item] \<or> let_go demo_relay_env s (clock demo_world) es e"
    using pe(3) unfolding p demo_row(1) get by blast
  have "k = key_B" using k(1,2) demo_wrong_key(1) demo_row(2) by auto
  moreover have "key_B \<noteq> key_A" by code_simp
  ultimately have "e_direction e = half_inbox demo_row k" using demo_sent(4) [OF pe(2) p] by (simp add: half_inbox_def demo_row(3))
  moreover have "QueryGet demo_get ''since'' < e_msg_id e" using demo_sent(3) [OF pe(2)] by (simp add: demo_since demo_env_def)
  ultimately show ?thesis using k(3) s(1) pe(2) p by blast
qed

end
