(* ===== verification/P256.thy ===== *)
theory P256
  imports Prelude
begin

text \<open>
  The curve P-256 as \<open>crypto/ecdh\<close> offers it: private keys from scalars, public keys in
  the uncompressed encoding, and the shared secret, which is an x-coordinate.
\<close>

section \<open>The curve\<close>

definition p256_p :: int where "p256_p = 2 ^ 256 - 2 ^ 224 + 2 ^ 192 + 2 ^ 96 - 1"

definition p256_n :: int where
  "p256_n = 0xFFFFFFFF00000000FFFFFFFFFFFFFFFFBCE6FAADA7179E84F3B9CAC2FC632551"

definition p256_b :: int where
  "p256_b = 0x5AC635D8AA3A93E7B3EBBD55769886BC651D06B0CC53B0F63BCE3C3E27D2604B"

datatype point = Infinity | Affine int int

definition p256_G :: point where
  "p256_G = Affine 0x6B17D1F2E12C4247F8BCE6E563A440F277037D812DEB33A0F4A13945D898C296
     0x4FE342E2FE1A7F9B8EE7EB4A7C0F9E162BCE33576B315ECECBB6406837BF51F5"

definition on_curve :: "point \<Rightarrow> bool" where
  "on_curve Q = (case Q of Infinity \<Rightarrow> True
     | Affine x y \<Rightarrow> 0 \<le> x \<and> x < p256_p \<and> 0 \<le> y \<and> y < p256_p
         \<and> (y * y) mod p256_p = (x * x * x - 3 * x + p256_b) mod p256_p)"

text \<open>Powers modulo the prime; the inverse of \<open>a\<close> is its power \<open>p - 2\<close>.\<close>

fun pow_mod :: "int \<Rightarrow> nat \<Rightarrow> int" where
  "pow_mod a n = (if n = 0 then 1
     else let h = pow_mod ((a * a) mod p256_p) (n div 2) in if odd n then (a * h) mod p256_p else h)"

declare pow_mod.simps [simp del]

definition inv_mod :: "int \<Rightarrow> int" where
  "inv_mod a = pow_mod (a mod p256_p) (nat (p256_p - 2))"

definition chord :: "int \<Rightarrow> int \<Rightarrow> int \<Rightarrow> int \<Rightarrow> point" where
  "chord l x1 y1 x2 = (let x3 = (l * l - x1 - x2) mod p256_p in Affine x3 ((l * (x1 - x3) - y1) mod p256_p))"

fun padd :: "point \<Rightarrow> point \<Rightarrow> point" where
  "padd Infinity Q = Q"
| "padd Q Infinity = Q"
| "padd (Affine x1 y1) (Affine x2 y2) =
     (if x1 = x2 then
        if (y1 + y2) mod p256_p = 0 then Infinity
        else chord ((3 * x1 * x1 - 3) * inv_mod (2 * y1)) x1 y1 x2
      else chord ((y2 - y1) * inv_mod (x2 - x1)) x1 y1 x2)"

fun pmul :: "nat \<Rightarrow> point \<Rightarrow> point" where
  "pmul n Q = (if n = 0 then Infinity
     else let R = pmul (n div 2) (padd Q Q) in if odd n then padd Q R else R)"

declare pmul.simps [simp del]

section \<open>Keys\<close>

definition int_of_bytes :: "bytes \<Rightarrow> int" where
  "int_of_bytes bs = foldl (\<lambda>n b. 256 * n + uint b) 0 bs"

definition coordinate :: "int \<Rightarrow> bytes" where
  "coordinate x = map (\<lambda>i. word_of_int (x div 256 ^ (31 - i))) [0..<32]"

text \<open>\<open>NewPrivateKey\<close>: 32 bytes, not zero and below the order.\<close>

type_synonym ecdh_key = nat

definition NewPrivateKey :: "bytes \<Rightarrow> ecdh_key option" where
  "NewPrivateKey k =
     (let d = int_of_bytes k in if length k = 32 \<and> 0 < d \<and> d < p256_n then Some (nat d) else None)"

definition PublicPoint :: "ecdh_key \<Rightarrow> point" where
  "PublicPoint d = pmul d p256_G"

definition PublicBytes :: "point \<Rightarrow> bytes" where
  "PublicBytes Q = (case Q of Infinity \<Rightarrow> [0] | Affine x y \<Rightarrow> 4 # coordinate x @ coordinate y)"

text \<open>The shared secret, or None for the error on the point at infinity.\<close>

definition ECDH :: "ecdh_key \<Rightarrow> point \<Rightarrow> bytes option" where
  "ECDH d Q = (case pmul d Q of Infinity \<Rightarrow> None | Affine x _ \<Rightarrow> Some (coordinate x))"

section \<open>Small multiples\<close>

lemma padd_Infinity [simp]: "padd Q Infinity = Q"
  by (cases Q) simp_all

lemma pmul_0 [simp]: "pmul 0 Q = Infinity"
  by (simp add: pmul.simps)

lemma pmul_1 [simp]: "pmul (Suc 0) Q = Q"
  by (simp add: pmul.simps [of "Suc 0"])

lemma pmul_2 [simp]: "pmul 2 Q = padd Q Q"
  by (simp add: pmul.simps [of 2])

lemma length_coordinate [simp]: "length (coordinate x) = 32"
  by (simp add: coordinate_def)

lemma p256_p_eq: "p256_p = 0xFFFFFFFF00000001000000000000000000000000FFFFFFFFFFFFFFFFFFFFFFFF"
  by (simp add: p256_p_def)

text \<open>The tangent at the generator is not vertical, so its double is a finite point.\<close>

lemma double_G: "\<exists>x y. padd p256_G p256_G = Affine x y"
proof -
  obtain gx gy where G: "p256_G = Affine gx gy" "0 < gy" "gy + gy < p256_p"
    by (rule that [OF p256_G_def]) (simp_all add: p256_p_eq)
  then have "(gy + gy) mod p256_p \<noteq> 0" by simp
  then show ?thesis by (simp add: G chord_def Let_def)
qed

end
