(* ===== verification/AesGcm.thy ===== *)
theory AesGcm
  imports Sha256
begin

text \<open>
  AES (package \<open>crypto/aes\<close>, FIPS 197) and the Galois counter mode (package
  \<open>crypto/cipher\<close>, NIST SP 800-38D) with a 12-byte nonce and a 16-byte tag, executable on
  byte slices, and the round trip of \<open>Seal\<close> and \<open>Open\<close> for every block cipher.
\<close>

section \<open>AES\<close>

definition aes_sbox :: "byte list" where
  "aes_sbox =
    [99, 124, 119, 123, 242, 107, 111, 197, 48, 1, 103, 43, 254, 215, 171, 118,
     202, 130, 201, 125, 250, 89, 71, 240, 173, 212, 162, 175, 156, 164, 114, 192,
     183, 253, 147, 38, 54, 63, 247, 204, 52, 165, 229, 241, 113, 216, 49, 21,
     4, 199, 35, 195, 24, 150, 5, 154, 7, 18, 128, 226, 235, 39, 178, 117,
     9, 131, 44, 26, 27, 110, 90, 160, 82, 59, 214, 179, 41, 227, 47, 132,
     83, 209, 0, 237, 32, 252, 177, 91, 106, 203, 190, 57, 74, 76, 88, 207,
     208, 239, 170, 251, 67, 77, 51, 133, 69, 249, 2, 127, 80, 60, 159, 168,
     81, 163, 64, 143, 146, 157, 56, 245, 188, 182, 218, 33, 16, 255, 243, 210,
     205, 12, 19, 236, 95, 151, 68, 23, 196, 167, 126, 61, 100, 93, 25, 115,
     96, 129, 79, 220, 34, 42, 144, 136, 70, 238, 184, 20, 222, 94, 11, 219,
     224, 50, 58, 10, 73, 6, 36, 92, 194, 211, 172, 98, 145, 149, 228, 121,
     231, 200, 55, 109, 141, 213, 78, 169, 108, 86, 244, 234, 101, 122, 174, 8,
     186, 120, 37, 46, 28, 166, 180, 198, 232, 221, 116, 31, 75, 189, 139, 138,
     112, 62, 181, 102, 72, 3, 246, 14, 97, 53, 87, 185, 134, 193, 29, 158,
     225, 248, 152, 17, 105, 217, 142, 148, 155, 30, 135, 233, 206, 85, 40, 223,
     140, 161, 137, 13, 191, 230, 66, 104, 65, 153, 45, 15, 176, 84, 187, 22]"

definition sub_byte :: "byte \<Rightarrow> byte" where
  "sub_byte b = aes_sbox ! unat b"

definition xor_bytes :: "bytes \<Rightarrow> bytes \<Rightarrow> bytes" where
  "xor_bytes = map2 (XOR)"

text \<open>Multiplication by \<open>x\<close> in the field of 256 elements.\<close>

definition xtime :: "byte \<Rightarrow> byte" where
  "xtime b = push_bit 1 b XOR (if bit b 7 then 0x1B else 0)"

text \<open>The key schedule: a reversed list of four-byte words, extended one by one; \<open>nk\<close> words are the key.\<close>

definition next_word :: "nat \<Rightarrow> byte \<Rightarrow> bytes list \<Rightarrow> bytes" where
  "next_word nk rcon ws =
     (let i = length ws; prev = hd ws;
          t = (if i mod nk = 0
               then (case map sub_byte (rotate1 prev) of [] \<Rightarrow> [] | b # bs \<Rightarrow> (b XOR rcon) # bs)
               else if nk > 6 \<and> i mod nk = 4 then map sub_byte prev
               else prev)
      in xor_bytes (ws ! (nk - 1)) t)"

fun expand_words :: "nat \<Rightarrow> nat \<Rightarrow> byte \<Rightarrow> bytes list \<Rightarrow> bytes list" where
  "expand_words nk 0 rcon ws = rev ws"
| "expand_words nk (Suc n) rcon ws =
     expand_words nk n (if length ws mod nk = 0 then xtime rcon else rcon) (next_word nk rcon ws # ws)"

fun chunks :: "nat \<Rightarrow> nat \<Rightarrow> 'a list \<Rightarrow> 'a list list" where
  "chunks k 0 xs = []"
| "chunks k (Suc n) xs = take k xs # chunks k n (drop k xs)"

definition aes_rounds :: "bytes \<Rightarrow> nat" where
  "aes_rounds key = length key div 4 + 6"

definition round_keys :: "bytes \<Rightarrow> bytes list" where
  "round_keys key =
     (let nk = length key div 4; nr = aes_rounds key
      in map concat (chunks 4 (nr + 1) (expand_words nk (4 * (nr + 1) - nk) 1 (rev (chunks 4 nk key)))))"

text \<open>The state is the block, column after column.\<close>

definition shift_rows :: "bytes \<Rightarrow> bytes" where
  "shift_rows s = map (\<lambda>i. s ! ((i + 4 * (i mod 4)) mod 16)) [0..<16]"

definition mix_column :: "bytes \<Rightarrow> bytes" where
  "mix_column c =
     (case c of
        [a, b, c, d] \<Rightarrow>
          [xtime a XOR xtime b XOR b XOR c XOR d, a XOR xtime b XOR xtime c XOR c XOR d,
           a XOR b XOR xtime c XOR xtime d XOR d, xtime a XOR a XOR b XOR c XOR xtime d]
      | _ \<Rightarrow> c)"

definition mix_columns :: "bytes \<Rightarrow> bytes" where
  "mix_columns s = concat (map mix_column (chunks 4 4 s))"

fun aes_steps :: "bytes \<Rightarrow> bytes list \<Rightarrow> bytes" where
  "aes_steps s [] = s"
| "aes_steps s [k] = xor_bytes (shift_rows (map sub_byte s)) k"
| "aes_steps s (k # ks) = aes_steps (xor_bytes (mix_columns (shift_rows (map sub_byte s))) k) ks"

definition aes_encrypt :: "bytes \<Rightarrow> bytes \<Rightarrow> bytes" where
  "aes_encrypt key block = (let ks = round_keys key in aes_steps (xor_bytes block (hd ks)) (tl ks))"

text \<open>\<open>aes.NewCipher\<close> accepts keys of three sizes; the cipher is its encryption of a block.\<close>

type_synonym block_cipher = "bytes \<Rightarrow> bytes"

definition aes_NewCipher :: "bytes \<Rightarrow> block_cipher option" where
  "aes_NewCipher key = (if length key \<in> {16, 24, 32} then Some (aes_encrypt key) else None)"

section \<open>GCM\<close>

text \<open>A block as a 128-bit word, most significant byte first.\<close>

definition word_of_block :: "bytes \<Rightarrow> 128 word" where
  "word_of_block b = foldl (\<lambda>w x. push_bit 8 w OR ucast x) 0 b"

definition block_of_word :: "128 word \<Rightarrow> bytes" where
  "block_of_word w = map (\<lambda>i. ucast (drop_bit (8 * (15 - i)) w)) [0..<16]"

text \<open>The product in the field of \<open>2^128\<close> elements; bit 127 is the constant coefficient.\<close>

fun gf_mult :: "nat \<Rightarrow> 128 word \<Rightarrow> 128 word \<Rightarrow> 128 word \<Rightarrow> 128 word" where
  "gf_mult 0 x v z = z"
| "gf_mult (Suc n) x v z =
     gf_mult n x (if bit v 0 then drop_bit 1 v XOR push_bit 120 0xE1 else drop_bit 1 v) (if bit x n then z XOR v else z)"

definition pad16 :: "bytes \<Rightarrow> bytes" where
  "pad16 b = b @ replicate ((16 - length b mod 16) mod 16) 0"

definition blocks16 :: "bytes \<Rightarrow> bytes list" where
  "blocks16 b = chunks 16 ((length b + 15) div 16) b"

definition ghash :: "128 word \<Rightarrow> bytes \<Rightarrow> 128 word" where
  "ghash h b = foldl (\<lambda>y blk. gf_mult 128 (y XOR word_of_block blk) h 0) 0 (blocks16 b)"

definition be_length :: "nat \<Rightarrow> bytes" where
  "be_length n = map (\<lambda>i. ucast (drop_bit (8 * (7 - i)) (of_nat (8 * n) :: 64 word))) [0..<8]"

text \<open>The counter block of a 12-byte nonce; the counter is the last four bytes and wraps.\<close>

definition counter_block :: "bytes \<Rightarrow> u32 \<Rightarrow> bytes" where
  "counter_block nonce c = nonce @ be_bytes c"

fun ctr_blocks :: "block_cipher \<Rightarrow> bytes \<Rightarrow> u32 \<Rightarrow> nat \<Rightarrow> bytes" where
  "ctr_blocks E nonce c 0 = []"
| "ctr_blocks E nonce c (Suc n) = E (counter_block nonce c) @ ctr_blocks E nonce (c + 1) n"

definition ctr_crypt :: "block_cipher \<Rightarrow> bytes \<Rightarrow> bytes \<Rightarrow> bytes" where
  "ctr_crypt E nonce m = xor_bytes m (ctr_blocks E nonce 2 ((length m + 15) div 16))"

definition gcm_tag :: "block_cipher \<Rightarrow> bytes \<Rightarrow> bytes \<Rightarrow> bytes \<Rightarrow> bytes" where
  "gcm_tag E nonce ct aad =
     (let h = word_of_block (E (replicate 16 0));
          s = ghash h (pad16 aad @ pad16 ct @ be_length (length aad) @ be_length (length ct))
      in xor_bytes (block_of_word s) (E (counter_block nonce 1)))"

text \<open>
  \<open>Seal\<close> panics (None) on a nonce that does not have 12 bytes; \<open>Open\<close> returns an error on
  one with a wrong tag.  The length limit of a message, \<open>2^36\<close> bytes, is left out.
\<close>

definition gcm_Seal :: "block_cipher \<Rightarrow> bytes \<Rightarrow> bytes \<Rightarrow> bytes \<Rightarrow> bytes option" where
  "gcm_Seal E nonce plaintext aad =
     (if length nonce \<noteq> 12 then None
      else let ct = ctr_crypt E nonce plaintext in Some (ct @ gcm_tag E nonce ct aad))"

definition gcm_Open :: "block_cipher \<Rightarrow> bytes \<Rightarrow> bytes \<Rightarrow> bytes \<Rightarrow> bytes option" where
  "gcm_Open E nonce sealed aad =
     (if length nonce \<noteq> 12 \<or> length sealed < 16 then None
      else let n = length sealed - 16; ct = take n sealed
           in if drop n sealed = gcm_tag E nonce ct aad then Some (ctr_crypt E nonce ct) else None)"

section \<open>The round trip\<close>

lemma length_xor_bytes [simp]: "length (xor_bytes a b) = min (length a) (length b)"
  by (simp add: xor_bytes_def)

lemma xor_bytes_twice: "length a \<le> length b \<Longrightarrow> xor_bytes (xor_bytes a b) b = a"
proof (induction a arbitrary: b)
  case (Cons x a)
  then show ?case by (cases b) (simp_all add: xor_bytes_def xor.assoc)
qed (simp add: xor_bytes_def)

definition block_sized :: "block_cipher \<Rightarrow> bool" where
  "block_sized E \<longleftrightarrow> (\<forall>b. length b = 16 \<longrightarrow> length (E b) = 16)"

lemma length_counter_block: "length nonce = 12 \<Longrightarrow> length (counter_block nonce c) = 16"
  by (simp add: counter_block_def)

lemma length_ctr_blocks: "block_sized E \<Longrightarrow> length nonce = 12 \<Longrightarrow> length (ctr_blocks E nonce c n) = 16 * n"
  by (induction n arbitrary: c) (simp_all add: block_sized_def length_counter_block)

lemma ctr_crypt_twice:
  assumes "block_sized E" "length nonce = 12"
  shows "length (ctr_crypt E nonce m) = length m" "ctr_crypt E nonce (ctr_crypt E nonce m) = m"
proof -
  have "length m \<le> 16 * ((length m + 15) div 16)" by linarith
  then have le: "length m \<le> length (ctr_blocks E nonce 2 ((length m + 15) div 16))" by (simp add: length_ctr_blocks assms)
  then show len: "length (ctr_crypt E nonce m) = length m" by (simp add: ctr_crypt_def)
  show "ctr_crypt E nonce (ctr_crypt E nonce m) = m"
    unfolding ctr_crypt_def [of E nonce "ctr_crypt E nonce m"] len
    unfolding ctr_crypt_def by (rule xor_bytes_twice [OF le])
qed

lemma length_gcm_tag:
  assumes "block_sized E" "length nonce = 12"
  shows "length (gcm_tag E nonce ct aad) = 16"
  using assms by (simp add: gcm_tag_def block_of_word_def block_sized_def length_counter_block)

lemma Open_Seal:
  assumes "block_sized E" "gcm_Seal E nonce plaintext aad = Some sealed"
  shows "gcm_Open E nonce sealed aad = Some plaintext" "length sealed = length plaintext + 16"
proof -
  let ?ct = "ctr_crypt E nonce plaintext"
  have n: "length nonce = 12" and s: "sealed = ?ct @ gcm_tag E nonce ?ct aad"
    using assms(2) by (simp_all add: gcm_Seal_def Let_def split: if_splits)
  note len = length_gcm_tag [OF assms(1) n, of ?ct aad] and twice = ctr_crypt_twice [OF assms(1) n]
  show "length sealed = length plaintext + 16" using s len twice(1) by simp
  show "gcm_Open E nonce sealed aad = Some plaintext" using s len n twice by (simp add: gcm_Open_def Let_def)
qed

text \<open>AES maps blocks to blocks.\<close>

lemma length_chunks [simp]: "length (chunks k n xs) = n"
  by (induction n arbitrary: xs) simp_all

lemma chunks_lengths: "k * n \<le> length xs \<Longrightarrow> list_all (\<lambda>c. length c = k) (chunks k n xs)"
  by (induction n arbitrary: xs) simp_all

lemma concat_lengths: "list_all (\<lambda>c. length c = k) cs \<Longrightarrow> length (concat cs) = k * length cs"
  by (induction cs) simp_all

lemma length_shift_rows [simp]: "length (shift_rows s) = 16"
  by (simp add: shift_rows_def)

lemma length_mix_column: "length c = 4 \<Longrightarrow> length (mix_column c) = 4"
  by (auto simp: mix_column_def split: list.splits)

lemma length_mix_columns: "length s = 16 \<Longrightarrow> length (mix_columns s) = 16"
proof -
  assume "length s = 16"
  then have "list_all (\<lambda>c. length c = 4) (map mix_column (chunks 4 4 s))"
    using chunks_lengths [of 4 4 s] by (auto simp: list_all_iff length_mix_column)
  then show ?thesis using concat_lengths by (fastforce simp: mix_columns_def)
qed

lemma length_aes_steps: "list_all (\<lambda>k. length k = 16) ks \<Longrightarrow> length s = 16 \<Longrightarrow> length (aes_steps s ks) = 16"
  by (induction s ks rule: aes_steps.induct) (simp_all add: length_mix_columns)

lemma length_next_word:
  assumes "list_all (\<lambda>w. length w = 4) ws" "0 < nk" "nk \<le> length ws"
  shows "length (next_word nk rcon ws) = 4"
proof -
  obtain w ws' where ws: "ws = w # ws'" using assms(2,3) by (cases ws) auto
  have "length (ws ! (nk - 1)) = 4" using assms by (simp add: list_all_length)
  moreover have "length (case map sub_byte (rotate1 (hd ws)) of [] \<Rightarrow> [] | b # bs \<Rightarrow> (b XOR rcon) # bs) = 4"
    using assms(1) ws by (cases "map sub_byte (rotate1 w)") (auto simp: length_Suc_conv dest: arg_cong [of _ _ length])
  ultimately show ?thesis using assms(1) ws by (auto simp: next_word_def Let_def)
qed

lemma expand_words_shape:
  assumes "list_all (\<lambda>w. length w = 4) ws" "0 < nk" "nk \<le> length ws"
  shows "list_all (\<lambda>w. length w = 4) (expand_words nk n rcon ws) \<and> length (expand_words nk n rcon ws) = length ws + n"
  using assms by (induction nk n rcon ws rule: expand_words.induct) (simp_all add: length_next_word)

lemma concat_chunks_lengths:
  "list_all (\<lambda>w. length w = 4) ws \<Longrightarrow> 4 * n \<le> length ws \<Longrightarrow> list_all (\<lambda>k. length k = 16) (map concat (chunks 4 n ws))"
proof (induction n arbitrary: ws)
  case (Suc n)
  have "list_all (\<lambda>w. length w = 4) (take 4 ws)" "list_all (\<lambda>w. length w = 4) (drop 4 ws)"
    using Suc.prems(1) by (auto simp: list_all_iff dest: in_set_takeD in_set_dropD)
  then show ?case using Suc.IH [of "drop 4 ws"] concat_lengths [of 4 "take 4 ws"] Suc.prems(2) by simp
qed simp

lemma aes_block_sized: "aes_NewCipher key = Some E \<Longrightarrow> block_sized E"
proof -
  assume "aes_NewCipher key = Some E"
  then have key: "length key \<in> {16, 24, 32}" and E: "E = aes_encrypt key" by (auto simp: aes_NewCipher_def split: if_splits)
  define nk nr where "nk = length key div 4" and "nr = aes_rounds key"
  have n: "0 < nk" "4 * nk \<le> length key" "nk \<le> 4 * (nr + 1)" using key by (auto simp: nk_def nr_def aes_rounds_def)
  have w: "list_all (\<lambda>w. length w = 4) (rev (chunks 4 nk key))" using chunks_lengths [OF n(2)] by simp
  let ?ws = "expand_words nk (4 * (nr + 1) - nk) 1 (rev (chunks 4 nk key))"
  have "list_all (\<lambda>w. length w = 4) ?ws" "length ?ws = 4 * (nr + 1)"
    using expand_words_shape [OF w n(1), of "4 * (nr + 1) - nk" 1] n(3) by simp_all
  then have "list_all (\<lambda>k. length k = 16) (round_keys key)"
    unfolding round_keys_def Let_def nk_def [symmetric] nr_def [symmetric] by (intro concat_chunks_lengths) auto
  moreover have "round_keys key \<noteq> []" by (simp add: round_keys_def Let_def)
  ultimately have "length (hd (round_keys key)) = 16" "list_all (\<lambda>k. length k = 16) (tl (round_keys key))"
    by (cases "round_keys key"; simp)+
  then show ?thesis using E by (simp add: block_sized_def aes_encrypt_def Let_def length_aes_steps)
qed

end
