(* ===== verification/Discovery.thy ===== *)
theory Discovery
  imports Pairflow
begin

text \<open>
  \<open>internal/discovery\<close>: the capabilities document and its worked examples, which are
  computed from two fixed seeds.  \<open>crypto/ed25519\<close> is the argument \<open>L\<close>; the vector of
  \<open>example_aead.go\<close> (ECDH, HKDF and AES-GCM) is the argument \<open>aead\<close>.
\<close>

section \<open>Decoders\<close>

text \<open>\<open>hex.DecodeString\<close>.\<close>

fun hex_DecodeString :: "string \<Rightarrow> bytes option" where
  "hex_DecodeString [] = Some []"
| "hex_DecodeString [_] = None"
| "hex_DecodeString (a # b # r) =
     (case (hex_val a, hex_val b) of
        (Some x, Some y) \<Rightarrow> map_option ((#) (of_nat (16 * x + y))) (hex_DecodeString r)
      | _ \<Rightarrow> None)"

text \<open>\<open>base64.StdEncoding.DecodeString\<close>: the alphabet with \<open>+\<close> and \<open>/\<close>.\<close>

definition std_to_url :: "char \<Rightarrow> char" where
  "std_to_url c = (if c = CHR ''+'' then CHR ''-'' else if c = CHR ''/'' then CHR ''_''
     else if c = CHR ''-'' \<or> c = CHR ''_'' then CHR ''!'' else c)"

definition StdDecodeString :: "string \<Rightarrow> bytes option" where
  "StdDecodeString s = URLDecodeString (map std_to_url s)"

text \<open>
  \<open>base64.RawURLEncoding.DecodeString\<close> with the error dropped: what was decoded before
  the first bad quantum.
\<close>

fun raw_quanta :: "string \<Rightarrow> bytes" where
  "raw_quanta (a # b # c # d # r) =
     (case (b64_val a, b64_val b, b64_val c, b64_val d) of
        (Some w, Some x, Some y, Some z) \<Rightarrow>
          of_nat (w * 4 + x div 16) # of_nat (x mod 16 * 16 + y div 4) # of_nat (y mod 4 * 64 + z) # raw_quanta r
      | _ \<Rightarrow> [])"
| "raw_quanta [a, b, c] =
     (case (b64_val a, b64_val b, b64_val c) of
        (Some w, Some x, Some y) \<Rightarrow> [of_nat (w * 4 + x div 16), of_nat (x mod 16 * 16 + y div 4)]
      | _ \<Rightarrow> [])"
| "raw_quanta [a, b] =
     (case (b64_val a, b64_val b) of (Some w, Some x) \<Rightarrow> [of_nat (w * 4 + x div 16)] | _ \<Rightarrow> [])"
| "raw_quanta _ = []"

definition RawURLDecode :: "string \<Rightarrow> bytes" where
  "RawURLDecode s = raw_quanta (filter (\<lambda>c. \<not> newline c) s)"

section \<open>Example values\<close>

record 'k ed_lib =
  NewKeyFromSeed :: "bytes \<Rightarrow> 'k"
  Public :: "'k \<Rightarrow> bytes"
  Sign :: "'k \<Rightarrow> bytes \<Rightarrow> bytes"

definition aliceSeedHex :: string where "aliceSeedHex = replicate 64 CHR ''0''"
definition bobSeedHex :: string where "bobSeedHex = concat (replicate 32 ''01'')"
definition exampleNexusID :: string where "exampleNexusID = ''alice-nexus''"
definition exampleEndpoint :: string where "exampleEndpoint = ''https://alice.example.org:10000''"
definition exampleNonce :: string where "exampleNonce = ''AAECAwQFBgcICQoLDA0ODw''"
definition exampleTs :: string where "exampleTs = ''2026-04-30T00:00:00Z''"
definition exampleDhAlg :: string where "exampleDhAlg = ''P-256''"
definition exampleAliceDhPubB64u :: string where
  "exampleAliceDhPubB64u = ''BKj9Hfm4WU9ZUfCJuvLiAYgyVaTT64WTITLGp30yjYGvqXNd1LaZNeXqzaV7D34eGaR2Fiz9cJQTmfUy2nLHZP0''"

text \<open>None is a panic at startup.\<close>

definition mustEdKey :: "'k ed_lib \<Rightarrow> string \<Rightarrow> (string \<times> 'k) option" where
  "mustEdKey L seedHex =
     (case hex_DecodeString seedHex of None \<Rightarrow> None
      | Some seed \<Rightarrow>
          if length seed \<noteq> 32 then None
          else let priv = NewKeyFromSeed L seed in Some (RawURLEncode (Public L priv), priv))"

definition alicePubB64u :: "'k ed_lib \<Rightarrow> string" where "alicePubB64u L = fst (the (mustEdKey L aliceSeedHex))"
definition alicePrivKey :: "'k ed_lib \<Rightarrow> 'k" where "alicePrivKey L = snd (the (mustEdKey L aliceSeedHex))"
definition bobPubB64u :: "'k ed_lib \<Rightarrow> string" where "bobPubB64u L = fst (the (mustEdKey L bobSeedHex))"

definition buildPreimageV1 :: "'k ed_lib \<Rightarrow> string" where
  "buildPreimageV1 L = Join [''v1'', exampleNexusID, ''ed25519'', alicePubB64u L, exampleEndpoint, exampleNonce, exampleTs] [CHR 0x0A]"

definition buildPreimageV2 :: "'k ed_lib \<Rightarrow> string" where
  "buildPreimageV2 L = Join [''v2'', exampleNexusID, ''ed25519'', alicePubB64u L, exampleDhAlg, exampleAliceDhPubB64u,
     exampleEndpoint, exampleNonce, exampleTs] [CHR 0x0A]"

definition signPreimage :: "'k ed_lib \<Rightarrow> 'k \<Rightarrow> string \<Rightarrow> string" where
  "signPreimage L priv preimage = RawURLEncode (Sign L priv (to_bytes preimage))"

definition signCanonical :: "'k ed_lib \<Rightarrow> 'k \<Rightarrow> string \<Rightarrow> string" where
  "signCanonical L priv canonical = RawURLEncode (Sign L priv (to_bytes canonical))"

fun go_compare :: "bytes \<Rightarrow> bytes \<Rightarrow> int" where
  "go_compare (x # xs) (y # ys) = (if x \<noteq> y then if x < y then -1 else 1 else go_compare xs ys)"
| "go_compare [] (y # ys) = -1"
| "go_compare (x # xs) [] = 1"
| "go_compare [] [] = 0"

definition derivePathID :: "string \<Rightarrow> string \<Rightarrow> string" where
  "derivePathID aPub bPub =
     (let a = RawURLDecode aPub; b = RawURLDecode bPub;
          (first, second) = (if go_compare a b < 0 then (a, b) else (b, a))
      in ''nxc_'' @ RawURLEncode (sha256 (first @ second)))"

definition ciphertextB64 :: string where
  "ciphertextB64 = ''AAECAwQFBgcICQoLDQ'' @ replicate 101 CHR ''A'' @ ''=''"

text \<open>The digest, or None for the panic on bad base64.\<close>

definition computeCiphertextSHA256 :: "string option" where
  "computeCiphertextSHA256 = map_option (\<lambda>raw. hex_EncodeToString (sha256 raw)) (StdDecodeString ciphertextB64)"

definition outer_msgID :: string where "outer_msgID = ''01979b0a-c0de-7eef-a000-000000000001''"

definition buildExampleOuter :: "'k ed_lib \<Rightarrow> string option" where
  "buildExampleOuter L =
     (let pathID = derivePathID (alicePubB64u L) (bobPubB64u L) in
      map_option (\<lambda>raw. let q = [CHR 0x22]; f = (\<lambda>k v. q @ k @ q @ '':'' @ q @ v @ q) in
        ''{'' @ f ''ciphertext'' ciphertextB64 @ '','' @ f ''ciphertext_sha256'' (hex_EncodeToString (sha256 raw)) @ '',''
          @ f ''msg_id'' outer_msgID @ '','' @ f ''path_id'' pathID @ '',''
          @ f ''ts'' ''2026-04-30T00:00:00Z'' @ '','' @ f ''version'' ''1'' @ ''}'')
       (StdDecodeString ciphertextB64))"

definition examplePreimageV1 :: "'k ed_lib \<Rightarrow> string" where "examplePreimageV1 L = buildPreimageV1 L"
definition examplePreimageV2 :: "'k ed_lib \<Rightarrow> string" where "examplePreimageV2 L = buildPreimageV2 L"
definition examplePreimageSigV1 :: "'k ed_lib \<Rightarrow> string" where
  "examplePreimageSigV1 L = signPreimage L (alicePrivKey L) (examplePreimageV1 L)"
definition examplePreimageSigV2 :: "'k ed_lib \<Rightarrow> string" where
  "examplePreimageSigV2 L = signPreimage L (alicePrivKey L) (examplePreimageV2 L)"
definition exampleOuterCanonical :: "'k ed_lib \<Rightarrow> string" where "exampleOuterCanonical L = the (buildExampleOuter L)"
definition exampleOuterWireHex :: "'k ed_lib \<Rightarrow> string" where
  "exampleOuterWireHex L = hex_EncodeToString (to_bytes (exampleOuterCanonical L))"
definition exampleOuterSig :: "'k ed_lib \<Rightarrow> string" where
  "exampleOuterSig L = signCanonical L (alicePrivKey L) (exampleOuterCanonical L)"
definition exampleCiphertextSHA256Hex :: string where "exampleCiphertextSHA256Hex = the computeCiphertextSHA256"
definition examplePathID :: "'k ed_lib \<Rightarrow> string" where "examplePathID L = derivePathID (alicePubB64u L) (bobPubB64u L)"

section \<open>The document\<close>

text \<open>The types, with their JSON objects as association lists.\<close>

record dEndpoints =
  Endpoints_Discovery :: string
  Endpoints_Health :: string
  Endpoints_Put :: string
  Endpoints_Pull :: string
  Endpoints_Ack :: string
  Endpoints_PairRequest :: string
  Endpoints_PairStatus :: string
  Endpoints_PairApprove :: "string option"
  Endpoints_PairDeny :: "string option"

record dAuth =
  Auth_Scheme :: string
  Auth_Header :: string
  Auth_Note :: string

record dSigning =
  Signing_Algorithms :: "string list"
  Signing_Default :: string
  Signing_KeyFormat :: "(string \<times> string) list"
  Signing_SignatureFormat :: string
  Signing_Header :: string
  Signing_WhatIsSigned :: string

record dEncryption =
  Encryption_KeyExchange :: string
  Encryption_KeyExchangeValues :: "string list"
  Encryption_KeyFormat :: "(string \<times> string) list"
  Encryption_KDF :: string
  Encryption_KDFInfo :: string
  Encryption_Symmetric :: string
  Encryption_Nonce :: string
  Encryption_AAD :: string

record dCanonicalJSON =
  CanonicalJSON_Standard :: string
  CanonicalJSON_Rules :: string
  CanonicalJSON_ErgonomicNote :: string

record dCrypto =
  Crypto_Signing :: dSigning
  Crypto_Encryption :: dEncryption
  Crypto_CanonicalJSON :: dCanonicalJSON

record dEnvelope =
  Envelope_Version :: string
  Envelope_Outer :: string
  Envelope_Inner :: string
  Envelope_MsgIDFormat :: string
  Envelope_TsFormat :: string

record dContentHandling =
  ContentHandling_Note :: string
  ContentHandling_Wrapping :: string
  ContentHandling_Treatment :: string
  ContentHandling_MimeAllowlist :: "string list"
  ContentHandling_MaxBodyBytes :: int

record dHalfSchema =
  HalfSchema_NexusID :: string
  HalfSchema_SigAlg :: string
  HalfSchema_Pubkey :: string
  HalfSchema_DhAlg :: string
  HalfSchema_DhPubkey :: string
  HalfSchema_Endpoint :: string
  HalfSchema_Nonce :: string
  HalfSchema_Ts :: string
  HalfSchema_SelfSig :: string

record dPairing =
  Pairing_Method :: string
  Pairing_Flow :: "string list"
  Pairing_SelfSigCanonicalV2 :: string
  Pairing_SelfSigCanonicalV1Deprecated :: string
  Pairing_CanonicalVersioningNote :: string
  Pairing_RequestTTLHours :: int
  Pairing_Note :: string
  Pairing_HalfSchema :: dHalfSchema
  Pairing_ApprovalResponseShape :: string
  Pairing_PollResponseShape :: string

record dLimits =
  Limits_ReplayWindowSeconds :: int
  Limits_BodyMaxBytes :: int
  Limits_AttachmentStorage :: string

record dExampleTestKeys =
  ExampleTestKeys_Note :: string
  ExampleTestKeys_AliceSeedHex :: string
  ExampleTestKeys_AlicePubkeyB64u :: string
  ExampleTestKeys_BobSeedHex :: string
  ExampleTestKeys_BobPubkeyB64u :: string

record dExamplePairHalfVersion =
  ExamplePairHalfVersion_Note :: string
  ExamplePairHalfVersion_Preimage :: string
  ExamplePairHalfVersion_Signature :: string
  ExamplePairHalfVersion_WireJSON :: "(string \<times> string) list"

record dExamplePairHalf =
  ExamplePairHalf_Note :: string
  ExamplePairHalf_V2 :: dExamplePairHalfVersion
  ExamplePairHalf_V1 :: dExamplePairHalfVersion

record dExampleOuter =
  ExampleOuter_Note :: string
  ExampleOuter_CanonicalJSON :: string
  ExampleOuter_WireBytesNote :: string
  ExampleOuter_CiphertextSHA256 :: string
  ExampleOuter_XNexusSignature :: string

record dExampleEncryption =
  ExampleEncryption_Note :: string
  ExampleEncryption_NonceHex :: string
  ExampleEncryption_AADNote :: string
  ExampleEncryption_AlgorithmReminder :: string

record dExampleInner =
  ExampleInner_Note :: string
  ExampleInner_Plaintext :: "(string \<times> json) list"
  ExampleInner_Encryption :: dExampleEncryption

record dExamplePathID =
  ExamplePathID_Note :: string
  ExamplePathID_Recipe :: string
  ExamplePathID_Result :: string

record 'aead dExamples =
  Examples_Note :: string
  Examples_TestKeys :: dExampleTestKeys
  Examples_PairHalf :: dExamplePairHalf
  Examples_OuterEnvelope :: dExampleOuter
  Examples_InnerEnvelope :: dExampleInner
  Examples_PathIDDerivation :: dExamplePathID
  Examples_AEADVector :: 'aead

record 'aead dDocument =
  Document_Version :: string
  Document_Protocol :: string
  Document_InterchangeID :: string
  Document_TrustModel :: string
  Document_Endpoints :: dEndpoints
  Document_Auth :: dAuth
  Document_Crypto :: dCrypto
  Document_Envelope :: dEnvelope
  Document_MessageKinds :: "string list"
  Document_ContentHandling :: dContentHandling
  Document_Pairing :: dPairing
  Document_Limits :: dLimits
  Document_Examples :: "'aead dExamples"

section \<open>Its values\<close>

definition the_ExampleTestKeys :: "'k ed_lib \<Rightarrow> dExampleTestKeys" where
  "the_ExampleTestKeys L =
     \<lparr>ExampleTestKeys_Note = ''Two Ed25519 keypairs from fixed 32-byte seeds. '' @ ''Alice = 32 bytes of 0x00. Bob = 32 bytes of 0x01. ''
                             @ ''Public keys derived per RFC 8032; provided base64url-encoded (raw, no padding).'',
      ExampleTestKeys_AliceSeedHex = aliceSeedHex,
      ExampleTestKeys_AlicePubkeyB64u = alicePubB64u L,
      ExampleTestKeys_BobSeedHex = bobSeedHex,
      ExampleTestKeys_BobPubkeyB64u = bobPubB64u L\<rparr>"

definition the_ExamplePairHalfVersion_V2 :: "'k ed_lib \<Rightarrow> dExamplePairHalfVersion" where
  "the_ExamplePairHalfVersion_V2 L =
     \<lparr>ExamplePairHalfVersion_Note = ''v2 (current). Preimage covers ECDH material so a relay or wire ''
                                    @ ''observer cannot swap dh_pubkey without invalidating the signature.'',
      ExamplePairHalfVersion_Preimage = examplePreimageV2 L,
      ExamplePairHalfVersion_Signature = examplePreimageSigV2 L,
      ExamplePairHalfVersion_WireJSON = [(''dh_alg'', exampleDhAlg),
                                       (''dh_pubkey'', exampleAliceDhPubB64u),
                                       (''endpoint'', exampleEndpoint),
                                       (''nexus_id'', exampleNexusID),
                                       (''nonce'', exampleNonce),
                                       (''pubkey'', alicePubB64u L),
                                       (''self_sig'', examplePreimageSigV2 L),
                                       (''sig_alg'', ''ed25519''),
                                       (''ts'', exampleTs)]\<rparr>"

definition the_ExamplePairHalfVersion_V1 :: "'k ed_lib \<Rightarrow> dExamplePairHalfVersion" where
  "the_ExamplePairHalfVersion_V1 L =
     \<lparr>ExamplePairHalfVersion_Note = ''v1 (DEPRECATED). dh_pubkey is NOT covered by the signature in v1, ''
                                    @ ''making it vulnerable to substitution. Provided here only for reference ''
                                    @ ''during migration. Do not use for new pair attempts.'',
      ExamplePairHalfVersion_Preimage = examplePreimageV1 L,
      ExamplePairHalfVersion_Signature = examplePreimageSigV1 L,
      ExamplePairHalfVersion_WireJSON = [(''endpoint'', exampleEndpoint),
                                       (''nexus_id'', exampleNexusID),
                                       (''nonce'', exampleNonce),
                                       (''pubkey'', alicePubB64u L),
                                       (''self_sig'', examplePreimageSigV1 L),
                                       (''sig_alg'', ''ed25519''),
                                       (''ts'', exampleTs)]\<rparr>"

definition the_ExamplePairHalf :: "'k ed_lib \<Rightarrow> dExamplePairHalf" where
  "the_ExamplePairHalf L =
     \<lparr>ExamplePairHalf_Note = ''A pair-half submitted to POST /pair/request as the requester field, ''
                             @ ''or to POST /pair/requests/<id>/approve as the owner field. Two preimage ''
                             @ ''versions are published: v2 is current (signature covers dh_alg + dh_pubkey, ''
                             @ ''preventing substitution); v1 is deprecated but still accepted by relays ''
                             @ ''during the migration window. New implementations MUST write v2.'',
      ExamplePairHalf_V2 = the_ExamplePairHalfVersion_V2 L,
      ExamplePairHalf_V1 = the_ExamplePairHalfVersion_V1 L\<rparr>"

definition the_ExampleOuter :: "'k ed_lib \<Rightarrow> dExampleOuter" where
  "the_ExampleOuter L =
     \<lparr>ExampleOuter_Note = ''The cleartext routing layer transmitted over the wire. ''
                          @ ''Sender canonicalizes (RFC 8785), signs the canonical bytes with their Ed25519 key, ''
                          @ ''and sends the canonical JSON as the request body with X-Nexus-Signature: <base64url-sig>.'',
      ExampleOuter_CanonicalJSON = exampleOuterCanonical L,
      ExampleOuter_WireBytesNote = ''The actual HTTP body is the canonical JSON above WITHOUT the trailing LF added for display. ''
                                   @ ''Hex of the wire bytes (no terminator): '' @ exampleOuterWireHex L,
      ExampleOuter_CiphertextSHA256 = exampleCiphertextSHA256Hex,
      ExampleOuter_XNexusSignature = exampleOuterSig L\<rparr>"

definition the_ExampleEncryption :: "'k ed_lib \<Rightarrow> dExampleEncryption" where
  "the_ExampleEncryption L =
     \<lparr>ExampleEncryption_Note = ''1) Canonicalize the plaintext to bytes per RFC 8785. ''
                               @ ''2) Compute AAD = UTF-8 string bytes of (path_id || msg_id), no separator. Both values are ''
                               @ ''ASCII so UTF-8 == raw string bytes. ''
                               @ ''3) Encrypt with AES-256-GCM using HKDF-SHA256(ECDH-shared-secret) as the key, the 12-byte ''
                               @ ''random nonce, and the AAD from step 2. ''
                               @ ''4) Prepend the nonce to the GCM output (ciphertext||tag). The result is the bytes that go ''
                               @ ''into the outer envelope'' @ [CHR 0x27] @ ''s '' @ [CHR 0x60] @ ''ciphertext'' @ [CHR 0x60]
                               @ '' field (then base64url-encoded for transport).'',
      ExampleEncryption_NonceHex = ''000102030405060708090a0b'',
      ExampleEncryption_AADNote = ''AAD = path_id || msg_id (UTF-8 bytes, no separator). For the values in this example: path_id='' @ [CHR 0x27]
                                  @ examplePathID L @ [CHR 0x27] @ '' (47 chars) || msg_id='' @ [CHR 0x27]
                                  @ ''01979b0a-c0de-7eef-a000-000000000001'' @ [CHR 0x27]
                                  @ '' (36 chars) = 83 bytes. Binding the AEAD output to (path, message) means a ciphertext extracted ''
                                  @ ''from one envelope cannot be successfully decrypted against a different path_id or msg_id ''
                                  @ [CHR 0xE2, CHR 0x80, CHR 0x94] @ '' authentication fails at decrypt time.'',
      ExampleEncryption_AlgorithmReminder = ''AES-256-GCM, 12-byte nonce prepended to ciphertext, 16-byte auth tag is the trailing 16 bytes ''
                                            @ ''of the GCM output.''\<rparr>"

definition the_ExampleInner :: "'k ed_lib \<Rightarrow> dExampleInner" where
  "the_ExampleInner L =
     \<lparr>ExampleInner_Note = ''The plaintext that gets AEAD-sealed before becoming the outer envelope'' @ [CHR 0x27]
                          @ ''s ciphertext field. '' @ ''The recipe shows how to produce the ciphertext from this plaintext.'',
      ExampleInner_Plaintext = [(''attachments'', JArr []),
                              (''body'', JStr (''Hello, Bob. This is a test message.'')),
                              (''content_type'', JStr (''text/markdown'')),
                              (''dest_nexus'', JStr (''bob-nexus'')),
                              (''in_reply_to'', JNull),
                              (''kind'', JStr (''proposal'')),
                              (''origin_nexus'', JStr (''alice-nexus''))],
      ExampleInner_Encryption = the_ExampleEncryption L\<rparr>"

definition the_ExamplePathID :: "'k ed_lib \<Rightarrow> dExamplePathID" where
  "the_ExamplePathID L =
     \<lparr>ExamplePathID_Note = ''path_id is computed identically by both peers and the interchange. ''
                           @ ''It binds the channel to the two pubkeys.'',
      ExamplePathID_Recipe = ''1) Sort the two raw pubkeys (32 bytes each) lexicographically. ''
                             @ ''2) Concatenate them in sorted order. '' @ ''3) SHA-256 the concatenation. ''
                             @ ''4) base64url-encode the digest (raw, no padding). '' @ ''5) Prefix with literal '' @ [CHR 0x27] @ ''nxc_''
                             @ [CHR 0x27] @ ''. Result is the path_id.'',
      ExamplePathID_Result = examplePathID L\<rparr>"

definition buildExamples :: "'k ed_lib \<Rightarrow> 'aead \<Rightarrow> 'aead dExamples" where
  "buildExamples L aead =
     \<lparr>Examples_Note = ''Wire-format examples derived from two deterministic Ed25519 test seeds. ''
                      @ ''Use these to validate your own canonicalization, signing, and pair-half assembly. ''
                      @ ''DO NOT use these seeds for any live identity.'',
      Examples_TestKeys = the_ExampleTestKeys L,
      Examples_PairHalf = the_ExamplePairHalf L,
      Examples_OuterEnvelope = the_ExampleOuter L,
      Examples_InnerEnvelope = the_ExampleInner L,
      Examples_PathIDDerivation = the_ExamplePathID L,
      Examples_AEADVector = aead\<rparr>"

definition the_Endpoints :: "dEndpoints" where
  "the_Endpoints =
     \<lparr>Endpoints_Discovery = ''GET /.well-known/nexus-interchange'',
      Endpoints_Health = ''GET /health'',
      Endpoints_Put = ''PUT /mailbox/:pathId'',
      Endpoints_Pull = ''GET /mailbox/:pathId?since=<msg_id>'',
      Endpoints_Ack = ''POST /mailbox/:pathId/ack'',
      Endpoints_PairRequest = ''POST /pair/request'',
      Endpoints_PairStatus = ''GET /pair/requests/:id'',
      Endpoints_PairApprove = None,
      Endpoints_PairDeny = None\<rparr>"

definition the_Auth :: "dAuth" where
  "the_Auth =
     \<lparr>Auth_Scheme = ''Ed25519'',
      Auth_Header = ''X-Nexus-Signature'',
      Auth_Note = ''Detached signature over canonical JSON request body (PUT) or path+query (GET). POST /mailbox/:pathId/ack ''
                  @ ''signs path+query (same as GET, despite being a POST) '' @ [CHR 0xE2, CHR 0x80, CHR 0x94]
                  @ '' the body is JSON but is NOT included in the signature preimage. Key pinned at pairing.''\<rparr>"

definition the_Signing :: "dSigning" where
  "the_Signing =
     \<lparr>Signing_Algorithms = [''ed25519''],
      Signing_Default = ''ed25519'',
      Signing_KeyFormat = [(''ed25519'', ''raw 32-byte public key, base64url-encoded'')],
      Signing_SignatureFormat = ''detached 64-byte Ed25519 signature, base64url-encoded'',
      Signing_Header = ''X-Nexus-Signature'',
      Signing_WhatIsSigned = ''PUT: canonical JSON of outer envelope; GET: UTF-8 of path+query (e.g. /mailbox/nxc_xxx?since=yyy); ''
                             @ ''ack: POST /mailbox/:pathId/ack signs path+query (same as GET, despite being a POST) ''
                             @ [CHR 0xE2, CHR 0x80, CHR 0x94] @ '' the body JSON is NOT included in the signature preimage.''\<rparr>"

definition the_Encryption :: "dEncryption" where
  "the_Encryption =
     \<lparr>Encryption_KeyExchange = ''P-256 ECDH (default) or X25519 ECDH (negotiated via pairing-half dh_alg; see key_exchange_values ''
                               @ ''for accepted labels). Both sides MUST match.'',
      Encryption_KeyExchangeValues = [''P-256'',
                                    ''X25519''],
      Encryption_KeyFormat = [(''p256'', ''65-byte uncompressed SEC1 point (0x04 || 32 || 32)''),
                            (''x25519'', ''raw 32-byte public key'')],
      Encryption_KDF = ''HKDF-SHA256 over ECDH shared secret '' @ [CHR 0xE2, CHR 0x86, CHR 0x92] @ '' 32-byte symmetric key'',
      Encryption_KDFInfo = ''nexus-casket-channel-v1'',
      Encryption_Symmetric = ''AES-256-GCM'',
      Encryption_Nonce = ''96-bit random nonce, prepended to ciphertext'',
      Encryption_AAD = ''UTF-8 string bytes of '' @ [CHR 0x60] @ ''path_id'' @ [CHR 0x60]
                       @ '' concatenated with UTF-8 string bytes of '' @ [CHR 0x60] @ ''msg_id'' @ [CHR 0x60]
                       @ ''. No separator, no length prefix. path_id and msg_id are ASCII so UTF-8 == raw string bytes. ''
                       @ ''Pass the concatenated bytes as the AEAD AAD on both encrypt and decrypt. This binds the AEAD-tagged ''
                       @ ''ciphertext to the specific path and message '' @ [CHR 0xE2, CHR 0x80, CHR 0x94]
                       @ '' replaying to a different path_id or msg_id fails authentication at decrypt. Both sides know ''
                       @ ''these values before encrypting.''\<rparr>"

definition the_CanonicalJSON :: "dCanonicalJSON" where
  "the_CanonicalJSON =
     \<lparr>CanonicalJSON_Standard = ''RFC 8785 (JSON Canonicalization Scheme / JCS)'',
      CanonicalJSON_Rules = ''keys sorted lexicographically by code-point order, no insignificant whitespace, strings JSON-encoded ''
                            @ ''per standard, no trailing newline'',
      CanonicalJSON_ErgonomicNote = ''The interchange re-canonicalizes parsed JSON server-side before verifying. Clients that use ''
                                    @ ''any JSON library producing structurally equivalent output (same keys, same values, same types) ''
                                    @ ''will interop correctly even if they cannot produce byte-exact RFC 8785 output. Clients that ''
                                    @ ''reshape values during serialization (e.g. emit 1.0 instead of 1, or reorder nested arrays) ''
                                    @ ''will fail with 401 signature_invalid.''\<rparr>"

definition the_Crypto :: "dCrypto" where
  "the_Crypto =
     \<lparr>Crypto_Signing = the_Signing,
      Crypto_Encryption = the_Encryption,
      Crypto_CanonicalJSON = the_CanonicalJSON\<rparr>"

definition the_Envelope :: "dEnvelope" where
  "the_Envelope =
     \<lparr>Envelope_Version = ''1'',
      Envelope_Outer = ''cleartext canonical JSON '' @ [CHR 0xE2, CHR 0x80, CHR 0x94]
                       @ '' version, msg_id, ts, path_id, ciphertext_sha256, ciphertext'',
      Envelope_Inner = ''AEAD-sealed '' @ [CHR 0xE2, CHR 0x80, CHR 0x94]
                       @ '' origin_nexus, dest_nexus, kind, in_reply_to, content_type, body, attachments'',
      Envelope_MsgIDFormat = ''UUIDv7 (timestamp-ordered) minted by sender'',
      Envelope_TsFormat = ''ISO 8601 UTC, e.g. 2026-04-24T09:14:23Z''\<rparr>"

definition the_ContentHandling :: "dContentHandling" where
  "the_ContentHandling =
     \<lparr>ContentHandling_Note = ''Informational '' @ [CHR 0xE2, CHR 0x80, CHR 0x94]
                             @ '' describes how a compliant receiver will present inbound peer content to its AI aspects.'',
      ContentHandling_Wrapping = ''<peer_message from='' @ [CHR 0x22] @ ''<nexus_id>'' @ [CHR 0x22] @ '' msg_id='' @ [CHR 0x22] @ ''<...>''
                                 @ [CHR 0x22] @ '' kind='' @ [CHR 0x22] @ ''<...>'' @ [CHR 0x22] @ '' received='' @ [CHR 0x22] @ ''<ts>''
                                 @ [CHR 0x22] @ ''>[body verbatim]</peer_message>'',
      ContentHandling_Treatment = ''Wrapped content is DATA, never instructions. Receivers MUST NOT execute tool calls, trigger ''
                                  @ ''approval flows, or take protocol actions from peer content without separate operator confirmation.'',
      ContentHandling_MimeAllowlist = [''text/markdown'',
                                     ''text/plain'',
                                     ''application/json''],
      ContentHandling_MaxBodyBytes = 1048576\<rparr>"

definition the_HalfSchema :: "dHalfSchema" where
  "the_HalfSchema =
     \<lparr>HalfSchema_NexusID = ''<requester or owner nexus id>'',
      HalfSchema_SigAlg = ''ed25519 (only value at v1)'',
      HalfSchema_Pubkey = ''<base64url, 32-byte raw Ed25519 public key>'',
      HalfSchema_DhAlg = ''P-256 or X25519'',
      HalfSchema_DhPubkey = ''<base64url, 65-byte SEC1 P-256 OR 32-byte raw X25519>'',
      HalfSchema_Endpoint = ''<https URL or empty>'',
      HalfSchema_Nonce = ''<base64url, 16+ random bytes>'',
      HalfSchema_Ts = ''<ISO 8601 UTC, e.g. 2026-04-30T00:00:00Z>'',
      HalfSchema_SelfSig = ''<base64url, 64-byte detached Ed25519 signature over v2 canonical preimage>''\<rparr>"

definition the_Pairing :: "dPairing" where
  "the_Pairing =
     \<lparr>Pairing_Method = ''request + operator approval'',
      Pairing_Flow = [''1. Requester POSTs /pair/request with requester half (nexus_id, sig_alg, pubkey, dh_alg, dh_pubkey, ''
                      @ ''endpoint, nonce, ts, self_sig). Self-sig MUST be over the v2 canonical preimage.'',
                    ''2. Interchange validates self-sig, stores as pending, returns {request_id, status: pending}.'',
                    ''3. Owner reviews pending requests via tailnet endpoint.'',
                    ''4. Owner approves: POST /pair/requests/<id>/approve with owner half (same schema). Interchange ''
                      @ ''computes pathId, activates pair, returns {status: approved, path_id, requester_half} so the ''
                      @ ''owner has the requester'' @ [CHR 0x27] @ ''s full ECDH material to instantiate a local paired channel.'',
                    ''5. Requester polls GET /pair/requests/<id> until status == approved. Approved response returns ''
                      @ ''{path_id, owner_half} so the requester has the owner'' @ [CHR 0x27]
                      @ ''s full ECDH material to instantiate a local paired channel.'',
                    ''6. Both sides use /mailbox/<pathId> from there on. No out-of-band PairingToken exchange is ''
                      @ ''required '' @ [CHR 0xE2, CHR 0x80, CHR 0x94]
                      @ '' both halves carry the dh_pubkey under signature coverage.''],
      Pairing_SelfSigCanonicalV2 = ''line-oriented UTF-8, fields joined by '' @ [CHR 0x5C] @ ''n (0x0A), no trailing newline:'' @ [CHR 0x0A]
                                   @ ''v2'' @ [CHR 0x0A] @ ''<nexus_id>'' @ [CHR 0x0A] @ ''<sig_alg>'' @ [CHR 0x0A] @ ''<pubkey base64url>''
                                   @ [CHR 0x0A] @ ''<dh_alg>'' @ [CHR 0x0A] @ ''<dh_pubkey base64url>'' @ [CHR 0x0A] @ ''<endpoint or empty>''
                                   @ [CHR 0x0A] @ ''<nonce base64url>'' @ [CHR 0x0A] @ ''<ts>'',
      Pairing_SelfSigCanonicalV1Deprecated = ''line-oriented UTF-8, fields joined by '' @ [CHR 0x5C] @ ''n (0x0A), no trailing newline:'' @ [CHR 0x0A]
                                             @ ''v1'' @ [CHR 0x0A] @ ''<nexus_id>'' @ [CHR 0x0A] @ ''<sig_alg>'' @ [CHR 0x0A] @ ''<pubkey base64url>''
                                             @ [CHR 0x0A] @ ''<endpoint or empty>'' @ [CHR 0x0A] @ ''<nonce base64url>'' @ [CHR 0x0A] @ ''<ts>'',
      Pairing_CanonicalVersioningNote = ''v2 is the preimage version current implementations MUST write. v1 is accepted by verifiers ''
                                        @ ''during the v1'' @ [CHR 0xE2, CHR 0x86, CHR 0x92] @ ''v2 transition window but new halves SHOULD use v2 ''
                                        @ [CHR 0xE2, CHR 0x80, CHR 0x94]
                                        @ '' v1 omits the ECDH pubkey from signature coverage, leaving dh_pubkey vulnerable to substitution ''
                                        @ ''at storage. The first line of the preimage ('' @ [CHR 0x60] @ ''v1'' @ [CHR 0x60] @ '' or '' @ [CHR 0x60]
                                        @ ''v2'' @ [CHR 0x60]
                                        @ '') declares which preimage shape is in use; relays accept either while v1 callers still exist, ''
                                        @ ''then deprecate.'',
      Pairing_RequestTTLHours = 24,
      Pairing_Note = ''pair_approve: null and pair_deny: null in endpoints block signal these are tailnet-only. A ''
                     @ ''requester cannot approve itself. Trust establishment is always operator-human mediated.'',
      Pairing_HalfSchema = the_HalfSchema,
      Pairing_ApprovalResponseShape = ''{'' @ [CHR 0x22] @ ''request_id'' @ [CHR 0x22] @ '': '' @ [CHR 0x22] @ ''<uuid>'' @ [CHR 0x22] @ '', ''
                                      @ [CHR 0x22] @ ''status'' @ [CHR 0x22] @ '': '' @ [CHR 0x22] @ ''approved'' @ [CHR 0x22] @ '', '' @ [CHR 0x22]
                                      @ ''path_id'' @ [CHR 0x22] @ '': '' @ [CHR 0x22] @ ''nxc_<base64url>'' @ [CHR 0x22] @ '', '' @ [CHR 0x22]
                                      @ ''requester_half'' @ [CHR 0x22] @ '': <half schema>}'',
      Pairing_PollResponseShape = ''{'' @ [CHR 0x22] @ ''request_id'' @ [CHR 0x22] @ '': '' @ [CHR 0x22] @ ''<uuid>'' @ [CHR 0x22] @ '', ''
                                  @ [CHR 0x22] @ ''status'' @ [CHR 0x22] @ '': '' @ [CHR 0x22] @ ''pending|approved|denied|expired''
                                  @ [CHR 0x22] @ '', '' @ [CHR 0x22] @ ''path_id'' @ [CHR 0x22] @ '': '' @ [CHR 0x22] @ ''<nxc_...>''
                                  @ [CHR 0x22] @ '', '' @ [CHR 0x22] @ ''owner_half'' @ [CHR 0x22] @ '': <half schema, present when approved>}''\<rparr>"

definition the_Limits :: "dLimits" where
  "the_Limits =
     \<lparr>Limits_ReplayWindowSeconds = 300,
      Limits_BodyMaxBytes = 1048576,
      Limits_AttachmentStorage = ''object storage reference in inner envelope (v1.1)''\<rparr>"

definition discovery_New :: "'k ed_lib \<Rightarrow> 'aead \<Rightarrow> string \<Rightarrow> 'aead dDocument" where
  "discovery_New L aead interchangeID =
     \<lparr>Document_Version = ''1'',
      Document_Protocol = ''nexus-frame-relay/1'',
      Document_InterchangeID = interchangeID,
      Document_TrustModel = ''operator_approval'',
      Document_Endpoints = the_Endpoints,
      Document_Auth = the_Auth,
      Document_Crypto = the_Crypto,
      Document_Envelope = the_Envelope,
      Document_MessageKinds = [''proposal'',
                             ''question'',
                             ''reply'',
                             ''accept'',
                             ''reject'',
                             ''announce''],
      Document_ContentHandling = the_ContentHandling,
      Document_Pairing = the_Pairing,
      Document_Limits = the_Limits,
      Document_Examples = buildExamples L aead\<rparr>"

end
