(* ===== verification/DiscoveryFacts.thy ===== *)
theory DiscoveryFacts
  imports Discovery PairflowFacts MailboxProps
begin

text \<open>
  The published document against the handlers: the derivation of path ids, the example
  halves and envelope, and the limits it advertises.
\<close>

section \<open>The seeds\<close>

lemma hex_replicate:
  "hex_val a = Some x \<Longrightarrow> hex_val b = Some y \<Longrightarrow>
   hex_DecodeString (concat (replicate n [a, b])) = Some (replicate n (of_nat (16 * x + y)))"
  by (induction n) simp_all

lemma replicate_pairs: "replicate (2 * n) c = concat (replicate n [c, c])"
  by (induction n) simp_all

lemma seeds: "hex_DecodeString aliceSeedHex = Some (replicate 32 0)" "hex_DecodeString bobSeedHex = Some (replicate 32 1)"
proof -
  have v: "hex_val CHR ''0'' = Some 0" "hex_val CHR ''1'' = Some 1" by (simp_all add: hex_val_def)
  have "aliceSeedHex = concat (replicate 32 [CHR ''0'', CHR ''0''])"
    using replicate_pairs [of 32 "CHR ''0''"] by (simp add: aliceSeedHex_def)
  then show "hex_DecodeString aliceSeedHex = Some (replicate 32 0)" using hex_replicate [OF v(1) v(1), of 32] by simp
  show "hex_DecodeString bobSeedHex = Some (replicate 32 1)" using hex_replicate [OF v(1) v(2), of 32] by (simp add: bobSeedHex_def)
qed

abbreviation aliceKey :: "'k ed_lib \<Rightarrow> 'k" where "aliceKey L \<equiv> NewKeyFromSeed L (replicate 32 0)"
abbreviation bobKey :: "'k ed_lib \<Rightarrow> 'k" where "bobKey L \<equiv> NewKeyFromSeed L (replicate 32 1)"

lemma keys:
  "mustEdKey L aliceSeedHex = Some (RawURLEncode (Public L (aliceKey L)), aliceKey L)"
  "mustEdKey L bobSeedHex = Some (RawURLEncode (Public L (bobKey L)), bobKey L)"
  "alicePubB64u L = RawURLEncode (Public L (aliceKey L))" "alicePrivKey L = aliceKey L"
  "bobPubB64u L = RawURLEncode (Public L (bobKey L))"
  by (simp_all add: mustEdKey_def seeds alicePubB64u_def alicePrivKey_def bobPubB64u_def Let_def)

section \<open>Path ids\<close>

lemma go_compare_less: "go_compare a b < 0 \<longleftrightarrow> a < b"
  by (induction a b rule: go_compare.induct) (auto simp: Nil_less_iff)

lemma raw_RawURLEncode: "raw_quanta (RawURLEncode bs) = bs"
proof (induction bs rule: RawURLEncode.induct)
  case (2 a)
  then show ?case using byte_join [of 0 a] by (simp add: byte_parts byte_digits)
next
  case (3 a b)
  have b: "unat b mod 16 * 4 div 4 = unat b mod 16"
    "(unat a mod 4 * 16 + unat b div 16) mod 16 = unat b div 16"
    using byte_parts [of b] by simp_all
  show ?case using byte_join [of "unat b div 16" a] byte_parts [of b]
    by (simp add: byte_parts byte_digits b)
next
  case (4 a b c r)
  have "(unat a mod 4 * 16 + unat b div 16) mod 16 = unat b div 16"
    "(unat b mod 16 * 4 + unat c div 64) div 4 = unat b mod 16"
    "(unat b mod 16 * 4 + unat c div 64) mod 4 = unat c div 64"
    using byte_parts [of b] byte_parts [of c] by simp_all
  then show ?case
    using 4 byte_join [of "unat b div 16" a] byte_parts [of a] byte_parts [of b] byte_parts [of c]
    by (simp add: byte_digits)
qed simp

lemma RawURLDecode_Encode [simp]: "RawURLDecode (RawURLEncode bs) = bs"
  using filter_b64 [OF RawURLEncode_chars [of bs]] raw_RawURLEncode by (simp add: RawURLDecode_def)

lemma derive_compute: "derivePathID a b = computePathID (RawURLDecode a) (RawURLDecode b)"
  by (cases "RawURLDecode a" "RawURLDecode b" rule: linorder_cases)
    (auto simp: derivePathID_def computePathID_def go_compare_less bytesLess_less Let_def)

text \<open>
  The document derives path ids as the pair flow does: for any two keys, the
  documented derivation from their base64url forms is the path id approval computes,
  and its order of the two keys, written with a three-way comparison, is the handler's.
\<close>

theorem derivePathID_equivalent:
  "derivePathID (RawURLEncode a) (RawURLEncode b) = computePathID a b
   \<and> (go_compare a b < 0 \<longleftrightarrow> bytesLess a b) \<and> (go_compare a b = 0 \<longleftrightarrow> a = b)"
proof -
  have "go_compare a b = 0 \<longleftrightarrow> a = b" by (induction a b rule: go_compare.induct) auto
  then show ?thesis by (simp add: derive_compute go_compare_less bytesLess_less)
qed

section \<open>The example halves\<close>

text \<open>What the signing library promises: its sizes, and that its own signatures verify.\<close>

definition signs :: "ed_verify \<Rightarrow> 'k ed_lib \<Rightarrow> bool" where
  "signs ed L \<longleftrightarrow> (\<forall>k m. length (Public L k) = PublicKeySize \<and> length (Sign L k m) = SignatureSize \<and> ed (Public L k) m (Sign L k m))"

lemma signsD: "signs ed L \<Longrightarrow> length (Public L k) = PublicKeySize" "signs ed L \<Longrightarrow> length (Sign L k m) = SignatureSize"
  "signs ed L \<Longrightarrow> ed (Public L k) m (Sign L k m)"
  by (auto simp: signs_def)

text \<open>A half as its JSON members give it.\<close>

definition half_of_wire :: "(string \<times> string) list \<Rightarrow> half" where
  "half_of_wire ms = half_of_fields (\<lambda>k. case map_of ms k of None \<Rightarrow> [] | Some v \<Rightarrow> v)"

definition published_half :: "'k ed_lib \<Rightarrow> string \<Rightarrow> string \<Rightarrow> string \<Rightarrow> half" where
  "published_half L dhalg dhpub sig = \<lparr>NexusID = exampleNexusID, HalfSigAlg = ''ed25519'', Pubkey = alicePubB64u L,
     HalfDhAlg = dhalg, DhPubkey = dhpub, Endpoint = exampleEndpoint, Nonce = exampleNonce, HalfTs = exampleTs,
     SelfSig = sig, pubkeyRaw = []\<rparr>"

lemma published_wires:
  "half_of_wire (ExamplePairHalfVersion_WireJSON (the_ExamplePairHalfVersion_V2 L))
     = published_half L exampleDhAlg exampleAliceDhPubB64u (examplePreimageSigV2 L)"
  "half_of_wire (ExamplePairHalfVersion_WireJSON (the_ExamplePairHalfVersion_V1 L))
     = published_half L [] [] (examplePreimageSigV1 L)"
  by (simp_all add: half_of_wire_def half_of_fields_def published_half_def the_ExamplePairHalfVersion_V2_def
      the_ExamplePairHalfVersion_V1_def)

lemma RawURLEncode_not_Nil: "0 < length bs \<Longrightarrow> RawURLEncode bs \<noteq> []"
  by (cases bs rule: RawURLEncode.cases) auto

lemma dh_decodes: "pf_decodeB64URL exampleAliceDhPubB64u \<noteq> None"
  by code_simp

lemma published_parses:
  assumes "signs ed L" "sig \<noteq> []"
    and "dhalg = [] \<and> dhpub = [] \<or> dhalg = exampleDhAlg \<and> dhpub = exampleAliceDhPubB64u"
  shows "parseHalf (published_half L dhalg dhpub sig) = Inr (published_half L dhalg dhpub sig \<lparr>pubkeyRaw := Public L (aliceKey L)\<rparr>)"
proof -
  have "0 < length (Public L (aliceKey L))" using signsD(1) [OF assms(1)] by (simp add: PublicKeySize_def)
  then have pub: "pf_decodeB64URL (alicePubB64u L) = Some (Public L (aliceKey L))" "alicePubB64u L \<noteq> []"
    by (simp_all add: keys pf_decodeB64URL_def URLDecode_RawURLEncode RawURLEncode_not_Nil)
  have c: "exampleNexusID \<noteq> []" "exampleNonce \<noteq> []" "exampleTs \<noteq> []" "length exampleNexusID \<le> 256" "length exampleEndpoint \<le> 1024"
    "exampleDhAlg \<noteq> []" "length exampleDhAlg \<le> 32" "exampleAliceDhPubB64u \<noteq> []" "length exampleAliceDhPubB64u \<le> 256"
    by (simp_all add: exampleNexusID_def exampleNonce_def exampleTs_def exampleEndpoint_def exampleDhAlg_def exampleAliceDhPubB64u_def)
  show ?thesis using assms(2,3) pub c dh_decodes signsD(1) [OF assms(1), of "aliceKey L"]
    by (auto simp: parseHalf_def published_half_def)
qed

text \<open>
  The published pair halves are good: with any signing library whose signatures
  verify, both example halves pass the handlers' field checks and their self-signature
  check, the current one over the preimage with the key-agreement key and the
  deprecated one over the preimage without it.
\<close>

theorem published_halves_verify:
  assumes "signs ed L"
  shows "(\<exists>h. parseHalf (half_of_wire (ExamplePairHalfVersion_WireJSON (the_ExamplePairHalfVersion_V2 L))) = Inr h
      \<and> verifySelfSig ed h \<and> canonicalBytesV2 h = examplePreimageV2 L)
    \<and> (\<exists>h. parseHalf (half_of_wire (ExamplePairHalfVersion_WireJSON (the_ExamplePairHalfVersion_V1 L))) = Inr h
      \<and> verifySelfSig ed h \<and> canonicalBytesV1 h = examplePreimageV1 L)"
proof -
  have "0 < length (Sign L k m)" for k m using signsD(2) [OF assms] by (simp add: SignatureSize_def)
  then have sig: "pf_decodeB64URL (signPreimage L k m) = Some (Sign L k (to_bytes m))" "signPreimage L k m \<noteq> []" for k m
    by (simp_all add: signPreimage_def pf_decodeB64URL_def URLDecode_RawURLEncode RawURLEncode_not_Nil)
  let ?h2 = "published_half L exampleDhAlg exampleAliceDhPubB64u (examplePreimageSigV2 L) \<lparr>pubkeyRaw := Public L (aliceKey L)\<rparr>"
  let ?h1 = "published_half L [] [] (examplePreimageSigV1 L) \<lparr>pubkeyRaw := Public L (aliceKey L)\<rparr>"
  have pre: "canonicalBytesV2 ?h2 = examplePreimageV2 L" "canonicalBytesV1 ?h1 = examplePreimageV1 L"
    by (simp_all add: canonicalBytesV2_def canonicalBytesV1_def published_half_def examplePreimageV2_def examplePreimageV1_def
        buildPreimageV2_def buildPreimageV1_def)
  have dh: "exampleAliceDhPubB64u \<noteq> []" by (simp add: exampleAliceDhPubB64u_def)
  have v2: "verifySelfSig ed ?h2"
    using dh signsD(2,3) [OF assms] pre(1)
    by (simp add: verifySelfSig_def published_half_def [THEN arg_cong [where f = SelfSig]]
        published_half_def [THEN arg_cong [where f = DhPubkey]] examplePreimageSigV2_def sig keys)
  have v1: "verifySelfSig ed ?h1"
    using signsD(2,3) [OF assms] pre(2)
    by (simp add: verifySelfSig_def published_half_def [THEN arg_cong [where f = SelfSig]]
        published_half_def [THEN arg_cong [where f = DhPubkey]] examplePreimageSigV1_def sig keys)
  have "parseHalf (published_half L exampleDhAlg exampleAliceDhPubB64u (examplePreimageSigV2 L)) = Inr ?h2"
    "parseHalf (published_half L [] [] (examplePreimageSigV1 L)) = Inr ?h1"
    by (rule published_parses [OF assms]; simp add: examplePreimageSigV2_def examplePreimageSigV1_def sig)+
  then show ?thesis unfolding published_wires using pre v1 v2 by blast
qed

section \<open>The example envelope\<close>

definition verbatim :: "char \<Rightarrow> bool" where
  "verbatim c \<longleftrightarrow> 32 \<le> (of_char c :: nat) \<and> (of_char c :: nat) < 128 \<and> c \<noteq> CHR 0x22 \<and> c \<noteq> CHR 0x5C"

lemma escape_verbatim: "list_all verbatim s \<Longrightarrow> escape False s = s"
proof (induction s)
  case (Cons c s)
  then have "rune_len (c # s) = 1" unfolding rune_len_1 by (simp add: verbatim_def)
  moreover have "escape_ascii False c = [c]"
    using Cons.prems by (auto simp: verbatim_def escape_ascii_def Let_def)
  ultimately show ?case using Cons by (simp add: Let_def)
qed simp

lemma quote_verbatim: "list_all verbatim s \<Longrightarrow> quote False s = CHR 0x22 # s @ [CHR 0x22]"
  by (simp add: quote_def escape_verbatim)

lemma verbatim_b64: "b64_char c \<Longrightarrow> verbatim c"
  by (auto simp: verbatim_def b64_char_def b64_val_def Let_def split: if_splits)

lemma verbatim_hex: "hex_char c \<Longrightarrow> verbatim c"
  by (auto simp: verbatim_def hex_char_def Let_def)

definition published_envelope :: "'k ed_lib \<Rightarrow> bytes \<Rightarrow> OuterEnvelope" where
  "published_envelope L ct = \<lparr>Version = ''1'', EnvMsgID = outer_msgID, Ts = ''2026-04-30T00:00:00Z'',
     EnvPathID = examplePathID L, CiphertextSHA256 = hex_EncodeToString (sha256 ct), EnvCiphertext = ciphertextB64\<rparr>"

lemma ciphertext_decodes:
  "\<exists>ct. StdDecodeString ciphertextB64 = Some ct \<and> base64urlDecode ciphertextB64 = Some ct"
proof -
  have "map std_to_url ciphertextB64 = ciphertextB64" "pad_b64 ciphertextB64 = ciphertextB64" by code_simp+
  moreover have "URLDecodeString ciphertextB64 \<noteq> None" by code_simp
  ultimately show ?thesis by (auto simp: StdDecodeString_def base64urlDecode_def)
qed

lemma published_fields:
  "list_all verbatim ciphertextB64" "list_all verbatim (hex_EncodeToString (sha256 ct))" "list_all verbatim outer_msgID"
  "list_all verbatim (examplePathID L)" "list_all verbatim ''2026-04-30T00:00:00Z''" "list_all verbatim ''1''"
proof -
  show "list_all verbatim ciphertextB64" "list_all verbatim outer_msgID" "list_all verbatim ''2026-04-30T00:00:00Z''" "list_all verbatim ''1''"
    by code_simp+
  show "list_all verbatim (hex_EncodeToString (sha256 ct))"
    using hex_chars [of "sha256 ct"] by (auto simp: list_all_iff verbatim_hex)
  have "list_all verbatim ''nxc_''" by code_simp
  then show "list_all verbatim (examplePathID L)"
    using RawURLEncode_chars by (auto simp: examplePathID_def derivePathID_def Let_def list_all_iff verbatim_b64 split: prod.splits)
qed

lemma published_canonical:
  assumes "StdDecodeString ciphertextB64 = Some ct"
  shows "exampleOuterCanonical L = canonicalJSON (published_envelope L ct)"
proof -
  have "list_all verbatim ''ciphertext''" "list_all verbatim ''ciphertext_sha256''" "list_all verbatim ''msg_id''"
    "list_all verbatim ''path_id''" "list_all verbatim ''ts''" "list_all verbatim ''version''"
    by code_simp+
  note q = published_fields [unfolded examplePathID_def, THEN quote_verbatim] this [THEN quote_verbatim]
  show ?thesis
    by (simp add: exampleOuterCanonical_def buildExampleOuter_def assms canonicalJSON_render canonical_members_def
        published_envelope_def render_strings_def q Let_def examplePathID_def)
qed

lemma utf8_verbatim: "list_all verbatim s \<Longrightarrow> valid_utf8 s"
  by (rule valid_utf8_ascii) (simp add: list_all_iff verbatim_def)

lemma published_utf8: "utf8_env (published_envelope L ct)"
  using published_fields [THEN utf8_verbatim] by (simp add: utf8_env_def published_envelope_def del: valid_utf8.simps)

lemma published_path: "pathIDRegex (examplePathID L)" "length (examplePathID L) = 47"
  using computePathID_pathID by (simp_all add: examplePathID_def derive_compute pathIDRegex_def)

lemma published_short: "StdDecodeString ciphertextB64 = Some ct \<Longrightarrow> length (exampleOuterCanonical L) \<le> putLimit"
proof -
  assume ct: "StdDecodeString ciphertextB64 = Some ct"
  have "length ciphertextB64 = 120" "length outer_msgID = 36" by (simp_all add: ciphertextB64_def outer_msgID_def)
  then show ?thesis using published_path(2) [of L]
    by (simp add: exampleOuterCanonical_def buildExampleOuter_def ct putLimit_def Let_def examplePathID_def)
qed

text \<open>
  C30. The published envelope is what the mailbox accepts: its canonical JSON is the
  handler's, it passes every check of a PUT to the published path, and its published
  signature identifies the sender, so inside the replay window it is admitted in the
  requester's direction.
\<close>

theorem published_envelope_accepted:
  assumes "signs ed L" "body r = exampleOuterCanonical L" "\<not> bodyBroken r"
    and "Get (hdr r) ''X-Nexus-Signature'' = exampleOuterSig L"
    and "SigAlg p = ''ed25519''" "RequesterPubkey p = alicePubB64u L" "tsInWindow exampleTs t"
  shows "\<exists>env. put_parse r (examplePathID L) = Inr (exampleOuterCanonical L, env)
    \<and> put_admit (EdVerifier_Identify ed) p r env t = Inr AToB"
proof -
  obtain ct where ct: "StdDecodeString ciphertextB64 = Some ct" "base64urlDecode ciphertextB64 = Some ct"
    using ciphertext_decodes by blast
  let ?e = "published_envelope L ct"
  note can = published_canonical [OF ct(1), of L]
  have id: "uuidv7Regex outer_msgID" by code_simp
  have "validEnvelopeSchema ?e"
    using published_path(2) [of L]
    by (auto simp: validEnvelopeSchema_def published_envelope_def outer_msgID_def ciphertextB64_def length_0_conv [symmetric]
        simp del: length_0_conv)
  then have parse: "put_parse r (examplePathID L) = Inr (exampleOuterCanonical L, ?e)"
    using unmarshal_canonicalJSON [OF published_utf8 [of L ct]] published_short [OF ct(1), of L] id assms(2,3)
    by (simp add: put_parse_def readLimited_def can) (simp add: published_envelope_def)
  have len: "0 < length (Public L (aliceKey L))" "0 < length (Sign L (aliceKey L) m)" for m
    using signsD(1,2) [OF assms(1)] by (simp_all add: PublicKeySize_def SignatureSize_def)
  have key: "decodeB64URL (alicePubB64u L) = Some (Public L (aliceKey L))" "alicePubB64u L \<noteq> []"
    using len by (simp_all add: keys decodeB64URL_def URLDecode_RawURLEncode RawURLEncode_not_Nil)
  have sig: "decodeB64URL (exampleOuterSig L) = Some (Sign L (aliceKey L) (to_bytes (exampleOuterCanonical L)))" "exampleOuterSig L \<noteq> []"
    using len by (simp_all add: keys exampleOuterSig_def signCanonical_def decodeB64URL_def URLDecode_RawURLEncode RawURLEncode_not_Nil)
  have "EdVerifier_Identify ed p (exampleOuterSig L) (canonicalJSON ?e) = Inr (alicePubB64u L)"
    using sig key signsD [OF assms(1)] assms(5,6) by (simp add: EdVerifier_Identify_def can)
  moreover have "tsInWindow (Ts ?e) t" "EnvCiphertext ?e = ciphertextB64" "CiphertextSHA256 ?e = hex_EncodeToString (sha256 ct)"
    using assms(7) by (simp_all add: published_envelope_def exampleTs_def)
  ultimately have "put_admit (EdVerifier_Identify ed) p r ?e t = Inr AToB"
    using key(2) assms(4,6) ct(2) by (simp add: put_admit_def directionFrom_def AToB_def)
  then show ?thesis using parse by blast
qed

section \<open>Advertised limits\<close>

text \<open>
  What the document advertises and what the handlers enforce: the replay windows of
  both handlers and the life time of a request are the advertised ones and a half with
  a signing algorithm that is not advertised is refused; but any label of up to 32
  bytes passes for the key agreement, not only the advertised ones.
\<close>

theorem advertised_limits:
  "replayWindow = Limits_ReplayWindowSeconds (Document_Limits (discovery_New L aead own)) * Second
   \<and> pf_replayWindow = replayWindow
   \<and> requestTTL = Pairing_RequestTTLHours (Document_Pairing (discovery_New L aead own)) * Hour
   \<and> (HalfSigAlg h \<notin> set (Signing_Algorithms (Crypto_Signing (Document_Crypto (discovery_New L aead own))))
       \<longrightarrow> (\<exists>code. parseHalf h = Inl code))
   \<and> Endpoints_PairApprove (Document_Endpoints (discovery_New L aead own)) = None
   \<and> ''X448'' \<notin> set (Encryption_KeyExchangeValues (Crypto_Encryption (Document_Crypto (discovery_New L aead own))))
   \<and> (parseHalf h = Inr h' \<longrightarrow> HalfDhAlg h \<noteq> [] \<longrightarrow> parseHalf (h\<lparr>HalfDhAlg := ''X448''\<rparr>) = Inr (h'\<lparr>HalfDhAlg := ''X448''\<rparr>))"
proof -
  have d: "Document_Limits (discovery_New L aead own) = the_Limits" "Document_Pairing (discovery_New L aead own) = the_Pairing"
    "Crypto_Signing (Document_Crypto (discovery_New L aead own)) = the_Signing"
    "Crypto_Encryption (Document_Crypto (discovery_New L aead own)) = the_Encryption"
    "Document_Endpoints (discovery_New L aead own) = the_Endpoints"
    by (simp_all add: discovery_New_def the_Crypto_def)
  have "Limits_ReplayWindowSeconds the_Limits = 300" "Pairing_RequestTTLHours the_Pairing = 24"
    "Signing_Algorithms the_Signing = [''ed25519'']" "Encryption_KeyExchangeValues the_Encryption = [''P-256'', ''X25519'']"
    "Endpoints_PairApprove the_Endpoints = None"
    by (simp_all only: the_Limits_def the_Pairing_def the_Signing_def the_Encryption_def the_Endpoints_def
        dLimits.simps dPairing.simps dSigning.simps dEncryption.simps dEndpoints.simps)
  moreover have "\<exists>code. parseHalf h = Inl code" if "HalfSigAlg h \<noteq> ''ed25519''"
    using that by (auto simp: parseHalf_def)
  moreover have "parseHalf (h\<lparr>HalfDhAlg := ''X448''\<rparr>) = Inr (h'\<lparr>HalfDhAlg := ''X448''\<rparr>)"
    if "parseHalf h = Inr h'" "HalfDhAlg h \<noteq> []"
    using that by (auto simp: parseHalf_def split: option.splits if_splits)
  ultimately show ?thesis
    by (simp add: d replayWindow_def pf_replayWindow_def requestTTL_def duration_defs)
qed

end
