(* ===== verification/AeadExample.thy ===== *)
theory AeadExample
  imports P256 AesGcm DiscoveryFacts
begin

text \<open>
  \<open>example_aead.go\<close>: the worked encryption example of the discovery document, from two
  fixed scalars to the wire ciphertext.  \<open>golang.org/x/crypto/hkdf\<close> is the argument
  \<open>hkdf\<close>: the first \<open>n\<close> bytes for a secret, a salt and an info string, or None for a
  read error.  A panic at startup is None.
\<close>

section \<open>The vector\<close>

type_synonym hkdf = "bytes \<Rightarrow> bytes \<Rightarrow> bytes \<Rightarrow> nat \<Rightarrow> bytes option"

definition exampleAEADInfo :: string where "exampleAEADInfo = ''nexus-casket-channel-v1''"
definition exampleNonceSize :: nat where "exampleNonceSize = 12"
definition exampleAEADPlaintext :: string where
  "exampleAEADPlaintext = ''{'' @ [CHR 0x22] @ ''origin_nexus'' @ [CHR 0x22] @ '':'' @ [CHR 0x22] @ ''alice-nexus'' @ [CHR 0x22] @ '',''
     @ [CHR 0x22] @ ''dest_nexus'' @ [CHR 0x22] @ '':'' @ [CHR 0x22] @ ''bob-nexus'' @ [CHR 0x22] @ '',''
     @ [CHR 0x22] @ ''kind'' @ [CHR 0x22] @ '':'' @ [CHR 0x22] @ ''proposal'' @ [CHR 0x22] @ '','' @ [CHR 0x22]
     @ ''content_type'' @ [CHR 0x22] @ '':'' @ [CHR 0x22] @ ''text/markdown'' @ [CHR 0x22] @ '','' @ [CHR 0x22]
     @ ''body'' @ [CHR 0x22] @ '':'' @ [CHR 0x22] @ ''Hello, Bob. This is a test message.'' @ [CHR 0x22] @ '',''
     @ [CHR 0x22] @ ''attachments'' @ [CHR 0x22] @ '':[]}''"
definition exampleAEADMsgID :: string where "exampleAEADMsgID = ''01979b0a-c0de-7eef-a000-000000000001''"
definition exampleAEADNonceHex :: string where "exampleAEADNonceHex = ''000102030405060708090a0b''"
definition exampleAlicePrivHex :: string where "exampleAlicePrivHex = replicate 63 CHR ''0'' @ ''1''"
definition exampleBobPrivHex :: string where "exampleBobPrivHex = replicate 63 CHR ''0'' @ ''2''"

record AEADExample =
  AEAD_Note :: string
  AlicePrivHex :: string
  AlicePubB64u :: string
  BobPrivHex :: string
  BobPubB64u :: string
  SharedSecretHex :: string
  SymKeyHex :: string
  HKDFInfo :: string
  HKDFSaltHex :: string
  AEAD_PathID :: string
  AEAD_MsgID :: string
  AADHex :: string
  NonceHex :: string
  Plaintext :: string
  CiphertextWithTagHex :: string
  WireCiphertextHex :: string
  WireCiphertextB64 :: string
  CiphertextSHA256Hex :: string
  VerifyHint :: string

definition mustECDHFromHex :: "string \<Rightarrow> ecdh_key option" where
  "mustECDHFromHex hexStr =
     (case hex_DecodeString hexStr of
        None \<Rightarrow> None
      | Some k \<Rightarrow> if length k \<noteq> 32 then None else NewPrivateKey k)"

definition aead_note :: string where
  "aead_note = ''Self-contained AEAD vector. An external implementer reproduces this by computing ECDH P-256 ''
     @ ''between the published alice and bob private scalars, running HKDF-SHA256 over the shared secret ''
     @ ''with the published salt + info to derive a 32-byte AES-256-GCM key, then encrypting the published ''
     @ ''plaintext with the published 12-byte nonce and AAD = utf8(path_id) || utf8(msg_id). The output ''
     @ ''should match wire_ciphertext_hex byte-for-byte.''"

definition aead_hint :: string where
  "aead_hint = ''To verify: AES-256-GCM Open(key=derived_aes256gcm_key_hex, nonce=nonce_hex, aad=aad_hex, ciphertext+tag=ciphertext_with_tag_hex) ''
     @ ''should return the plaintext byte-for-byte.''"

definition computeAEADExample :: "hkdf \<Rightarrow> 'k ed_lib \<Rightarrow> AEADExample option" where
  "computeAEADExample hkdf L =
     Option.bind (mustECDHFromHex exampleAlicePrivHex) (\<lambda>alicePriv.
     Option.bind (mustECDHFromHex exampleBobPrivHex) (\<lambda>bobPriv.
     let alicePubBytes = PublicBytes (PublicPoint alicePriv); bobPubBytes = PublicBytes (PublicPoint bobPriv) in
     Option.bind (ECDH alicePriv (PublicPoint bobPriv)) (\<lambda>shared.
     let salt = replicate 32 0 in
     Option.bind (hkdf shared salt (to_bytes exampleAEADInfo) 32) (\<lambda>symKey.
     let pathID = derivePathID (alicePubB64u L) (bobPubB64u L); aad = to_bytes (pathID @ exampleAEADMsgID) in
     Option.bind (hex_DecodeString exampleAEADNonceHex) (\<lambda>nonce.
     if length nonce \<noteq> exampleNonceSize then None else
     Option.bind (aes_NewCipher symKey) (\<lambda>block.
     Option.bind (gcm_Seal block nonce (to_bytes exampleAEADPlaintext) aad) (\<lambda>ctWithTag.
     let wireCt = nonce @ ctWithTag; wireSha = sha256 wireCt in
     Some \<lparr>AEAD_Note = aead_note,
       AlicePrivHex = exampleAlicePrivHex, AlicePubB64u = RawURLEncode alicePubBytes,
       BobPrivHex = exampleBobPrivHex, BobPubB64u = RawURLEncode bobPubBytes,
       SharedSecretHex = hex_EncodeToString shared, SymKeyHex = hex_EncodeToString symKey,
       HKDFInfo = exampleAEADInfo, HKDFSaltHex = hex_EncodeToString salt,
       AEAD_PathID = pathID, AEAD_MsgID = exampleAEADMsgID, AADHex = hex_EncodeToString aad,
       NonceHex = exampleAEADNonceHex, Plaintext = exampleAEADPlaintext,
       CiphertextWithTagHex = hex_EncodeToString ctWithTag, WireCiphertextHex = hex_EncodeToString wireCt,
       WireCiphertextB64 = RawURLEncode wireCt, CiphertextSHA256Hex = hex_EncodeToString wireSha,
       VerifyHint = aead_hint\<rparr>)))))))"

section \<open>Its inputs\<close>

lemma hex_Decode_Encode [simp]: "hex_DecodeString (hex_EncodeToString bs) = Some bs"
proof (induction bs)
  case (Cons b bs)
  have "unat b div 16 < 16" using unat_byte_less [of b] by (simp add: div_less_iff_less_mult)
  moreover have "16 * (unat b div 16) + unat b mod 16 = unat b" by simp
  then have "(of_nat (16 * (unat b div 16) + unat b mod 16) :: byte) = b" using unat_byte_less [of b] by (simp only: unat_of_nat word_unat_eq_iff) simp
  ultimately show ?case using Cons
    by (simp add: hex_EncodeToString_def hex_byte_def hex_val_digit del: of_nat_add of_nat_mult)
qed (simp add: hex_EncodeToString_def)

lemma alice_scalar: "mustECDHFromHex exampleAlicePrivHex = Some 1"
proof -
  have "hex_DecodeString exampleAlicePrivHex = Some (replicate 31 0 @ [1])" by code_simp
  moreover have "int_of_bytes (replicate 31 0 @ [1]) = 1" by code_simp
  ultimately show ?thesis by (simp add: mustECDHFromHex_def NewPrivateKey_def p256_n_def)
qed

lemma bob_scalar: "mustECDHFromHex exampleBobPrivHex = Some 2"
proof -
  have "hex_DecodeString exampleBobPrivHex = Some (replicate 31 0 @ [2])" by code_simp
  moreover have "int_of_bytes (replicate 31 0 @ [2]) = 2" by code_simp
  ultimately show ?thesis by (simp add: mustECDHFromHex_def NewPrivateKey_def p256_n_def)
qed

lemma example_points: "PublicPoint 1 = p256_G" "PublicPoint 2 = padd p256_G p256_G"
  by (simp_all add: PublicPoint_def)

text \<open>Both sides compute the same secret: the x-coordinate of twice the generator.\<close>

lemma example_shared:
  obtains shared where "ECDH 1 (PublicPoint 2) = Some shared" "ECDH 2 (PublicPoint 1) = Some shared" "length shared = 32"
proof -
  obtain x y where "padd p256_G p256_G = Affine x y" using double_G by blast
  then have "ECDH 1 (PublicPoint 2) = Some (coordinate x)" "ECDH 2 (PublicPoint 1) = Some (coordinate x)"
    unfolding example_points by (simp_all add: ECDH_def)
  then show ?thesis by (rule that) simp
qed

definition example_nonce_bytes :: bytes where "example_nonce_bytes = [0, 1, 2, 3, 4, 5, 6, 7, 8, 9, 10, 11]"

lemma example_nonce: "hex_DecodeString exampleAEADNonceHex = Some example_nonce_bytes" "length example_nonce_bytes = 12"
  by code_simp+

section \<open>The vector is good\<close>

abbreviation example_aad :: "'k ed_lib \<Rightarrow> string" where
  "example_aad L \<equiv> derivePathID (alicePubB64u L) (bobPubB64u L) @ exampleAEADMsgID"

text \<open>What the documentation of HKDF promises: a reader of up to 255 digests.\<close>

definition hkdf_reads :: "hkdf \<Rightarrow> bool" where
  "hkdf_reads hkdf \<longleftrightarrow> (\<forall>secret salt info n. n \<le> 255 * 32 \<longrightarrow> (\<exists>k. hkdf secret salt info n = Some k \<and> length k = n))"

lemma computed:
  assumes "hkdf_reads hkdf"
  obtains v shared key sealed E where "computeAEADExample hkdf L = Some v"
    "ECDH 1 (PublicPoint 2) = Some shared" "ECDH 2 (PublicPoint 1) = Some shared"
    "hkdf shared (replicate 32 0) (to_bytes exampleAEADInfo) 32 = Some key" "aes_NewCipher key = Some E"
    "gcm_Seal E example_nonce_bytes (to_bytes exampleAEADPlaintext) (to_bytes (example_aad L)) = Some sealed"
    "AlicePrivHex v = exampleAlicePrivHex" "BobPrivHex v = exampleBobPrivHex"
    "AlicePubB64u v = RawURLEncode (PublicBytes (PublicPoint 1))" "BobPubB64u v = RawURLEncode (PublicBytes (PublicPoint 2))"
    "SharedSecretHex v = hex_EncodeToString shared" "SymKeyHex v = hex_EncodeToString key" "HKDFInfo v = exampleAEADInfo"
    "HKDFSaltHex v = hex_EncodeToString (replicate 32 0)" "AEAD_PathID v = derivePathID (alicePubB64u L) (bobPubB64u L)"
    "AEAD_MsgID v = exampleAEADMsgID" "AADHex v = hex_EncodeToString (to_bytes (example_aad L))"
    "NonceHex v = exampleAEADNonceHex" "Plaintext v = exampleAEADPlaintext" "CiphertextWithTagHex v = hex_EncodeToString sealed"
    "WireCiphertextHex v = hex_EncodeToString (example_nonce_bytes @ sealed)"
    "WireCiphertextB64 v = RawURLEncode (example_nonce_bytes @ sealed)"
    "CiphertextSHA256Hex v = hex_EncodeToString (sha256 (example_nonce_bytes @ sealed))"
proof -
  obtain shared where shared: "ECDH 1 (PublicPoint 2) = Some shared" "ECDH 2 (PublicPoint 1) = Some shared"
    by (rule example_shared)
  obtain key where key: "hkdf shared (replicate 32 0) (to_bytes exampleAEADInfo) 32 = Some key" "length key = 32"
    using assms [unfolded hkdf_reads_def, rule_format, of 32 "shared" "replicate 32 0" "to_bytes exampleAEADInfo"] by auto
  have E: "aes_NewCipher key = Some (aes_encrypt key)" by (simp add: aes_NewCipher_def key(2))
  obtain sealed where sealed: "gcm_Seal (aes_encrypt key) example_nonce_bytes (to_bytes exampleAEADPlaintext) (to_bytes (example_aad L))
      = Some sealed" by (simp add: gcm_Seal_def Let_def example_nonce(2) del: to_bytes_append)
  have "\<exists>v. computeAEADExample hkdf L = Some v \<and> AlicePrivHex v = exampleAlicePrivHex \<and> BobPrivHex v = exampleBobPrivHex
    \<and> AlicePubB64u v = RawURLEncode (PublicBytes (PublicPoint 1)) \<and> BobPubB64u v = RawURLEncode (PublicBytes (PublicPoint 2))
    \<and> SharedSecretHex v = hex_EncodeToString shared \<and> SymKeyHex v = hex_EncodeToString key \<and> HKDFInfo v = exampleAEADInfo
    \<and> HKDFSaltHex v = hex_EncodeToString (replicate 32 0) \<and> AEAD_PathID v = derivePathID (alicePubB64u L) (bobPubB64u L)
    \<and> AEAD_MsgID v = exampleAEADMsgID \<and> AADHex v = hex_EncodeToString (to_bytes (example_aad L))
    \<and> NonceHex v = exampleAEADNonceHex \<and> Plaintext v = exampleAEADPlaintext \<and> CiphertextWithTagHex v = hex_EncodeToString sealed
    \<and> WireCiphertextHex v = hex_EncodeToString (example_nonce_bytes @ sealed)
    \<and> WireCiphertextB64 v = RawURLEncode (example_nonce_bytes @ sealed)
    \<and> CiphertextSHA256Hex v = hex_EncodeToString (sha256 (example_nonce_bytes @ sealed))"
    by (simp add: computeAEADExample_def Let_def alice_scalar bob_scalar shared(1) key(1) E sealed example_nonce exampleNonceSize_def
        del: to_bytes_append append.simps One_nat_def)
  then show ?thesis using that [OF _ shared key(1) E sealed] by blast
qed

text \<open>
  C31. The published encryption vector is right: it is computed without a panic, and
  whoever starts from its published strings gets the published plaintext.  The two
  scalars give the two public keys, the shared secret comes out the same from either
  side, HKDF over it with the published salt and info gives the published key, and
  AES-256-GCM opens the published ciphertext under the published nonce with the
  concatenation of path id and message id as additional data.
\<close>

theorem aead_vector_opens:
  assumes "hkdf_reads hkdf"
  shows "\<exists>v a b shared salt key nonce sealed E. computeAEADExample hkdf L = Some v
    \<and> mustECDHFromHex (AlicePrivHex v) = Some a \<and> mustECDHFromHex (BobPrivHex v) = Some b
    \<and> AlicePubB64u v = RawURLEncode (PublicBytes (PublicPoint a)) \<and> BobPubB64u v = RawURLEncode (PublicBytes (PublicPoint b))
    \<and> ECDH a (PublicPoint b) = Some shared \<and> ECDH b (PublicPoint a) = Some shared
    \<and> hex_DecodeString (SharedSecretHex v) = Some shared \<and> hex_DecodeString (HKDFSaltHex v) = Some salt
    \<and> hkdf shared salt (to_bytes (HKDFInfo v)) 32 = Some key \<and> hex_DecodeString (SymKeyHex v) = Some key
    \<and> hex_DecodeString (NonceHex v) = Some nonce \<and> hex_DecodeString (CiphertextWithTagHex v) = Some sealed
    \<and> hex_DecodeString (AADHex v) = Some (to_bytes (AEAD_PathID v @ AEAD_MsgID v)) \<and> aes_NewCipher key = Some E
    \<and> gcm_Open E nonce sealed (to_bytes (AEAD_PathID v @ AEAD_MsgID v)) = Some (to_bytes (Plaintext v))"
proof -
  obtain v shared key sealed E where v: "computeAEADExample hkdf L = Some v"
    and sh: "ECDH 1 (PublicPoint 2) = Some shared" "ECDH 2 (PublicPoint 1) = Some shared"
    and key: "hkdf shared (replicate 32 0) (to_bytes exampleAEADInfo) 32 = Some key" "aes_NewCipher key = Some E"
    and sealed: "gcm_Seal E example_nonce_bytes (to_bytes exampleAEADPlaintext) (to_bytes (example_aad L)) = Some sealed"
    and f: "AlicePrivHex v = exampleAlicePrivHex" "BobPrivHex v = exampleBobPrivHex"
    "AlicePubB64u v = RawURLEncode (PublicBytes (PublicPoint 1))" "BobPubB64u v = RawURLEncode (PublicBytes (PublicPoint 2))"
    "SharedSecretHex v = hex_EncodeToString shared" "SymKeyHex v = hex_EncodeToString key" "HKDFInfo v = exampleAEADInfo"
    "HKDFSaltHex v = hex_EncodeToString (replicate 32 0)" "AEAD_PathID v = derivePathID (alicePubB64u L) (bobPubB64u L)"
    "AEAD_MsgID v = exampleAEADMsgID" "AADHex v = hex_EncodeToString (to_bytes (example_aad L))"
    "NonceHex v = exampleAEADNonceHex" "Plaintext v = exampleAEADPlaintext" "CiphertextWithTagHex v = hex_EncodeToString sealed"
    by (rule computed [OF assms, of L])
  note opens = Open_Seal(1) [OF aes_block_sized [OF key(2)] sealed]
  show ?thesis
    by (rule exI [of _ v], rule exI [of _ 1], rule exI [of _ 2], rule exI [of _ shared], rule exI [of _ "replicate 32 0"],
        rule exI [of _ key], rule exI [of _ example_nonce_bytes], rule exI [of _ sealed], rule exI [of _ E])
      (simp only: v sh key f opens alice_scalar bob_scalar example_nonce hex_Decode_Encode simp_thms)
qed

text \<open>
  The vector fits the mailbox: the published wire ciphertext decodes as the PUT
  handler decodes it, to the nonce followed by the sealed text, and has the published
  hash, and the path id and message id it is bound to have the syntax the handler asks for.
\<close>

theorem aead_vector_fits_mailbox:
  assumes "computeAEADExample hkdf L = Some v" "hkdf_reads hkdf"
  shows "\<exists>ct. base64urlDecode (WireCiphertextB64 v) = Some ct \<and> hex_DecodeString (WireCiphertextHex v) = Some ct
    \<and> hex_EncodeToString (sha256 ct) = CiphertextSHA256Hex v
    \<and> hex_DecodeString (NonceHex v) = Some (take 12 ct) \<and> hex_DecodeString (CiphertextWithTagHex v) = Some (drop 12 ct)
    \<and> length ct = 12 + length (Plaintext v) + 16
    \<and> pathIDRegex (AEAD_PathID v) \<and> uuidv7Regex (AEAD_MsgID v)"
proof -
  obtain sealed key E where key: "aes_NewCipher key = Some E"
    and sealed: "gcm_Seal E example_nonce_bytes (to_bytes exampleAEADPlaintext) (to_bytes (example_aad L)) = Some sealed"
    and f: "AEAD_PathID v = derivePathID (alicePubB64u L) (bobPubB64u L)"
    "AEAD_MsgID v = exampleAEADMsgID" "NonceHex v = exampleAEADNonceHex" "Plaintext v = exampleAEADPlaintext"
    "CiphertextWithTagHex v = hex_EncodeToString sealed" "WireCiphertextHex v = hex_EncodeToString (example_nonce_bytes @ sealed)"
    "WireCiphertextB64 v = RawURLEncode (example_nonce_bytes @ sealed)"
    "CiphertextSHA256Hex v = hex_EncodeToString (sha256 (example_nonce_bytes @ sealed))"
    using computed [OF assms(2), of L] assms(1) by (metis option.inject)
  have len: "length sealed = length exampleAEADPlaintext + 16"
    using Open_Seal(2) [OF aes_block_sized [OF key] sealed] by simp
  have "pathIDRegex (AEAD_PathID v)" unfolding f(1) by (simp add: derive_compute computePathID_pathID)
  moreover have "uuidv7Regex (AEAD_MsgID v)" unfolding f(2) exampleAEADMsgID_def by code_simp
  ultimately show ?thesis
    by (intro exI [of _ "example_nonce_bytes @ sealed"])
      (simp add: f len example_nonce base64urlDecode_def URLDecode_RawURLEncode)
qed

end
