(* ===== verification/JsonIndent.thy ===== *)
theory JsonIndent
  imports JsonFacts GoTime
begin

text \<open>
  The encoder of \<open>encoding/json\<close> for whole values, compact (\<open>json.Marshal\<close>) and
  indented (\<open>json.MarshalIndent\<close>), with the proof that the parser reads both back.
\<close>

section \<open>Encoding values\<close>

text \<open>None is the compact form, \<open>Some (prefix, indent)\<close> the arguments of \<open>MarshalIndent\<close>.\<close>

type_synonym layout = "(string \<times> string) option"

definition line_break :: "layout \<Rightarrow> nat \<Rightarrow> string" where
  "line_break l d =
     (case l of None \<Rightarrow> [] | Some (pre, indent) \<Rightarrow> CHR 0x0A # pre @ concat (replicate d indent))"

definition colon :: "layout \<Rightarrow> string" where
  "colon l = (if l = None then '':'' else '': '')"

fun separated :: "'a list \<Rightarrow> 'a list list \<Rightarrow> 'a list" where
  "separated sep [] = []"
| "separated sep [x] = x"
| "separated sep (x # y # xs) = x @ sep @ separated sep (y # xs)"

text \<open>
  \<open>d\<close> is the depth of the value.  A \<open>json.RawMessage\<close> is given as it stands, which is
  right for a compact text.
\<close>

fun render_json :: "bool \<Rightarrow> layout \<Rightarrow> nat \<Rightarrow> json \<Rightarrow> string" where
  "render_json html l d JNull = ''null''"
| "render_json html l d (JBool b) = (if b then ''true'' else ''false'')"
| "render_json html l d (JNum s) = s"
| "render_json html l d (JStr s) = quote html s"
| "render_json html l d (JRaw s) = s"
| "render_json html l d (JArr vs) =
     (if vs = [] then ''[]''
      else ''['' @ separated '','' (map (\<lambda>v. line_break l (Suc d) @ render_json html l (Suc d) v) vs)
         @ line_break l d @ '']'')"
| "render_json html l d (JObj ms) =
     (if ms = [] then ''{}''
      else ''{'' @ separated '','' (map (\<lambda>(k, v). line_break l (Suc d) @ quote html k @ colon l @ render_json html l (Suc d) v) ms)
         @ line_break l d @ ''}'')"

text \<open>Both escape \<open><\<close>, \<open>>\<close> and \<open>&\<close>.\<close>

definition Marshal :: "json \<Rightarrow> string" where
  "Marshal v = render_json True None 0 v"

definition MarshalIndent :: "json \<Rightarrow> string \<Rightarrow> string \<Rightarrow> string" where
  "MarshalIndent v pre indent = render_json True (Some (pre, indent)) 0 v"

text \<open>Integers in decimal.\<close>

definition Itoa :: "int \<Rightarrow> string" where
  "Itoa i = (if i < 0 then CHR ''-'' # dec (nat (- i)) else dec (nat i))"

section \<open>What is read back\<close>

text \<open>Ill-formed UTF-8 becomes the replacement character.\<close>

fun utf8_json :: "json \<Rightarrow> json" where
  "utf8_json (JStr s) = JStr (utf8_fix s)"
| "utf8_json (JArr vs) = JArr (map utf8_json vs)"
| "utf8_json (JObj ms) = JObj (map (\<lambda>(k, v). (utf8_fix k, utf8_json v)) ms)"
| "utf8_json v = v"

fun json_depth :: "json \<Rightarrow> nat" where
  "json_depth (JArr vs) = Suc (foldr (\<lambda>v n. max (json_depth v) n) vs 0)"
| "json_depth (JObj ms) = Suc (foldr (\<lambda>(k, v) n. max (json_depth v) n) ms 0)"
| "json_depth _ = 0"

text \<open>Values the encoder makes from Go structs, maps and slices: no raw messages, numbers of the grammar.\<close>

fun encodable :: "json \<Rightarrow> bool" where
  "encodable (JNum s) = valid_number s"
| "encodable (JRaw s) = False"
| "encodable (JArr vs) = list_all encodable vs"
| "encodable (JObj ms) = list_all (\<lambda>(k, v). encodable v) ms"
| "encodable _ = True"

fun json_toks :: "json \<Rightarrow> tok list" where
  "json_toks JNull = [TNull]"
| "json_toks (JBool b) = [if b then TTrue else TFalse]"
| "json_toks (JNum s) = [TNum s]"
| "json_toks (JStr s) = [TStr (utf8_fix s)]"
| "json_toks (JRaw s) = []"
| "json_toks (JArr vs) = TLBrack # separated [TComma] (map json_toks vs) @ [TRBrack]"
| "json_toks (JObj ms) = TLBrace # separated [TComma] (map (\<lambda>(k, v). TStr (utf8_fix k) # TColon # json_toks v) ms) @ [TRBrace]"

section \<open>Scanning\<close>

lemma lex_open:
  "lex LN (CHR ''['' # t) = map_option ((#) TLBrack) (lex LN t)"
  "lex LN (CHR '']'' # t) = map_option ((#) TRBrack) (lex LN t)"
  by (cases "lex LN t"; simp add: lex_run lex_start_def json_space_def)+

lemma lex_space: "json_space c \<Longrightarrow> lex LN (c # t) = lex LN t"
  by (cases "lex LN t") (simp_all add: lex_run lex_start_def)

lemma lex_spaces: "\<forall>c \<in> set s. json_space c \<Longrightarrow> lex LN (s @ t) = lex LN t"
  by (induction s) (simp_all add: lex_space)

text \<open>The texts a number or a literal may be followed by.\<close>

definition stops :: "string \<Rightarrow> bool" where
  "stops t \<longleftrightarrow> (case t of [] \<Rightarrow> True | c # _ \<Rightarrow> \<not> num_char c \<and> \<not> lower_letter c)"

lemma append_funs: "(@) (x # xs) = (\<lambda>ys. x # xs @ ys)" "(@) (xs @ zs) = (\<lambda>ys. xs @ zs @ ys)" for x :: 'a and xs zs :: "'a list"
  by (simp_all add: fun_eq_iff)

lemma lex_stop:
  "stops t \<Longrightarrow> num_tok acc = Some k \<Longrightarrow> lex (LNum acc) t = map_option ((#) k) (lex LN t)"
  "stops t \<Longrightarrow> lit_tok acc = Some k \<Longrightarrow> lex (LLit acc) t = map_option ((#) k) (lex LN t)"
proof -
  show "lex (LNum acc) t = map_option ((#) k) (lex LN t)" if "stops t" "num_tok acc = Some k"
  proof (cases t)
    case (Cons c t')
    then show ?thesis using that
      by (cases "lex_start c") (auto simp: stops_def lex_run option.map_comp comp_def append_funs split: option.splits)
  qed (use that in \<open>simp add: lex_end_def\<close>)
  show "lex (LLit acc) t = map_option ((#) k) (lex LN t)" if "stops t" "lit_tok acc = Some k"
  proof (cases t)
    case (Cons c t')
    then show ?thesis using that
      by (cases "lex_start c") (auto simp: stops_def lex_run option.map_comp comp_def append_funs split: option.splits)
  qed (use that in \<open>simp add: lex_end_def\<close>)
qed

lemma lex_letters: "\<forall>c \<in> set s. lower_letter c \<Longrightarrow> lex (LLit acc) (s @ t) = lex (LLit (rev s @ acc)) t"
proof (induction s arbitrary: acc)
  case (Cons c s)
  then show ?case by (cases "lex (LLit (rev s @ c # acc)) t") (simp_all add: lex_run)
qed simp

lemma lex_start_letter: "lower_letter c \<Longrightarrow> lex_start c = Some ([], LLit [c])"
proof -
  assume l: "lower_letter c"
  have "c \<notin> {CHR ''{'', CHR ''}'', CHR ''['', CHR '']'', CHR '':'', CHR '','', CHR 0x22, CHR ''-''}"
    using l by (auto simp: lower_letter_def byte_in_def)
  moreover have "\<not> dig c" "\<not> json_space c" using l by (auto simp: lower_letter_def dig_def byte_in_def json_space_def Let_def)
  ultimately show ?thesis using l by (simp add: lex_start_def)
qed

lemma lex_start_number: "dig c \<or> c = CHR ''-'' \<Longrightarrow> lex_start c = Some ([], LNum [c])"
proof -
  assume l: "dig c \<or> c = CHR ''-''"
  have "c \<notin> {CHR ''{'', CHR ''}'', CHR ''['', CHR '']'', CHR '':'', CHR '','', CHR 0x22}"
    using l by (auto simp: dig_def byte_in_def)
  moreover have "\<not> json_space c" using l by (auto simp: dig_def byte_in_def json_space_def Let_def)
  ultimately show ?thesis using l by (simp add: lex_start_def)
qed

lemma lex_literal:
  assumes "stops t"
  shows "lex LN (''null'' @ t) = map_option ((#) TNull) (lex LN t)"
    "lex LN (''true'' @ t) = map_option ((#) TTrue) (lex LN t)"
    "lex LN (''false'' @ t) = map_option ((#) TFalse) (lex LN t)"
proof -
  have start: "lex LN (c # s) = lex (LLit [c]) s" if "lower_letter c" for c s
    using lex_start_letter [OF that] by (cases "lex (LLit [c]) s") (simp_all add: lex_run)
  have ls: "lower_letter CHR ''n''" "lower_letter CHR ''t''" "lower_letter CHR ''f''"
    by (simp_all add: lower_letter_def byte_in_def)
  show "lex LN (''null'' @ t) = map_option ((#) TNull) (lex LN t)"
    using lex_letters [of "''ull''" "''n''" t] lex_stop(2) [OF assms, of "''llun''" TNull] start [OF ls(1)]
    by (simp add: lower_letter_def byte_in_def lit_tok_def)
  show "lex LN (''true'' @ t) = map_option ((#) TTrue) (lex LN t)"
    using lex_letters [of "''rue''" "''t''" t] lex_stop(2) [OF assms, of "''eurt''" TTrue] start [OF ls(2)]
    by (simp add: lower_letter_def byte_in_def lit_tok_def)
  show "lex LN (''false'' @ t) = map_option ((#) TFalse) (lex LN t)"
    using lex_letters [of "''alse''" "''f''" t] lex_stop(2) [OF assms, of "''eslaf''" TFalse] start [OF ls(3)]
    by (simp add: lower_letter_def byte_in_def lit_tok_def)
qed

lemma dig_dropWhile:
  assumes "\<forall>c \<in> set (dropWhile dig s). num_char c"
  shows "\<forall>c \<in> set s. num_char c"
proof -
  have "set s = set (takeWhile dig s) \<union> set (dropWhile dig s)"
    by (metis set_append takeWhile_dropWhile_id)
  moreover have "num_char c" if "c \<in> set (takeWhile dig s)" for c
    using set_takeWhileD [OF that] by (simp add: num_char_def)
  ultimately show ?thesis using assms by blast
qed

lemma digits1_chars:
  assumes "digits1 s = Some r" "\<forall>c \<in> set r. num_char c"
  shows "\<forall>c \<in> set s. num_char c"
proof -
  obtain c s' where s: "s = c # s'" "dig c" "r = dropWhile dig s'" using assms(1) by (auto simp: digits1_def split: list.splits if_splits)
  then have "\<forall>c \<in> set s'. num_char c" using assms(2) by (simp add: dig_dropWhile)
  then show ?thesis using s(1,2) by (simp add: num_char_def)
qed

lemma num_exponent_chars: "num_exponent s \<Longrightarrow> \<forall>c \<in> set s. num_char c"
proof (cases s)
  case (Cons e r)
  assume a: "num_exponent s"
  let ?r = "case r of d # r' \<Rightarrow> if d = CHR ''+'' \<or> d = CHR ''-'' then r' else r | [] \<Rightarrow> r"
  have "\<forall>c \<in> set ?r. num_char c" using a Cons digits1_chars [of ?r "[]"] by (simp add: num_exponent_def)
  moreover have "num_char e" using a Cons by (auto simp: num_exponent_def num_char_def)
  moreover have "set r \<subseteq> {CHR ''+'', CHR ''-''} \<union> set ?r" by (auto split: list.splits)
  ultimately show ?thesis unfolding Cons by (auto simp: num_char_def)
qed simp

lemma num_fraction_chars: "num_fraction s \<Longrightarrow> \<forall>c \<in> set s. num_char c"
proof (cases s)
  case (Cons e r)
  assume a: "num_fraction s"
  show ?thesis
  proof (cases "e = CHR ''.''")
    case True
    then obtain r' where "digits1 r = Some r'" "num_exponent r'" using a Cons by (auto simp: num_fraction_def split: option.splits)
    then show ?thesis using digits1_chars num_exponent_chars True Cons by (auto simp: num_char_def)
  next
    case False
    then show ?thesis using a Cons num_exponent_chars by (simp add: num_fraction_def)
  qed
qed simp

lemma valid_number_chars:
  assumes "valid_number s"
  shows "\<forall>c \<in> set s. num_char c" "\<exists>c s'. s = c # s' \<and> (dig c \<or> c = CHR ''-'')"
proof -
  let ?r = "case s of c # r \<Rightarrow> if c = CHR ''-'' then r else s | [] \<Rightarrow> s"
  obtain c r where r: "?r = c # r" "c = CHR ''0'' \<and> num_fraction r \<or> dig c \<and> num_fraction (dropWhile dig r)"
    using assms by (auto simp: valid_number_def Let_def split: list.splits if_splits)
  have dig0: "dig CHR ''0''" by (simp add: dig_def byte_in_def)
  have "\<forall>c \<in> set r. num_char c"
    using r(2) num_fraction_chars [of r] num_fraction_chars [of "dropWhile dig r"] dig_dropWhile [of r] by blast
  then have "\<forall>c \<in> set ?r. num_char c" using r dig0 by (auto simp: num_char_def)
  then show "\<forall>c \<in> set s. num_char c" by (cases s) (auto simp: num_char_def split: if_splits)
  show "\<exists>c s'. s = c # s' \<and> (dig c \<or> c = CHR ''-'')" using r dig0 by (cases s) (auto split: if_splits)
qed

lemma lex_num_chars: "\<forall>c \<in> set s. num_char c \<Longrightarrow> lex (LNum acc) (s @ t) = lex (LNum (rev s @ acc)) t"
proof (induction s arbitrary: acc)
  case (Cons c s)
  then show ?case by (cases "lex (LNum (rev s @ c # acc)) t") (simp_all add: lex_run)
qed simp

lemma lex_number:
  assumes "valid_number s" "stops t"
  shows "lex LN (s @ t) = map_option ((#) (TNum s)) (lex LN t)"
proof -
  obtain c s' where s: "s = c # s'" "dig c \<or> c = CHR ''-''" using valid_number_chars(2) [OF assms(1)] by blast
  then have "lex LN (s @ t) = lex (LNum [c]) (s' @ t)"
    using lex_start_number [OF s(2)] by (cases "lex (LNum [c]) (s' @ t)") (simp_all add: lex_run)
  also have "\<dots> = lex (LNum (rev s)) t"
    using lex_num_chars [of s' "[c]" t] valid_number_chars(1) [OF assms(1)] s(1) by simp
  also have "\<dots> = map_option ((#) (TNum s)) (lex LN t)"
    by (rule lex_stop(1) [OF assms(2)]) (simp add: num_tok_def assms(1))
  finally show ?thesis .
qed

text \<open>A layout that only puts white space between the tokens.\<close>

definition blank_layout :: "layout \<Rightarrow> bool" where
  "blank_layout l \<longleftrightarrow> (case l of None \<Rightarrow> True | Some (pre, indent) \<Rightarrow> \<forall>c \<in> set pre \<union> set indent. json_space c)"

lemma break_space: "blank_layout l \<Longrightarrow> \<forall>c \<in> set (line_break l d). json_space c"
  by (auto simp: blank_layout_def line_break_def json_space_def split: option.splits)

lemma lex_break [simp]: "blank_layout l \<Longrightarrow> lex LN (line_break l d @ t) = lex LN t"
  using lex_spaces [OF break_space] .

lemma space_stops: "json_space c \<Longrightarrow> stops (c # t)"
  by (auto simp: json_space_def stops_def num_char_def dig_def byte_in_def lower_letter_def Let_def)

lemma stops_break: "blank_layout l \<Longrightarrow> stops t \<Longrightarrow> stops (line_break l d @ t)"
  using break_space [of l d] by (cases "line_break l d") (auto simp: space_stops)

lemma stops_punct: "stops ('','' @ t)" "stops (''}'' @ t)" "stops ('']'' @ t)" "stops []"
  by (simp_all add: stops_def num_char_def dig_def byte_in_def lower_letter_def)

lemma lex_colon: "lex LN (colon l @ t) = map_option ((#) TColon) (lex LN t)"
  using lex_space [of "CHR '' ''" t] by (auto simp: colon_def lex_punct json_space_def)

text \<open>A list of pieces, each scanned to its tokens wherever it stops.\<close>

lemma map_option_append: "map_option ((@) xs) (map_option ((@) ys) z) = map_option ((@) (xs @ ys)) z"
  by (cases z) simp_all

lemma map_option_Cons: "map_option ((#) x) z = map_option ((@) [x]) z"
  by (cases z) simp_all

lemma lex_separated:
  assumes "\<forall>x \<in> set xs. \<forall>t. stops t \<longrightarrow> lex LN (f x @ t) = map_option ((@) (g x)) (lex LN t)" "stops t"
  shows "lex LN (separated '','' (map f xs) @ t) = map_option ((@) (separated [TComma] (map g xs))) (lex LN t)"
  using assms
proof (induction xs rule: induct_list012)
  case (3 x y xs)
  have "lex LN (separated '','' (map f (x # y # xs)) @ t)
      = map_option ((@) (g x)) (lex LN ('','' @ separated '','' (map f (y # xs)) @ t))"
    using 3(3) stops_punct(1) by simp
  also have "\<dots> = map_option ((@) (g x @ [TComma] @ separated [TComma] (map g (y # xs)))) (lex LN t)"
    using 3(2) 3(3,4) by (simp add: lex_punct map_option_Cons map_option_append)
  finally show ?case by (simp add: append_funs)
qed (simp_all add: option.map_id0 [unfolded id_def])

lemma lex_json:
  assumes "blank_layout l"
  shows "encodable v \<Longrightarrow> stops t \<Longrightarrow> lex LN (render_json html l d v @ t) = map_option ((@) (json_toks v)) (lex LN t)"
proof (induction v arbitrary: d t)
  case (JArr vs)
  show ?case
  proof (cases "vs = []")
    case False
    have each: "\<forall>v \<in> set vs. \<forall>t. stops t \<longrightarrow>
        lex LN ((line_break l (Suc d) @ render_json html l (Suc d) v) @ t) = map_option ((@) (json_toks v)) (lex LN t)"
      using JArr assms by (auto simp: list_all_iff)
    have "stops (line_break l d @ '']'' @ t)" using assms stops_break stops_punct(3) by blast
    from lex_separated [OF each this] show ?thesis using False assms
      by (simp add: lex_open option.map_comp comp_def append_funs)
  qed (simp add: lex_open option.map_comp comp_def append_funs)
next
  case (JObj ms)
  show ?case
  proof (cases "ms = []")
    case False
    have each: "\<forall>m \<in> set ms. \<forall>t. stops t \<longrightarrow>
        lex LN ((\<lambda>(k, v). line_break l (Suc d) @ quote html k @ colon l @ render_json html l (Suc d) v) m @ t)
          = map_option ((@) ((\<lambda>(k, v). TStr (utf8_fix k) # TColon # json_toks v) m)) (lex LN t)"
    proof (intro ballI allI impI)
      fix m t assume m: "m \<in> set ms" "stops t"
      obtain k v where kv: "m = (k, v)" by (cases m)
      have "lex LN (render_json html l (Suc d) v @ t) = map_option ((@) (json_toks v)) (lex LN t)"
        using JObj.IH [of m v] JObj.prems(1) m kv by (auto simp: list_all_iff)
      then show "lex LN ((\<lambda>(k, v). line_break l (Suc d) @ quote html k @ colon l @ render_json html l (Suc d) v) m @ t)
          = map_option ((@) ((\<lambda>(k, v). TStr (utf8_fix k) # TColon # json_toks v) m)) (lex LN t)"
        using assms by (simp add: kv lex_quote lex_colon option.map_comp comp_def append_funs)
    qed
    have "stops (line_break l d @ ''}'' @ t)" using assms stops_break stops_punct(2) by blast
    from lex_separated [OF each this] show ?thesis using False assms
      by (simp add: lex_punct option.map_comp comp_def append_funs)
  qed (simp add: lex_punct option.map_comp comp_def append_funs)
next
  case (JStr s)
  then show ?case by (simp add: lex_quote map_option_Cons)
next
  case (JNum s)
  then show ?case using lex_number by (simp add: map_option_Cons)
next
  case (JBool b)
  then show ?case using lex_literal [OF JBool.prems(2)] by (auto simp: map_option_Cons)
next
  case JNull
  then show ?case using lex_literal(1) [OF JNull.prems(2)] by (auto simp: map_option_Cons)
qed simp

section \<open>Parsing\<close>

definition finish :: "json \<Rightarrow> frame list \<Rightarrow> tok list \<Rightarrow> json option" where
  "finish v st ts =
     (case attach v st of None \<Rightarrow> None | Some (Inl x) \<Rightarrow> if ts = [] then Some x else None
      | Some (Inr st') \<Rightarrow> parse_toks PAfter st' ts)"

lemma parse_closed:
  assumes "parse_step e st t = close v st'"
  shows "parse_toks e st (t # ts) = finish v st' ts"
  using assms by (cases "attach v st'") (auto simp: close_def finish_def split: sum.splits)

lemma parse_scalar:
  assumes "e = PVal \<or> e = PValOrEnd" "scalar t = Some v" "t \<noteq> TRBrack" "t \<noteq> TLBrace" "t \<noteq> TLBrack"
  shows "parse_toks e st (t # ts) = finish v st ts"
  by (rule parse_closed) (use assms in \<open>auto simp: parse_step_def value_start_def close_def\<close>)

lemma foldr_max_le: "v \<in> set vs \<Longrightarrow> f v \<le> foldr (\<lambda>v n. max (f v) n) vs (0 :: nat)"
  by (induction vs) auto

lemma depth_elem: "v \<in> set vs \<Longrightarrow> json_depth v < json_depth (JArr vs)" "(k, v) \<in> set ms \<Longrightarrow> json_depth v < json_depth (JObj ms)"
  using foldr_max_le [of v vs json_depth] foldr_max_le [of "(k, v)" ms "\<lambda>(k, v). json_depth v"]
  by (simp_all add: less_Suc_eq_le split_def)

lemma parse_elems:
  assumes "\<forall>v \<in> set vs. \<forall>e st ts. (e = PVal \<or> e = PValOrEnd) \<and> length st = n \<longrightarrow>
      parse_toks e st (json_toks v @ ts) = finish (utf8_json v) st ts"
    and "vs \<noteq> []" "e = PVal \<or> e = PValOrEnd" "n = Suc (length st)"
  shows "parse_toks e (FArr acc # st) (separated [TComma] (map json_toks vs) @ TRBrack # ts)
    = finish (JArr (acc @ map utf8_json vs)) st ts"
  using assms
proof (induction vs arbitrary: acc e rule: induct_list012)
  case (2 v)
  then have "parse_toks e (FArr acc # st) (json_toks v @ TRBrack # ts) = finish (utf8_json v) (FArr acc # st) (TRBrack # ts)" by simp
  also have "\<dots> = parse_toks PAfter (FArr (acc @ [utf8_json v]) # st) (TRBrack # ts)" by (simp add: finish_def attach_def)
  also have "\<dots> = finish (JArr (acc @ [utf8_json v])) st ts" by (rule parse_closed) (simp add: parse_step_def)
  finally show ?case by simp
next
  case (3 v w vs)
  let ?rest = "separated [TComma] (map json_toks (w # vs)) @ TRBrack # ts"
  have "parse_toks e (FArr acc # st) (json_toks v @ TComma # ?rest) = finish (utf8_json v) (FArr acc # st) (TComma # ?rest)"
    using 3 by simp
  also have "\<dots> = parse_toks PVal (FArr (acc @ [utf8_json v]) # st) ?rest" by (simp add: finish_def attach_def parse_step_def)
  finally show ?case using 3(2) [of PVal "acc @ [utf8_json v]"] 3(3,6) by simp
qed simp

lemma parse_fields:
  assumes "\<forall>(k, v) \<in> set ms. \<forall>st ts. length st = n \<longrightarrow>
      parse_toks PVal st (json_toks v @ ts) = finish (utf8_json v) st ts"
    and "ms \<noteq> []" "e = PKey \<or> e = PKeyOrEnd" "n = Suc (length st)"
  shows "parse_toks e (FObj acc # st)
      (separated [TComma] (map (\<lambda>(k, v). TStr (utf8_fix k) # TColon # json_toks v) ms) @ TRBrace # ts)
    = finish (JObj (acc @ map (\<lambda>(k, v). (utf8_fix k, utf8_json v)) ms)) st ts"
  using assms
proof (induction ms arbitrary: acc e rule: induct_list012)
  case (2 m)
  obtain k v where m: "m = (k, v)" by (cases m)
  have "parse_toks e (FObj acc # st) (TStr (utf8_fix k) # TColon # json_toks v @ TRBrace # ts)
      = parse_toks PVal (FKey acc (utf8_fix k) # st) (json_toks v @ TRBrace # ts)"
    using 2 by (auto simp: parse_step_def)
  also have "\<dots> = finish (utf8_json v) (FKey acc (utf8_fix k) # st) (TRBrace # ts)" using 2 m by simp
  also have "\<dots> = parse_toks PAfter (FObj (acc @ [(utf8_fix k, utf8_json v)]) # st) (TRBrace # ts)"
    by (simp add: finish_def attach_def)
  also have "\<dots> = finish (JObj (acc @ [(utf8_fix k, utf8_json v)])) st ts" by (rule parse_closed) (simp add: parse_step_def)
  finally show ?case by (simp add: m)
next
  case (3 m m' ms)
  obtain k v where m: "m = (k, v)" by (cases m)
  let ?rest = "separated [TComma] (map (\<lambda>(k, v). TStr (utf8_fix k) # TColon # json_toks v) (m' # ms)) @ TRBrace # ts"
  have "parse_toks e (FObj acc # st) (TStr (utf8_fix k) # TColon # json_toks v @ TComma # ?rest)
      = parse_toks PVal (FKey acc (utf8_fix k) # st) (json_toks v @ TComma # ?rest)"
    using 3 by (auto simp: parse_step_def)
  also have "\<dots> = finish (utf8_json v) (FKey acc (utf8_fix k) # st) (TComma # ?rest)" using 3 m by simp
  also have "\<dots> = parse_toks PKey (FObj (acc @ [(utf8_fix k, utf8_json v)]) # st) ?rest"
    by (simp add: finish_def attach_def parse_step_def)
  finally show ?case using 3(2) [of PKey "acc @ [(utf8_fix k, utf8_json v)]"] 3(3,6) by (simp add: m)
qed simp

lemma parse_json_toks:
  "encodable v \<Longrightarrow> json_depth v + length st \<le> maxNestingDepth \<Longrightarrow> e = PVal \<or> e = PValOrEnd \<Longrightarrow>
     parse_toks e st (json_toks v @ ts) = finish (utf8_json v) st ts"
proof (induction v arbitrary: e st ts)
  case (JArr vs)
  let ?toks = "separated [TComma] (map json_toks vs) @ TRBrack # ts"
  have len: "length st < maxNestingDepth" using JArr.prems(2) by simp
  have "\<forall>v \<in> set vs. \<forall>e st' ts. (e = PVal \<or> e = PValOrEnd) \<and> length st' = Suc (length st) \<longrightarrow>
      parse_toks e st' (json_toks v @ ts) = finish (utf8_json v) st' ts"
    using JArr.IH JArr.prems(1,2) depth_elem(1) [of _ vs] by (fastforce simp: list_all_iff)
  then have "parse_toks PValOrEnd (FArr [] # st) ?toks = finish (JArr (map utf8_json vs)) st ts"
    using parse_elems [of vs "Suc (length st)" PValOrEnd st "[]" ts] parse_closed [of PValOrEnd "FArr [] # st" TRBrack "JArr []" st ts]
    by (cases "vs = []") (simp_all add: parse_step_def)
  moreover have "parse_toks e st (TLBrack # ?toks) = parse_toks PValOrEnd (FArr [] # st) ?toks"
    using JArr.prems(3) len by (auto simp: parse_step_def value_start_def)
  ultimately show ?case by simp
next
  case (JObj ms)
  let ?toks = "separated [TComma] (map (\<lambda>(k, v). TStr (utf8_fix k) # TColon # json_toks v) ms) @ TRBrace # ts"
  have len: "length st < maxNestingDepth" using JObj.prems(2) by simp
  have "\<forall>(k, v) \<in> set ms. \<forall>st' ts. length st' = Suc (length st) \<longrightarrow>
      parse_toks PVal st' (json_toks v @ ts) = finish (utf8_json v) st' ts"
  proof (clarify)
    fix k v and st' :: "frame list" and ts assume a: "(k, v) \<in> set ms" "length st' = Suc (length st)"
    then show "parse_toks PVal st' (json_toks v @ ts) = finish (utf8_json v) st' ts"
      using JObj.IH [OF a(1), of v st' PVal ts] JObj.prems(1,2) depth_elem(2) [OF a(1)] by (auto simp: list_all_iff)
  qed
  then have "parse_toks PKeyOrEnd (FObj [] # st) ?toks = finish (JObj (map (\<lambda>(k, v). (utf8_fix k, utf8_json v)) ms)) st ts"
    using parse_fields [of ms "Suc (length st)" PKeyOrEnd st "[]" ts] parse_closed [of PKeyOrEnd "FObj [] # st" TRBrace "JObj []" st ts]
    by (cases "ms = []") (simp_all add: parse_step_def)
  moreover have "parse_toks e st (TLBrace # ?toks) = parse_toks PKeyOrEnd (FObj [] # st) ?toks"
    using JObj.prems(3) len by (auto simp: parse_step_def value_start_def)
  ultimately show ?case by simp
qed (simp_all add: parse_scalar scalar_def del: parse_toks.simps)

text \<open>What is encoded is read back, up to ill-formed UTF-8, in either layout.\<close>

lemma json_parse_render_json:
  assumes "blank_layout l" "encodable v" "json_depth v \<le> maxNestingDepth"
  shows "json_parse (render_json html l 0 v) = Some (utf8_json v)"
  using lex_json [OF assms(1,2) stops_punct(4), of html 0] parse_json_toks [OF assms(2), of "[]" PVal "[]"] assms(3)
  by (simp add: json_parse_def lex_end_def finish_def attach_def)

lemma json_parse_Marshal:
  "encodable v \<Longrightarrow> json_depth v \<le> maxNestingDepth \<Longrightarrow> json_parse (Marshal v) = Some (utf8_json v)"
  unfolding Marshal_def by (rule json_parse_render_json) (simp_all add: blank_layout_def)

lemma json_parse_MarshalIndent:
  "\<forall>c \<in> set pre \<union> set indent. json_space c \<Longrightarrow> encodable v \<Longrightarrow> json_depth v \<le> maxNestingDepth \<Longrightarrow>
     json_parse (MarshalIndent v pre indent) = Some (utf8_json v)"
  unfolding MarshalIndent_def by (rule json_parse_render_json) (simp_all add: blank_layout_def)

end
