(* ===== verification/DiscoveryJson.thy ===== *)
theory DiscoveryJson
  imports AeadExample JsonIndent Relay
begin

text \<open>
  The body of the capabilities document: \<open>json.MarshalIndent\<close> of \<open>Document\<close>, its structs
  as objects in the order and under the names of their JSON tags, its maps with sorted
  keys; what a client that parses the body reads in it.
\<close>

section \<open>The document as JSON\<close>

definition string_or_null :: "string option \<Rightarrow> json" where
  "string_or_null p = (case p of None \<Rightarrow> JNull | Some s \<Rightarrow> JStr s)"

definition strings_json :: "string list \<Rightarrow> json" where
  "strings_json xs = JArr (map JStr xs)"

definition map_json :: "(string \<times> json) list \<Rightarrow> json" where
  "map_json m = JObj (sort_key fst m)"

definition string_map_json :: "(string \<times> string) list \<Rightarrow> json" where
  "string_map_json m = map_json (map (\<lambda>(k, v). (k, JStr v)) m)"

definition dEndpoints_json :: "dEndpoints \<Rightarrow> json" where
  "dEndpoints_json x = JObj
     [(''discovery'', JStr (Endpoints_Discovery x)),
      (''health'', JStr (Endpoints_Health x)),
      (''put'', JStr (Endpoints_Put x)),
      (''pull'', JStr (Endpoints_Pull x)),
      (''ack'', JStr (Endpoints_Ack x)),
      (''pair_request'', JStr (Endpoints_PairRequest x)),
      (''pair_status'', JStr (Endpoints_PairStatus x)),
      (''pair_approve'', string_or_null (Endpoints_PairApprove x)),
      (''pair_deny'', string_or_null (Endpoints_PairDeny x))]"

definition dAuth_json :: "dAuth \<Rightarrow> json" where
  "dAuth_json x = JObj
     [(''scheme'', JStr (Auth_Scheme x)),
      (''header'', JStr (Auth_Header x)),
      (''note'', JStr (Auth_Note x))]"

definition dSigning_json :: "dSigning \<Rightarrow> json" where
  "dSigning_json x = JObj
     [(''algorithms'', strings_json (Signing_Algorithms x)),
      (''default'', JStr (Signing_Default x)),
      (''key_format'', string_map_json (Signing_KeyFormat x)),
      (''signature_format'', JStr (Signing_SignatureFormat x)),
      (''header'', JStr (Signing_Header x)),
      (''what_is_signed'', JStr (Signing_WhatIsSigned x))]"

definition dEncryption_json :: "dEncryption \<Rightarrow> json" where
  "dEncryption_json x = JObj
     [(''key_exchange'', JStr (Encryption_KeyExchange x)),
      (''key_exchange_values'', strings_json (Encryption_KeyExchangeValues x)),
      (''key_format'', string_map_json (Encryption_KeyFormat x)),
      (''kdf'', JStr (Encryption_KDF x)),
      (''kdf_info'', JStr (Encryption_KDFInfo x)),
      (''symmetric'', JStr (Encryption_Symmetric x)),
      (''nonce'', JStr (Encryption_Nonce x)),
      (''aad'', JStr (Encryption_AAD x))]"

definition dCanonicalJSON_json :: "dCanonicalJSON \<Rightarrow> json" where
  "dCanonicalJSON_json x = JObj
     [(''standard'', JStr (CanonicalJSON_Standard x)),
      (''rules'', JStr (CanonicalJSON_Rules x)),
      (''ergonomic_note'', JStr (CanonicalJSON_ErgonomicNote x))]"

definition dCrypto_json :: "dCrypto \<Rightarrow> json" where
  "dCrypto_json x = JObj
     [(''signing'', dSigning_json (Crypto_Signing x)),
      (''encryption'', dEncryption_json (Crypto_Encryption x)),
      (''canonical_json'', dCanonicalJSON_json (Crypto_CanonicalJSON x))]"

definition dEnvelope_json :: "dEnvelope \<Rightarrow> json" where
  "dEnvelope_json x = JObj
     [(''version'', JStr (Envelope_Version x)),
      (''outer'', JStr (Envelope_Outer x)),
      (''inner'', JStr (Envelope_Inner x)),
      (''msg_id_format'', JStr (Envelope_MsgIDFormat x)),
      (''ts_format'', JStr (Envelope_TsFormat x))]"

definition dContentHandling_json :: "dContentHandling \<Rightarrow> json" where
  "dContentHandling_json x = JObj
     [(''note'', JStr (ContentHandling_Note x)),
      (''wrapping'', JStr (ContentHandling_Wrapping x)),
      (''treatment'', JStr (ContentHandling_Treatment x)),
      (''mime_allowlist'', strings_json (ContentHandling_MimeAllowlist x)),
      (''max_body_bytes'', JNum (Itoa (ContentHandling_MaxBodyBytes x)))]"

definition dHalfSchema_json :: "dHalfSchema \<Rightarrow> json" where
  "dHalfSchema_json x = JObj
     [(''nexus_id'', JStr (HalfSchema_NexusID x)),
      (''sig_alg'', JStr (HalfSchema_SigAlg x)),
      (''pubkey'', JStr (HalfSchema_Pubkey x)),
      (''dh_alg'', JStr (HalfSchema_DhAlg x)),
      (''dh_pubkey'', JStr (HalfSchema_DhPubkey x)),
      (''endpoint'', JStr (HalfSchema_Endpoint x)),
      (''nonce'', JStr (HalfSchema_Nonce x)),
      (''ts'', JStr (HalfSchema_Ts x)),
      (''self_sig'', JStr (HalfSchema_SelfSig x))]"

definition dPairing_json :: "dPairing \<Rightarrow> json" where
  "dPairing_json x = JObj
     [(''method'', JStr (Pairing_Method x)),
      (''flow'', strings_json (Pairing_Flow x)),
      (''self_sig_canonical_v2'', JStr (Pairing_SelfSigCanonicalV2 x)),
      (''self_sig_canonical_v1_deprecated'', JStr (Pairing_SelfSigCanonicalV1Deprecated x)),
      (''_canonical_versioning_note'', JStr (Pairing_CanonicalVersioningNote x)),
      (''request_ttl_hours'', JNum (Itoa (Pairing_RequestTTLHours x))),
      (''note'', JStr (Pairing_Note x)),
      (''half_schema'', dHalfSchema_json (Pairing_HalfSchema x)),
      (''approval_response_shape'', JStr (Pairing_ApprovalResponseShape x)),
      (''poll_response_shape'', JStr (Pairing_PollResponseShape x))]"

definition dLimits_json :: "dLimits \<Rightarrow> json" where
  "dLimits_json x = JObj
     [(''replay_window_seconds'', JNum (Itoa (Limits_ReplayWindowSeconds x))),
      (''body_max_bytes'', JNum (Itoa (Limits_BodyMaxBytes x))),
      (''attachment_storage'', JStr (Limits_AttachmentStorage x))]"

definition dExampleTestKeys_json :: "dExampleTestKeys \<Rightarrow> json" where
  "dExampleTestKeys_json x = JObj
     [(''note'', JStr (ExampleTestKeys_Note x)),
      (''alice_ed25519_seed_hex'', JStr (ExampleTestKeys_AliceSeedHex x)),
      (''alice_ed25519_pubkey_base64url'', JStr (ExampleTestKeys_AlicePubkeyB64u x)),
      (''bob_ed25519_seed_hex'', JStr (ExampleTestKeys_BobSeedHex x)),
      (''bob_ed25519_pubkey_base64url'', JStr (ExampleTestKeys_BobPubkeyB64u x))]"

definition dExamplePairHalfVersion_json :: "dExamplePairHalfVersion \<Rightarrow> json" where
  "dExamplePairHalfVersion_json x = JObj
     [(''note'', JStr (ExamplePairHalfVersion_Note x)),
      (''self_sig_preimage_lf_separated'', JStr (ExamplePairHalfVersion_Preimage x)),
      (''self_sig_base64url'', JStr (ExamplePairHalfVersion_Signature x)),
      (''wire_json'', string_map_json (ExamplePairHalfVersion_WireJSON x))]"

definition dExamplePairHalf_json :: "dExamplePairHalf \<Rightarrow> json" where
  "dExamplePairHalf_json x = JObj
     [(''note'', JStr (ExamplePairHalf_Note x)),
      (''v2_current'', dExamplePairHalfVersion_json (ExamplePairHalf_V2 x)),
      (''v1_deprecated'', dExamplePairHalfVersion_json (ExamplePairHalf_V1 x))]"

definition dExampleOuter_json :: "dExampleOuter \<Rightarrow> json" where
  "dExampleOuter_json x = JObj
     [(''note'', JStr (ExampleOuter_Note x)),
      (''canonical_json_with_lf_for_readability'', JStr (ExampleOuter_CanonicalJSON x)),
      (''wire_bytes_note'', JStr (ExampleOuter_WireBytesNote x)),
      (''ciphertext_sha256_hex'', JStr (ExampleOuter_CiphertextSHA256 x)),
      (''x_nexus_signature_header_value'', JStr (ExampleOuter_XNexusSignature x))]"

definition dExampleEncryption_json :: "dExampleEncryption \<Rightarrow> json" where
  "dExampleEncryption_json x = JObj
     [(''note'', JStr (ExampleEncryption_Note x)),
      (''nonce_hex_12_bytes'', JStr (ExampleEncryption_NonceHex x)),
      (''aad_note'', JStr (ExampleEncryption_AADNote x)),
      (''algorithm_reminder'', JStr (ExampleEncryption_AlgorithmReminder x))]"

definition dExampleInner_json :: "dExampleInner \<Rightarrow> json" where
  "dExampleInner_json x = JObj
     [(''note'', JStr (ExampleInner_Note x)),
      (''plaintext'', map_json (ExampleInner_Plaintext x)),
      (''encryption_recipe'', dExampleEncryption_json (ExampleInner_Encryption x))]"

definition dExamplePathID_json :: "dExamplePathID \<Rightarrow> json" where
  "dExamplePathID_json x = JObj
     [(''note'', JStr (ExamplePathID_Note x)),
      (''recipe'', JStr (ExamplePathID_Recipe x)),
      (''path_id'', JStr (ExamplePathID_Result x))]"

definition AEADExample_json :: "AEADExample \<Rightarrow> json" where
  "AEADExample_json x = JObj
     [(''note'', JStr (AEAD_Note x)),
      (''alice_p256_private_scalar_hex'', JStr (AlicePrivHex x)),
      (''alice_p256_public_sec1_base64url'', JStr (AlicePubB64u x)),
      (''bob_p256_private_scalar_hex'', JStr (BobPrivHex x)),
      (''bob_p256_public_sec1_base64url'', JStr (BobPubB64u x)),
      (''shared_secret_hex_32_bytes'', JStr (SharedSecretHex x)),
      (''derived_aes256gcm_key_hex_32_bytes'', JStr (SymKeyHex x)),
      (''hkdf_info_string'', JStr (HKDFInfo x)),
      (''hkdf_salt_hex_32_zero_bytes'', JStr (HKDFSaltHex x)),
      (''path_id'', JStr (AEAD_PathID x)),
      (''msg_id'', JStr (AEAD_MsgID x)),
      (''aad_hex_path_id_concat_msg_id_utf8'', JStr (AADHex x)),
      (''nonce_hex_12_bytes'', JStr (NonceHex x)),
      (''plaintext'', JStr (Plaintext x)),
      (''ciphertext_with_tag_hex'', JStr (CiphertextWithTagHex x)),
      (''wire_ciphertext_hex_nonce_then_aead_output'', JStr (WireCiphertextHex x)),
      (''wire_ciphertext_base64url'', JStr (WireCiphertextB64 x)),
      (''ciphertext_sha256_hex'', JStr (CiphertextSHA256Hex x)),
      (''verify_hint'', JStr (VerifyHint x))]"

definition dExamples_json :: "AEADExample dExamples \<Rightarrow> json" where
  "dExamples_json x = JObj
     [(''note'', JStr (Examples_Note x)),
      (''test_keys'', dExampleTestKeys_json (Examples_TestKeys x)),
      (''pair_half'', dExamplePairHalf_json (Examples_PairHalf x)),
      (''outer_envelope'', dExampleOuter_json (Examples_OuterEnvelope x)),
      (''inner_envelope'', dExampleInner_json (Examples_InnerEnvelope x)),
      (''path_id_derivation'', dExamplePathID_json (Examples_PathIDDerivation x)),
      (''aead_vector'', AEADExample_json (Examples_AEADVector x))]"

definition dDocument_json :: "AEADExample dDocument \<Rightarrow> json" where
  "dDocument_json x = JObj
     [(''version'', JStr (Document_Version x)),
      (''protocol'', JStr (Document_Protocol x)),
      (''interchange_id'', JStr (Document_InterchangeID x)),
      (''trust_model'', JStr (Document_TrustModel x)),
      (''endpoints'', dEndpoints_json (Document_Endpoints x)),
      (''auth'', dAuth_json (Document_Auth x)),
      (''crypto'', dCrypto_json (Document_Crypto x)),
      (''envelope'', dEnvelope_json (Document_Envelope x)),
      (''message_kinds'', strings_json (Document_MessageKinds x)),
      (''content_handling'', dContentHandling_json (Document_ContentHandling x)),
      (''pairing'', dPairing_json (Document_Pairing x)),
      (''limits'', dLimits_json (Document_Limits x)),
      (''examples'', dExamples_json (Document_Examples x))]"

definition discovery_Path :: string where "discovery_Path = ''/.well-known/nexus-interchange''"

text \<open>The body that \<open>Handler\<close> computes once; None is a panic of the package's constants.\<close>

definition discovery_body :: "hkdf \<Rightarrow> 'k ed_lib \<Rightarrow> string \<Rightarrow> string option" where
  "discovery_body hkdf L iid =
     map_option (\<lambda>v. MarshalIndent (dDocument_json (discovery_New L v iid)) [] ''  '') (computeAEADExample hkdf L)"

section \<open>It can be encoded\<close>

lemma dig_digit_char [simp]: "n < 10 \<Longrightarrow> dig (digit_char n)"
  by (simp add: dig_def byte_in_def digit_char_def)

lemma dec_digits: "\<exists>c r. dec n = c # r \<and> dig c \<and> (c = CHR ''0'' \<longrightarrow> n = 0 \<and> r = []) \<and> list_all dig r"
proof (induction n rule: dec.induct)
  case (1 n)
  show ?case
  proof (cases "n < 10")
    case True
    have "digit_char n = CHR ''0'' \<longrightarrow> n = 0"
    proof
      assume "digit_char n = CHR ''0''"
      then have "(of_char (digit_char n) :: nat) = 48" by simp
      then show "n = 0" using True by (simp add: digit_char_def)
    qed
    then show ?thesis using True dec.simps [of n] by simp
  next
    case False
    then obtain c r where "dec (n div 10) = c # r" "dig c" "c = CHR ''0'' \<longrightarrow> n div 10 = 0 \<and> r = []" "list_all dig r"
      using 1 by blast
    then show ?thesis using False dec.simps [of n] by (intro exI [of _ c] exI [of _ "r @ [digit_char (n mod 10)]"]) auto
  qed
qed

lemma valid_number_Itoa: "valid_number (Itoa i)"
proof -
  have "valid_number (dec n) \<and> valid_number (CHR ''-'' # dec n)" for n
  proof -
    obtain c r where d: "dec n = c # r" "dig c" "c = CHR ''0'' \<longrightarrow> r = []" "list_all dig r" using dec_digits [of n] by blast
    have "num_fraction (dropWhile dig r)" using d(4) dropWhile_eq_Nil_conv [of dig r] num_fraction_def [of "[]"] by (simp add: list_all_iff del: dropWhile_eq_Nil_conv)
    moreover have "c \<noteq> CHR ''-''" using d(2) by (auto simp: dig_def byte_in_def)
    ultimately show ?thesis using d by (cases "c = CHR ''0''") (simp_all add: valid_number_def num_fraction_def)
  qed
  then show ?thesis by (simp add: Itoa_def)
qed

text \<open>Nesting at most \<open>n\<close>.\<close>

definition fits :: "nat \<Rightarrow> json \<Rightarrow> bool" where
  "fits n v \<longleftrightarrow> encodable v \<and> json_depth v \<le> n"

lemma foldr_max_iff: "foldr (\<lambda>v n. max (f v) n) vs (0 :: nat) \<le> n \<longleftrightarrow> (\<forall>v \<in> set vs. f v \<le> n)"
  by (induction vs) auto

lemma fits_simps [simp]:
  "fits n JNull" "fits n (JStr s)" "fits n (JNum (Itoa i))"
  "fits n (JArr vs) \<longleftrightarrow> 0 < n \<and> (\<forall>v \<in> set vs. fits (n - 1) v)"
  "fits n (JObj ms) \<longleftrightarrow> 0 < n \<and> (\<forall>m \<in> set ms. fits (n - 1) (snd m))"
  using foldr_max_iff [of json_depth vs "n - 1"] foldr_max_iff [of "\<lambda>(k, v). json_depth v" ms "n - 1"]
  by (cases n; auto simp: fits_def valid_number_Itoa list_all_iff split_def)+

lemma fits_fields [simp]:
  "fits n (string_or_null p)" "fits n (strings_json xs) \<longleftrightarrow> 0 < n" "fits n (string_map_json m) \<longleftrightarrow> 0 < n"
  by (auto simp: string_or_null_def strings_json_def string_map_json_def map_json_def split: option.splits)

lemmas document_json_defs =
  dEndpoints_json_def dAuth_json_def dSigning_json_def dEncryption_json_def dCanonicalJSON_json_def
  dCrypto_json_def dEnvelope_json_def dContentHandling_json_def dHalfSchema_json_def dPairing_json_def
  dLimits_json_def dExampleTestKeys_json_def dExamplePairHalfVersion_json_def dExamplePairHalf_json_def
  dExampleOuter_json_def dExampleEncryption_json_def dExampleInner_json_def dExamplePathID_json_def
  AEADExample_json_def dExamples_json_def dDocument_json_def

lemma document_fits: "fits 6 (dDocument_json (discovery_New L v iid))"
  by (simp add: document_json_defs discovery_New_def buildExamples_def the_ExampleInner_def map_json_def)

lemma body_parses:
  assumes "discovery_body hkdf L iid = Some t"
  obtains v where "computeAEADExample hkdf L = Some v"
    "json_parse t = Some (utf8_json (dDocument_json (discovery_New L v iid)))"
proof -
  obtain v where v: "computeAEADExample hkdf L = Some v"
    "t = MarshalIndent (dDocument_json (discovery_New L v iid)) [] ''  ''" using assms by (auto simp: discovery_body_def)
  have "encodable (dDocument_json (discovery_New L v iid))" "json_depth (dDocument_json (discovery_New L v iid)) \<le> maxNestingDepth"
    using document_fits [of L v iid] by (simp_all add: fits_def maxNestingDepth_def)
  then have "json_parse t = Some (utf8_json (dDocument_json (discovery_New L v iid)))"
    unfolding v(2) by (intro json_parse_MarshalIndent) (simp_all add: json_space_def)
  then show ?thesis using that [OF v(1)] by simp
qed

section \<open>What a client reads\<close>

text \<open>The value under a path of keys.\<close>

fun json_at :: "string list \<Rightarrow> json \<Rightarrow> json option" where
  "json_at [] v = Some v"
| "json_at (k # ks) (JObj ms) = Option.bind (map_of ms k) (json_at ks)"
| "json_at (k # ks) _ = None"


lemma json_at_object:
  assumes "list_all valid_utf8 (map fst ms)"
  shows "json_at (k # ks) (utf8_json (JObj ms)) = Option.bind (map_of ms k) (\<lambda>v. json_at ks (utf8_json v))"
proof -
  have "map_of (map (\<lambda>(k, v). (utf8_fix k, utf8_json v)) ms) k = map_option utf8_json (map_of ms k)"
    using assms by (induction ms) (auto simp: valid_utf8_fix_id)
  then show ?thesis by (cases "map_of ms k") simp_all
qed

lemma document_keys:
  "list_all valid_utf8
    [''version'', ''protocol'', ''interchange_id'', ''trust_model'', ''endpoints'', ''auth'', ''crypto'',
     ''envelope'', ''message_kinds'', ''content_handling'', ''pairing'', ''limits'', ''examples'']"
  "list_all valid_utf8
    [''note'', ''test_keys'', ''pair_half'', ''outer_envelope'', ''inner_envelope'', ''path_id_derivation'',
     ''aead_vector'']"
  "list_all valid_utf8
    [''note'', ''alice_p256_private_scalar_hex'', ''alice_p256_public_sec1_base64url'',
     ''bob_p256_private_scalar_hex'', ''bob_p256_public_sec1_base64url'', ''shared_secret_hex_32_bytes'',
     ''derived_aes256gcm_key_hex_32_bytes'', ''hkdf_info_string'', ''hkdf_salt_hex_32_zero_bytes'', ''path_id'',
     ''msg_id'', ''aad_hex_path_id_concat_msg_id_utf8'', ''nonce_hex_12_bytes'', ''plaintext'',
     ''ciphertext_with_tag_hex'', ''wire_ciphertext_hex_nonce_then_aead_output'', ''wire_ciphertext_base64url'',
     ''ciphertext_sha256_hex'', ''verify_hint'']"
  by code_simp+

lemma vector_at:
  "json_at (''examples'' # ''aead_vector'' # ks) (utf8_json (dDocument_json (discovery_New L v iid))) = json_at ks (utf8_json (AEADExample_json v))"
proof -
  have "json_at (''examples'' # ks) (utf8_json (dDocument_json d)) = json_at ks (utf8_json (dExamples_json (Document_Examples d)))" for d ks
    unfolding dDocument_json_def
    by (subst json_at_object, simp only: list.map fst_conv document_keys) (simp del: utf8_json.simps)
  moreover have "json_at (''aead_vector'' # ks) (utf8_json (dExamples_json x)) = json_at ks (utf8_json (AEADExample_json (Examples_AEADVector x)))" for x ks
    unfolding dExamples_json_def
    by (subst json_at_object, simp only: list.map fst_conv document_keys) (simp del: utf8_json.simps)
  ultimately show ?thesis by (simp add: discovery_New_def buildExamples_def del: utf8_json.simps utf8_fix.simps)
qed

lemma vector_at_field:
  "json_at [f] (utf8_json (AEADExample_json v))
    = map_option utf8_json (map_of (case AEADExample_json v of JObj ms \<Rightarrow> ms | _ \<Rightarrow> []) f)"
proof -
  have "json_at [f] (utf8_json (JObj ms)) = map_option utf8_json (map_of ms f)" if "list_all valid_utf8 (map fst ms)" for ms
    unfolding json_at_object [OF that] by (cases "map_of ms f") simp_all
  then show ?thesis unfolding AEADExample_json_def json.case
    by this (simp only: list.map fst_conv document_keys)
qed

lemma vector_field:
  "map (\<lambda>f. json_at [f] (utf8_json (AEADExample_json v)))
     [''derived_aes256gcm_key_hex_32_bytes'', ''nonce_hex_12_bytes'', ''ciphertext_with_tag_hex'', ''path_id'', ''msg_id'', ''plaintext'']
   = [Some (JStr (utf8_fix (SymKeyHex v))), Some (JStr (utf8_fix (NonceHex v))), Some (JStr (utf8_fix (CiphertextWithTagHex v))),
      Some (JStr (utf8_fix (AEAD_PathID v))), Some (JStr (utf8_fix (AEAD_MsgID v))), Some (JStr (utf8_fix (Plaintext v)))]"
  unfolding list.map vector_at_field
  by (simp add: AEADExample_json_def map_of_Cons_code(2) del: utf8_fix.simps map_of.simps)

lemma utf8_hex [simp]: "utf8_fix (hex_EncodeToString bs) = hex_EncodeToString bs"
  by (rule valid_utf8_fix_id, rule utf8_verbatim) (use hex_chars [of bs] in \<open>auto simp: list_all_iff verbatim_hex\<close>)

text \<open>
  C33. The served body is enough to check an implementation's encryption: whoever parses
  it and reads, in the vector under \<open>examples\<close>, the key, the nonce, the ciphertext with
  its tag, the path id and the message id, opens the ciphertext with AES-256-GCM to the
  plaintext published beside it.
\<close>

theorem served_vector_opens:
  assumes "hkdf_reads hkdf"
  shows "\<exists>t doc key nonce sealed pid mid plain k n c E. discovery_body hkdf L iid = Some t \<and> json_parse t = Some doc
    \<and> map (\<lambda>f. json_at [''examples'', ''aead_vector'', f] doc)
        [''derived_aes256gcm_key_hex_32_bytes'', ''nonce_hex_12_bytes'', ''ciphertext_with_tag_hex'', ''path_id'', ''msg_id'', ''plaintext'']
      = map (\<lambda>s. Some (JStr s)) [key, nonce, sealed, pid, mid, plain]
    \<and> hex_DecodeString key = Some k \<and> hex_DecodeString nonce = Some n \<and> hex_DecodeString sealed = Some c
    \<and> aes_NewCipher k = Some E \<and> gcm_Open E n c (to_bytes (pid @ mid)) = Some (to_bytes plain)"
proof -
  obtain v shared key sealed E where v: "computeAEADExample hkdf L = Some v"
    and key: "aes_NewCipher key = Some E"
    and sealed: "gcm_Seal E example_nonce_bytes (to_bytes exampleAEADPlaintext) (to_bytes (example_aad L)) = Some sealed"
    and f: "SymKeyHex v = hex_EncodeToString key" "AEAD_PathID v = derivePathID (alicePubB64u L) (bobPubB64u L)"
    "AEAD_MsgID v = exampleAEADMsgID" "NonceHex v = exampleAEADNonceHex" "Plaintext v = exampleAEADPlaintext"
    "CiphertextWithTagHex v = hex_EncodeToString sealed"
    by (rule computed [OF assms, of L])
  obtain t where t: "discovery_body hkdf L iid = Some t" using v by (simp add: discovery_body_def)
  then have doc: "json_parse t = Some (utf8_json (dDocument_json (discovery_New L v iid)))"
    by (rule body_parses) (simp add: v)
  note opens = Open_Seal(1) [OF aes_block_sized [OF key] sealed]
  have utf8: "utf8_fix exampleAEADNonceHex = exampleAEADNonceHex" "utf8_fix exampleAEADPlaintext = exampleAEADPlaintext"
    "utf8_fix exampleAEADMsgID = exampleAEADMsgID" by code_simp+
  have path: "utf8_fix (AEAD_PathID v) = AEAD_PathID v"
    using published_fields(4) [of L, THEN utf8_verbatim, THEN valid_utf8_fix_id] by (simp add: f(2) examplePathID_def)
  note fields = vector_field [of v, folded vector_at [of _ L v iid], unfolded path f(1,3-) utf8 utf8_hex]
  have sealed': "gcm_Open E example_nonce_bytes sealed (to_bytes (AEAD_PathID v @ exampleAEADMsgID)) = Some (to_bytes exampleAEADPlaintext)"
    unfolding f(2) by (rule opens)
  show ?thesis
    by (rule exI [of _ t], rule exI [of _ "utf8_json (dDocument_json (discovery_New L v iid))"],
        rule exI [of _ "hex_EncodeToString key"], rule exI [of _ exampleAEADNonceHex], rule exI [of _ "hex_EncodeToString sealed"],
        rule exI [of _ "AEAD_PathID v"], rule exI [of _ exampleAEADMsgID], rule exI [of _ exampleAEADPlaintext],
        rule exI [of _ key], rule exI [of _ example_nonce_bytes], rule exI [of _ sealed], rule exI [of _ E])
      (simp only: t doc fields [unfolded list.map] key sealed' example_nonce hex_Decode_Encode list.map simp_thms)
qed

end
