(* ===== verification/DbInspect.thy ===== *)
theory DbInspect
  imports MailboxFacts Discovery JsonIndent "HOL-Library.AList"
begin

text \<open>
  \<open>cmd/db-inspect\<close>: the operator's dump of the envelopes and pairs.  What it prints of
  a stored envelope: the bytes of its ciphertext and its JSON, indented.  \<open>num\<close> is what
  a number literal of the stored JSON becomes when it is decoded to a \<open>float64\<close> and
  printed again; the relay stores none.
\<close>

section \<open>The ciphertext\<close>

text \<open>\<open>base64.RawURLEncoding.DecodeString\<close>: no padding, None for an error.\<close>

definition RawURLDecodeString :: "string \<Rightarrow> bytes option" where
  "RawURLDecodeString s =
     (let t = filter (\<lambda>c. \<not> newline c) s in
      if list_all b64_char t \<and> length t mod 4 \<noteq> 1 then Some (raw_quanta t) else None)"

text \<open>
  \<open>base64.StdEncoding.DecodeString\<close> with the error dropped: what was decoded before it,
  including the padded quantum that garbage follows.
\<close>

fun std_quanta :: "string \<Rightarrow> bytes" where
  "std_quanta (a # b # c # d # r) =
     (case (b64_val a, b64_val b) of
        (Some w, Some x) \<Rightarrow>
          (let b1 = of_nat (w * 4 + x div 16) in
           if c = CHR ''='' then (if d = CHR ''='' then [b1] else [])
           else (case b64_val c of None \<Rightarrow> []
             | Some y \<Rightarrow>
                 (let b2 = of_nat (x mod 16 * 16 + y div 4) in
                  if d = CHR ''='' then [b1, b2]
                  else (case b64_val d of None \<Rightarrow> [] | Some z \<Rightarrow> b1 # b2 # of_nat (y mod 4 * 64 + z) # std_quanta r))))
      | _ \<Rightarrow> [])"
| "std_quanta _ = []"

definition StdDecode :: "string \<Rightarrow> bytes" where
  "StdDecode s = std_quanta (map std_to_url (filter (\<lambda>c. \<not> newline c) s))"

definition ctBytes :: "string \<Rightarrow> bytes" where
  "ctBytes ct = (case RawURLDecodeString ct of Some b \<Rightarrow> b | None \<Rightarrow> StdDecode ct)"

section \<open>The stored JSON\<close>

text \<open>A JSON text decoded into an \<open>any\<close>: the last of equal keys wins, maps are printed in key order.\<close>

fun any_value :: "(string \<Rightarrow> json) \<Rightarrow> json \<Rightarrow> json" where
  "any_value num (JNum s) = num s"
| "any_value num (JArr vs) = JArr (map (any_value num) vs)"
| "any_value num (JObj ms) =
     JObj (sort_key fst (fold (\<lambda>(k, v). AList.update k v) (map (\<lambda>(k, v). (k, any_value num v)) ms) []))"
| "any_value num v = v"

definition outer_pretty :: "(string \<Rightarrow> json) \<Rightarrow> string \<Rightarrow> string" where
  "outer_pretty num outer =
     MarshalIndent (case json_parse outer of None \<Rightarrow> JNull | Some v \<Rightarrow> any_value num v) ''  '' ''  ''"

section \<open>The dump\<close>

definition nl :: string where "nl = [CHR 0x0A]"

definition inspect_envelope :: "(string \<Rightarrow> json) \<Rightarrow> env_row \<Rightarrow> string" where
  "inspect_envelope num e =
     (let b = ctBytes (e_ciphertext e) in
      nl @ ''msg_id  : '' @ e_msg_id e @ nl @ ''path_id : '' @ e_path_id e @ nl @ ''dir     : '' @ e_direction e @ nl
        @ ''ct len  : '' @ Itoa (int (length b)) @ nl @ ''ct hex  : '' @ hex_EncodeToString b @ nl
        @ ''sig     : '' @ e_signature e @ nl @ ''outer   :'' @ nl
        @ outer_pretty num (e_outer_json e) @ nl)"

definition inspect_pair :: "pair_row \<Rightarrow> string" where
  "inspect_pair p =
     nl @ ''path_id            : '' @ p_path_id p @ nl @ ''requester          : '' @ p_requester_id p @ nl
       @ ''requester_pubkey   : '' @ p_requester_pubkey p @ nl @ ''requester_dh_pubkey: '' @ p_requester_dh_pubkey p @ nl
       @ ''owner              : '' @ p_owner_id p @ nl @ ''owner_pubkey       : '' @ p_owner_pubkey p @ nl
       @ ''owner_dh_pubkey    : '' @ p_owner_dh_pubkey p @ nl @ ''sig_alg            : '' @ p_sig_alg p @ nl
       @ ''dh_alg             : '' @ p_dh_alg p @ nl"

text \<open>
  The queries of \<open>main\<close>: \<open>ORDER BY msg_id\<close>, and the pairs in table order.  A query
  gives its rows, or the text of its error.
\<close>

definition envelope_rows :: "db \<Rightarrow> env_row list" where "envelope_rows d = sort_key e_msg_id (envelopes d)"

text \<open>\<open>main\<close>: what it writes to the two streams, and its exit status.\<close>

definition db_inspect_main ::
    "(string \<Rightarrow> json) \<Rightarrow> string option \<Rightarrow> string + env_row list \<Rightarrow> string + pair_row list \<Rightarrow> string \<times> string \<times> nat" where
  "db_inspect_main num open_err rows prows =
     (case open_err of Some err \<Rightarrow> ([], err @ nl, 1)
      | None \<Rightarrow>
         let out = ''=== envelopes ==='' @ nl in
         (case rows of Inl err \<Rightarrow> (out, err @ nl, 1)
          | Inr es \<Rightarrow>
             let out = out @ concat (map (inspect_envelope num) es) @ nl @ ''=== pairs ==='' @ nl in
             (case prows of Inl err \<Rightarrow> (out, err @ nl, 1)
              | Inr ps \<Rightarrow> (out @ concat (map inspect_pair ps), [], 0))))"

definition db_inspect :: "(string \<Rightarrow> json) \<Rightarrow> db \<Rightarrow> string \<times> string \<times> nat" where
  "db_inspect num d = db_inspect_main num None (Inr (envelope_rows d)) (Inr (pairs d))"

section \<open>It shows what the relay stored\<close>

lemma quad_induct [case_names Quad Three Two One None]:
  assumes "\<And>a b c d r. P r \<Longrightarrow> P (a # b # c # d # r)" "\<And>a b c. P [a, b, c]" "\<And>a b. P [a, b]" "\<And>a. P [a]" "P []"
  shows "P (s :: 'a list)"
proof (induction s rule: length_induct)
  case (1 s)
  then show ?case using assms by (cases s rule: remdups_adj.cases; cases "tl (tl s)"; cases "tl (tl (tl s))") auto
qed

lemma decode_padded:
  assumes "decode_quanta (t @ replicate k CHR ''='') = Some out" "CHR ''='' \<notin> set t"
  shows "list_all b64_char t \<and> length t mod 4 \<noteq> 1 \<and> raw_quanta t = out"
  using assms
proof (induction t arbitrary: out rule: quad_induct)
  case (Quad a b c d r)
  from Quad.prems obtain w x y z rest where v: "b64_val a = Some w" "b64_val b = Some x" "b64_val c = Some y" "b64_val d = Some z"
    "decode_quanta (r @ replicate k CHR ''='') = Some rest" by (auto simp: Let_def split: option.splits if_splits)
  have "CHR ''='' \<notin> set r" using Quad.prems(2) by simp
  note IH = Quad.IH [OF v(5) this]
  show ?case using IH v Quad.prems by (auto simp: b64_char_def Let_def)
next
  case (Three a b c)
  then show ?case by (cases k) (auto simp: b64_char_def Let_def split: option.splits if_splits)
next
  case (Two a b)
  show ?case
  proof (cases k)
    case (Suc k')
    then show ?thesis using Two by (cases k') (auto simp: b64_char_def Let_def split: option.splits if_splits)
  qed (use Two in simp)
next
  case (One a)
  have False
  proof (cases k)
    case (Suc k')
    then show ?thesis using One by (cases k'; cases "k' - 1"; cases "k' - 2") (auto simp: b64_val_def split: option.splits if_splits)
  qed (use One in simp)
  then show ?case ..
next
  case None
  show ?case
  proof (cases k)
    case (Suc k')
    then show ?thesis using None by (cases k'; cases "k' - 1"; cases "k' - 2") (auto simp: b64_val_def split: option.splits if_splits)
  qed (use None in simp)
qed

lemma decode_std:
  assumes "decode_quanta t = Some out" "CHR ''-'' \<notin> set t" "CHR ''_'' \<notin> set t"
  shows "std_quanta (map std_to_url t) = out"
  using assms
proof (induction t arbitrary: out rule: quad_induct)
  case (Quad a b c d r)
  have id: "std_to_url x = x" if "b64_char x" "x \<in> {a, b, c, d}" for x
    using that Quad.prems(2,3) by (auto simp: std_to_url_def b64_char_def b64_val_def)
  have eq: "std_to_url CHR ''='' = CHR ''=''" by (simp add: std_to_url_def)
  from Quad.prems(1) obtain w x where v: "b64_val a = Some w" "b64_val b = Some x"
    by (auto simp: Let_def split: option.splits if_splits)
  have ab: "std_to_url a = a" "std_to_url b = b" using v id by (auto simp: b64_char_def)
  show ?case
  proof (cases "c = CHR ''=''")
    case True
    then show ?thesis using Quad.prems(1) v by (auto simp: ab eq Let_def split: if_splits)
  next
    case False
    then obtain y where y: "b64_val c = Some y" using Quad.prems(1) v by (auto simp: Let_def split: option.splits if_splits)
    then have c: "std_to_url c = c" using id by (auto simp: b64_char_def)
    show ?thesis
    proof (cases "d = CHR ''=''")
      case True
      then show ?thesis using Quad.prems(1) v y False by (auto simp: ab c eq Let_def split: if_splits)
    next
      case nd: False
      then obtain z rest where z: "b64_val d = Some z" "decode_quanta r = Some rest"
        using Quad.prems(1) v y False by (auto simp: Let_def split: option.splits if_splits)
      then have "std_to_url d = d" using id by (auto simp: b64_char_def)
      then show ?thesis using Quad z v y False nd by (auto simp: ab c Let_def)
    qed
  qed
qed auto

text \<open>
  The bytes shown are the ones the relay hashed, when the sender left the padding out,
  or wrote all of it and none of \<open>-\<close> and \<open>_\<close>.
\<close>

lemma ctBytes_stored:
  assumes "base64urlDecode ct = Some raw"
    and "CHR ''='' \<notin> set ct \<or> length ct mod 4 = 0 \<and> CHR ''-'' \<notin> set ct \<and> CHR ''_'' \<notin> set ct"
  shows "ctBytes ct = raw"
proof -
  let ?t = "filter (\<lambda>c. \<not> newline c) ct"
  obtain k where k: "decode_quanta (?t @ replicate k CHR ''='') = Some raw" "length ct mod 4 = 0 \<longrightarrow> k = 0"
    using assms(1) by (auto simp: base64urlDecode_def URLDecodeString_def pad_b64_def Let_def newline_def split: if_splits)
  show ?thesis
  proof (cases "CHR ''='' \<in> set ct")
    case False
    then show ?thesis using decode_padded [OF k(1)] by (simp add: ctBytes_def RawURLDecodeString_def Let_def)
  next
    case True
    then have "decode_quanta ?t = Some raw" "CHR ''-'' \<notin> set ?t" "CHR ''_'' \<notin> set ?t" using k assms(2) by auto
    from decode_std [OF this] have "StdDecode ct = raw" by (simp add: StdDecode_def)
    moreover have "\<not> list_all b64_char ?t" using True by (auto simp: list_all_iff newline_def b64_char_def b64_val_def)
    ultimately show ?thesis by (simp add: ctBytes_def RawURLDecodeString_def Let_def)
  qed
qed

text \<open>A padded ciphertext with \<open>-\<close> or \<open>_\<close>, which the mailbox accepts, is shown as no bytes.\<close>

lemma ctBytes_loses_urlsafe: "base64urlDecode ''-w=='' = Some [0xFB]" "ctBytes ''-w=='' = []"
  by code_simp+

lemma update_new: "k \<notin> fst ` set acc \<Longrightarrow> AList.update k v acc = acc @ [(k, v)]"
  by (induction acc) auto

lemma sorted_update:
  assumes "distinct (map fst ms)" "sorted (map fst ms)"
  shows "sort_key fst (fold (\<lambda>(k, v). AList.update k v) ms []) = ms"
proof -
  have "fold (\<lambda>(k, v). AList.update k v) ms acc = acc @ ms" if "distinct (map fst (acc @ ms))" for acc
    using that
  proof (induction ms arbitrary: acc)
    case (Cons m ms)
    obtain k v where m: "m = (k, v)" by (cases m)
    then have "AList.update k v acc = acc @ [(k, v)]" using Cons.prems by (intro update_new) auto
    then show ?case using Cons.IH [of "acc @ [m]"] Cons.prems m by simp
  qed simp
  then show ?thesis using assms by (simp add: sort_key_id_if_sorted)
qed

text \<open>What is printed of a stored envelope is JSON with the same content.\<close>

lemma outer_pretty_content: "json_parse (outer_pretty num (canonicalJSON e)) = json_parse (canonicalJSON e)"
proof -
  let ?ms = "map (\<lambda>(k, v). (utf8_fix k, JStr (utf8_fix v))) (canonical_members e)"
  have p: "json_parse (canonicalJSON e) = Some (JObj ?ms)" by (simp add: canonicalJSON_render json_parse_render)
  have "map utf8_fix [''ciphertext'', ''ciphertext_sha256'', ''msg_id'', ''path_id'', ''ts'', ''version'']
      = [''ciphertext'', ''ciphertext_sha256'', ''msg_id'', ''path_id'', ''ts'', ''version'']" by code_simp
  then have k: "map fst ?ms = [''ciphertext'', ''ciphertext_sha256'', ''msg_id'', ''path_id'', ''ts'', ''version'']"
    by (simp add: canonical_members_def del: utf8_fix.simps)
  have "any_value num (JObj ?ms) = JObj ?ms"
  proof -
    have "map (\<lambda>(k, v). (k, any_value num v)) ?ms = ?ms" by auto
    moreover have "distinct (map fst ?ms)" "sorted (map fst ?ms)" unfolding k by code_simp+
    ultimately show ?thesis using sorted_update [of ?ms] by (simp only: any_value.simps)
  qed
  moreover have "utf8_json (JObj ?ms) = JObj ?ms" by (auto simp: valid_utf8_fix_id)
  moreover have "json_parse (MarshalIndent (JObj ?ms) ''  '' ''  '') = Some (utf8_json (JObj ?ms))"
  proof (rule json_parse_MarshalIndent)
    have "foldr (\<lambda>(k, v) n. max (json_depth v) n) ?ms 0 = 0" unfolding canonical_members_def by simp
    then show "json_depth (JObj ?ms) \<le> maxNestingDepth" by (simp add: maxNestingDepth_def)
  qed (auto simp: json_space_def list_all_iff)
  ultimately show ?thesis by (simp add: outer_pretty_def p)
qed


end
