(* ===== verification/CommandLine.thy ===== *)
theory CommandLine
  imports GoFlag Landing DiscoveryJson DbInspect
begin

text \<open>
  The command lines: the flags of the relay's \<open>main\<close>, what they start, and the lines it
  logs before it listens; the flag of \<open>cmd/db-inspect\<close>.
\<close>

section \<open>The flags\<close>

text \<open>The variables of \<open>main\<close>; \<open>flags\<close> are those the handlers and the sweeper read.\<close>

record options = flags +
  addr :: string
  tailnetAddr :: string
  dbPath :: string
  showVersion :: bool

definition default_options :: options where
  "default_options =
     \<lparr>interchangeID = [], sweepInterval = Hour, envelopeMaxAge = 7 * 24 * Hour, ownerSecret = [],
      addr = '':8443'', tailnetAddr = ''127.0.0.1:8444'', dbPath = ''interchange.db'', showVersion = False\<rparr>"

definition String_flag :: "string \<Rightarrow> (string \<Rightarrow> 'c \<Rightarrow> 'c) \<Rightarrow> 'c flag" where
  "String_flag n upd = \<lparr>flagName = n, isBoolFlag = False, setter = (\<lambda>v c. Some (upd v c))\<rparr>"

definition Duration_flag :: "(nat \<Rightarrow> nat \<Rightarrow> nat \<Rightarrow> nat) \<Rightarrow> string \<Rightarrow> (duration \<Rightarrow> 'c \<Rightarrow> 'c) \<Rightarrow> 'c flag" where
  "Duration_flag flt n upd = \<lparr>flagName = n, isBoolFlag = False, setter = (\<lambda>v c. map_option (\<lambda>d. upd d c) (ParseDuration flt v))\<rparr>"

definition Bool_flag :: "string \<Rightarrow> (bool \<Rightarrow> 'c \<Rightarrow> 'c) \<Rightarrow> 'c flag" where
  "Bool_flag n upd = \<lparr>flagName = n, isBoolFlag = True, setter = (\<lambda>v c. map_option (\<lambda>b. upd b c) (ParseBool v))\<rparr>"

definition command_flags :: "(nat \<Rightarrow> nat \<Rightarrow> nat \<Rightarrow> nat) \<Rightarrow> options flag list" where
  "command_flags flt =
     [String_flag ''addr'' (\<lambda>v. addr_update (\<lambda>_. v)),
      String_flag ''tailnet-addr'' (\<lambda>v. tailnetAddr_update (\<lambda>_. v)),
      String_flag ''id'' (\<lambda>v. interchangeID_update (\<lambda>_. v)),
      String_flag ''db'' (\<lambda>v. dbPath_update (\<lambda>_. v)),
      Duration_flag flt ''sweep-interval'' (\<lambda>d. sweepInterval_update (\<lambda>_. d)),
      Duration_flag flt ''envelope-max-age'' (\<lambda>d. envelopeMaxAge_update (\<lambda>_. d)),
      String_flag ''owner-secret'' (\<lambda>v. ownerSecret_update (\<lambda>_. v)),
      Bool_flag ''version'' (\<lambda>b. showVersion_update (\<lambda>_. b))]"

section \<open>What the process does\<close>

text \<open>The version a build without \<open>-ldflags\<close> has, and the line \<open>-version\<close> prints.\<close>

definition Version :: string where
  "Version = ''dev''"

definition version_line :: "string \<Rightarrow> string" where
  "version_line v = ''interchange '' @ v @ [CHR 0x0A]"

definition startup_log :: "options \<Rightarrow> string list" where
  "startup_log opts =
     [''public listener on '' @ addr opts,
      ''tailnet listener on '' @ tailnetAddr opts @ '' (owner endpoints '' @ [CHR 0xE2, CHR 0x80, CHR 0x94]
        @ '' bind to tailscale0 in production)'',
      ''interchange_id='' @ interchangeID opts @ '' db='' @ dbPath opts @ '' sweep='' @ Duration_String (sweepInterval opts)
        @ '' envelope-max-age='' @ Duration_String (envelopeMaxAge opts),
      ''signature verification: Ed25519 via internal/crypto'',
      (if ownerSecret opts \<noteq> [] then ''owner endpoints: X-Owner-Secret header required (layered on tailnet binding)''
       else ''owner endpoints: tailnet binding only '' @ [CHR 0xE2, CHR 0x80, CHR 0x94] @ '' no shared secret configured'')]"

text \<open>
  How the process ends before it serves: a usage message (or the help text), the version,
  a fatal error, or the panic of \<open>discovery.New\<close> on its constants.  \<open>relay_process\<close> is
  the environment it serves in, its log lines and its state.
\<close>

datatype relay_exit = UsageExit flag_error | VersionPrinted string | FatalExit relay_fatal | ConstantsPanic

definition exit_status :: "relay_exit \<Rightarrow> nat" where
  "exit_status x = (case x of UsageExit HelpRequested \<Rightarrow> 0 | VersionPrinted _ \<Rightarrow> 0 | FatalExit _ \<Rightarrow> 1 | _ \<Rightarrow> 2)"

record 'l relay_process =
  served_env :: "'l relay_env"
  logged :: "string list"
  served :: "'l relay"

text \<open>
  What the source is linked with.  \<open>worlds p\<close> below is the world of a process whose database
  is the file \<open>p\<close>.
\<close>

record ('k, 'l) linked =
  linkVersion :: string
  float_frac :: "nat \<Rightarrow> nat \<Rightarrow> nat \<Rightarrow> nat"
  hkdf_lib :: hkdf
  example_lib :: "'k ed_lib"
  verify_lib :: ed_verify
  rates :: "'l rate_lib"
  schema_sql :: string
  is_canceled :: "sterr \<Rightarrow> bool"

definition command_env :: "('k, 'l) linked \<Rightarrow> options \<Rightarrow> string \<Rightarrow> 'l relay_env" where
  "command_env lib opts doc =
     \<lparr>edv = verify_lib lib, rate = rates lib, landing_page = pageHTML, discovery_doc = doc, relay_flags = flags.truncate opts\<rparr>"

definition serve_options :: "('k, 'l) linked \<Rightarrow> wake list \<Rightarrow> (string \<Rightarrow> world) \<Rightarrow> options \<Rightarrow> relay_exit + 'l relay_process" where
  "serve_options lib wakes worlds opts =
     (if showVersion opts then Inl (VersionPrinted (version_line (linkVersion lib)))
      else let doc = discovery_body (hkdf_lib lib) (example_lib lib) (interchangeID opts);
               env = command_env lib opts (case doc of None \<Rightarrow> [] | Some d \<Rightarrow> d) in
      (case relay_main (is_canceled lib) (schema_sql lib) env wakes (worlds (dbPath opts)) of
         Inl x \<Rightarrow> Inl (FatalExit x)
       | Inr s \<Rightarrow> if doc = None then Inl ConstantsPanic else Inr \<lparr>served_env = env, logged = startup_log opts, served = s\<rparr>))"

definition interchange :: "('k, 'l) linked \<Rightarrow> wake list \<Rightarrow> (string \<Rightarrow> world) \<Rightarrow> string list \<Rightarrow> relay_exit + 'l relay_process" where
  "interchange lib wakes worlds args =
     (case parse_flags (command_flags (float_frac lib)) args default_options of
        Inl e \<Rightarrow> Inl (UsageExit e)
      | Inr (opts, _) \<Rightarrow> serve_options lib wakes worlds opts)"

section \<open>Every configuration can be given\<close>

text \<open>A flag given on the command line, and its two spellings.\<close>

datatype setting =
    SetAddr string | SetTailnetAddr string | SetId string | SetDb string
  | SetSweepInterval duration | SetEnvelopeMaxAge duration | SetOwnerSecret string | SetVersion bool

primrec apply_setting :: "setting \<Rightarrow> options \<Rightarrow> options" where
  "apply_setting (SetAddr v) opts = opts\<lparr>addr := v\<rparr>"
| "apply_setting (SetTailnetAddr v) opts = opts\<lparr>tailnetAddr := v\<rparr>"
| "apply_setting (SetId v) opts = opts\<lparr>interchangeID := v\<rparr>"
| "apply_setting (SetDb v) opts = opts\<lparr>dbPath := v\<rparr>"
| "apply_setting (SetSweepInterval d) opts = opts\<lparr>sweepInterval := d\<rparr>"
| "apply_setting (SetEnvelopeMaxAge d) opts = opts\<lparr>envelopeMaxAge := d\<rparr>"
| "apply_setting (SetOwnerSecret v) opts = opts\<lparr>ownerSecret := v\<rparr>"
| "apply_setting (SetVersion b) opts = opts\<lparr>showVersion := b\<rparr>"

primrec setting_text :: "setting \<Rightarrow> string \<times> string" where
  "setting_text (SetAddr v) = (''addr'', v)"
| "setting_text (SetTailnetAddr v) = (''tailnet-addr'', v)"
| "setting_text (SetId v) = (''id'', v)"
| "setting_text (SetDb v) = (''db'', v)"
| "setting_text (SetSweepInterval d) = (''sweep-interval'', Duration_String d)"
| "setting_text (SetEnvelopeMaxAge d) = (''envelope-max-age'', Duration_String d)"
| "setting_text (SetOwnerSecret v) = (''owner-secret'', v)"
| "setting_text (SetVersion b) = (''version'', if b then ''true'' else ''false'')"

definition in_range :: "setting \<Rightarrow> bool" where
  "in_range s = (case s of SetSweepInterval d \<Rightarrow> minDuration \<le> d \<and> d \<le> maxDuration
     | SetEnvelopeMaxAge d \<Rightarrow> minDuration \<le> d \<and> d \<le> maxDuration | _ \<Rightarrow> True)"

text \<open>\<open>-name=value\<close>, and \<open>-name value\<close>, which a boolean flag does not have.\<close>

definition setting_args :: "bool \<times> setting \<Rightarrow> string list" where
  "setting_args js = (case js of (joined, s) \<Rightarrow> case setting_text s of (n, v) \<Rightarrow>
     if joined \<or> n = ''version'' then [CHR ''-'' # n @ CHR ''='' # v] else [CHR ''-'' # n, v])"

definition command_line :: "(bool \<times> setting) list \<Rightarrow> string list" where
  "command_line ss = concat (map setting_args ss)"

definition configured :: "(bool \<times> setting) list \<Rightarrow> options" where
  "configured ss = fold (\<lambda>js. apply_setting (snd js)) ss default_options"

lemma setting_flag:
  assumes "exact_frac flt" "in_range s"
  shows "plain_name (fst (setting_text s))
    \<and> (\<exists>f. find (\<lambda>f. flagName f = fst (setting_text s)) (command_flags flt) = Some f
         \<and> (\<forall>c. setter f (snd (setting_text s)) c = Some (apply_setting s c))
         \<and> (isBoolFlag f \<longleftrightarrow> fst (setting_text s) = ''version''))"
proof -
  have b: "ParseBool ''true'' = Some True" "ParseBool ''false'' = Some False" by (simp_all add: ParseBool_def)
  have d: "ParseDuration flt (Duration_String d) = Some d" if "minDuration \<le> d" "d \<le> maxDuration" for d
    by (rule Duration_String_parses [OF assms(1) that])
  show ?thesis
    using assms(2)
    by (cases s) (auto simp: plain_name_def command_flags_def String_flag_def Duration_flag_def Bool_flag_def in_range_def b d)
qed

lemma parse_setting:
  assumes "exact_frac flt" "in_range s"
  shows "parse_flags (command_flags flt) (setting_args (j, s) @ args) c = parse_flags (command_flags flt) args (apply_setting s c)"
proof -
  obtain n v where t: "setting_text s = (n, v)" by fastforce
  obtain f where f: "plain_name n" "find (\<lambda>f. flagName f = n) (command_flags flt) = Some f"
    "\<And>c. setter f v c = Some (apply_setting s c)" "isBoolFlag f \<longleftrightarrow> n = ''version''"
    using setting_flag [OF assms] t by auto
  show ?thesis using parse_joined [OF f(1,2)] parse_separate [OF f(1,2)] f(3,4) t by (auto simp: setting_args_def)
qed

lemma command_line_parsed:
  assumes "exact_frac flt" "list_all (\<lambda>js. in_range (snd js)) ss"
  shows "parse_flags (command_flags flt) (command_line ss) default_options = Inr (configured ss, [])"
proof -
  have "parse_flags (command_flags flt) (command_line ss) c = Inr (fold (\<lambda>js. apply_setting (snd js)) ss c, [])" for c
    using assms(2) by (induction ss arbitrary: c) (auto simp: command_line_def parse_setting [OF assms(1)])
  then show ?thesis by (simp add: configured_def)
qed

section \<open>What it serves with\<close>

text \<open>Whatever the arguments: what is served is a relay started by \<open>main\<close>, with a name, the page and its own document.\<close>

lemma interchange_serves:
  assumes "interchange lib wakes worlds args = Inr p"
  obtains opts rest where "parse_flags (command_flags (float_frac lib)) args default_options = Inr (opts, rest)"
    "serve_options lib wakes worlds opts = Inr p"
  using assms by (auto simp: interchange_def split: sum.splits)

lemma serve_options_serves:
  assumes "serve_options lib wakes worlds opts = Inr p"
  shows "\<not> showVersion opts" "interchangeID opts \<noteq> []"
    "relay_main (is_canceled lib) (schema_sql lib) (served_env p) wakes (worlds (dbPath opts)) = Inr (served p)"
    "relay_flags (served_env p) = flags.truncate opts" "landing_page (served_env p) = pageHTML"
    "discovery_body (hkdf_lib lib) (example_lib lib) (interchangeID opts) = Some (discovery_doc (served_env p))"
    "logged p = startup_log opts"
proof -
  obtain doc where d: "discovery_body (hkdf_lib lib) (example_lib lib) (interchangeID opts) = Some doc" "\<not> showVersion opts"
    using assms by (auto simp: serve_options_def Let_def split: sum.splits if_splits)
  obtain s where s: "relay_main (is_canceled lib) (schema_sql lib) (command_env lib opts doc) wakes (worlds (dbPath opts)) = Inr s"
    "p = \<lparr>served_env = command_env lib opts doc, logged = startup_log opts, served = s\<rparr>"
    using assms d by (auto simp: serve_options_def Let_def split: sum.splits)
  show "interchangeID opts \<noteq> []"
    using s(1) by (auto simp: relay_main_def relay_open_def command_env_def flags.truncate_def split: if_splits)
  show "relay_flags (served_env p) = flags.truncate opts" "landing_page (served_env p) = pageHTML" "\<not> showVersion opts"
    "relay_main (is_canceled lib) (schema_sql lib) (served_env p) wakes (worlds (dbPath opts)) = Inr (served p)"
    "discovery_body (hkdf_lib lib) (example_lib lib) (interchangeID opts) = Some (discovery_doc (served_env p))"
    "logged p = startup_log opts"
    using s d by (simp_all add: command_env_def)
qed

text \<open>
  C29. Flags on the command line, in any order and either spelling, the last of equal ones
  winning and durations as Go prints them, start the process with exactly that
  configuration: it prints the version if asked to, refuses an empty owner id, and otherwise
  a relay it serves is the one of \<open>main\<close> over the configured database, with the configured
  id, secret and retention, the landing page, and the capabilities document of that id.
\<close>

theorem command_line_configures:
  assumes "exact_frac (float_frac lib)" "list_all (\<lambda>js. in_range (snd js)) ss"
    and "opts = configured ss" "result = interchange lib wakes worlds (command_line ss)"
  shows "(showVersion opts \<longrightarrow> result = Inl (VersionPrinted (''interchange '' @ linkVersion lib @ [CHR 0x0A])))
    \<and> (\<not> showVersion opts \<and> interchangeID opts = [] \<longrightarrow> result = Inl (FatalExit IdRequired))
    \<and> (\<forall>p. result = Inr p \<longrightarrow>
         relay_main (is_canceled lib) (schema_sql lib) (served_env p) wakes (worlds (dbPath opts)) = Inr (served p)
         \<and> relay_flags (served_env p) = \<lparr>interchangeID = interchangeID opts, sweepInterval = sweepInterval opts,
             envelopeMaxAge = envelopeMaxAge opts, ownerSecret = ownerSecret opts\<rparr>
         \<and> landing_page (served_env p) = pageHTML
         \<and> (\<exists>v. computeAEADExample (hkdf_lib lib) (example_lib lib) = Some v
              \<and> json_parse (discovery_doc (served_env p))
                = Some (utf8_json (dDocument_json (discovery_New (example_lib lib) v (interchangeID opts))))))"
proof -
  have r: "result = serve_options lib wakes worlds opts"
    using command_line_parsed [OF assms(1,2)] assms(3,4) by (simp add: interchange_def)
  have "result = Inl (FatalExit IdRequired)" if "\<not> showVersion opts" "interchangeID opts = []"
    using that unfolding r
    by (simp add: serve_options_def relay_main_def relay_open_def command_env_def flags.truncate_def Let_def)
  moreover have "\<exists>v. computeAEADExample (hkdf_lib lib) (example_lib lib) = Some v
      \<and> json_parse (discovery_doc (served_env p)) = Some (utf8_json (dDocument_json (discovery_New (example_lib lib) v (interchangeID opts))))"
    if "result = Inr p" for p
    by (rule body_parses [OF serve_options_serves(6) [OF that [unfolded r]]]) blast
  moreover have "result = Inl (VersionPrinted (''interchange '' @ linkVersion lib @ [CHR 0x0A]))" if "showVersion opts"
    using that unfolding r by (simp add: serve_options_def version_line_def)
  moreover have "relay_main (is_canceled lib) (schema_sql lib) (served_env p) wakes (worlds (dbPath opts)) = Inr (served p)"
    "relay_flags (served_env p) = \<lparr>interchangeID = interchangeID opts, sweepInterval = sweepInterval opts,
       envelopeMaxAge = envelopeMaxAge opts, ownerSecret = ownerSecret opts\<rparr>"
    "landing_page (served_env p) = pageHTML" if "result = Inr p" for p
    using serve_options_serves(3,4,5) [OF that [unfolded r]] by (simp_all add: flags.truncate_def)
  ultimately show ?thesis by simp
qed

text \<open>
  The line the process logs of its configuration names the flags.  The sweeper replaces a
  duration that is not positive by its default, so with \<open>-envelope-max-age=0\<close> the log says
  \<open>0s\<close> and mail is kept for a week.
\<close>

lemma startup_log_misstates_retention:
  assumes "envelopeMaxAge opts = 0"
  shows "startup_log opts ! 2 = ''interchange_id='' @ interchangeID opts @ '' db='' @ dbPath opts @ '' sweep=''
      @ Duration_String (sweepInterval opts) @ '' envelope-max-age=0s''"
    and "EnvelopeMaxAge (sweep_config (flags.truncate opts)) = 7 * 24 * Hour"
  using assms by (simp_all add: startup_log_def Duration_String_def Duration_abs_String_def sweep_config_def defaults_def
      flags.truncate_def numeral_2_eq_2)

section \<open>The flag of db-inspect\<close>

text \<open>\<open>files p\<close> is what opening the file \<open>p\<close> and reading its two tables gives.\<close>

definition db_inspect_command ::
    "(string \<Rightarrow> json) \<Rightarrow> (string \<Rightarrow> string option \<times> (string + env_row list) \<times> (string + pair_row list)) \<Rightarrow> string list
     \<Rightarrow> flag_error + string \<times> string \<times> nat" where
  "db_inspect_command num files args =
     (case parse_flags [String_flag ''db'' (\<lambda>v _. v)] args ''./interchange.db'' of
        Inl e \<Rightarrow> Inl e
      | Inr (p, _) \<Rightarrow> (case files p of (err, es, ps) \<Rightarrow> Inr (db_inspect_main num err es ps)))"

lemma db_inspect_reads_named_file:
  "db_inspect_command num files [''-db'', p] = (case files p of (err, es, ps) \<Rightarrow> Inr (db_inspect_main num err es ps))"
  "db_inspect_command num files [] = (case files ''./interchange.db'' of (err, es, ps) \<Rightarrow> Inr (db_inspect_main num err es ps))"
proof -
  have "parse_flags [String_flag ''db'' (\<lambda>v _. v)] [''-db'', p] c = Inr (p, [])" for c
    using parse_separate [of "''db''" "[String_flag ''db'' (\<lambda>v _. v)]" _ p "[]" c] by (simp add: plain_name_def String_flag_def)
  then show "db_inspect_command num files [''-db'', p] = (case files p of (err, es, ps) \<Rightarrow> Inr (db_inspect_main num err es ps))"
    by (simp add: db_inspect_command_def)
qed (simp add: db_inspect_command_def)

end
