(* ===== verification/DiscoveryDemo.thy ===== *)
theory DiscoveryDemo
  imports DiscoveryFacts MailboxDemo
begin

text \<open>
  The properties of the published examples under a toy signing library, whose
  signatures begin with the key.
\<close>

definition toy_lib :: "bytes ed_lib" where
  "toy_lib = \<lparr>NewKeyFromSeed = \<lambda>seed. seed, Public = \<lambda>k. take 32 (k @ replicate 32 0),
     Sign = \<lambda>k m. take 32 (k @ replicate 32 0) @ replicate 32 0\<rparr>"

lemma toy_signs: "signs toy_ed toy_lib"
  by (simp add: signs_def toy_lib_def toy_ed_def PublicKeySize_def SignatureSize_def min_def)

theorem published_halves_verify_witness:
  "\<exists>h. parseHalf (half_of_wire (ExamplePairHalfVersion_WireJSON (the_ExamplePairHalfVersion_V2 toy_lib))) = Inr h
     \<and> verifySelfSig toy_ed h"
  using published_halves_verify [OF toy_signs] by blast

definition published_put :: request where
  "published_put = \<lparr>meth = ''PUT'', path = ''/mailbox/'' @ examplePathID toy_lib, rawQuery = [],
     hdr = demo_hdr (exampleOuterSig toy_lib), body = exampleOuterCanonical toy_lib, bodyBroken = False, RemoteAddr = []\<rparr>"

theorem published_envelope_accepted_witness:
  "\<exists>env. put_parse published_put (examplePathID toy_lib) = Inr (exampleOuterCanonical toy_lib, env)
     \<and> put_admit (EdVerifier_Identify toy_ed) (demo_pair\<lparr>RequesterPubkey := alicePubB64u toy_lib\<rparr>) published_put env 1777507200000000000 = Inr AToB"
proof (rule published_envelope_accepted [OF toy_signs])
  show "body published_put = exampleOuterCanonical toy_lib" "\<not> bodyBroken published_put"
    "Get (hdr published_put) ''X-Nexus-Signature'' = exampleOuterSig toy_lib"
    by (simp_all add: published_put_def demo_header)
  show "SigAlg (demo_pair\<lparr>RequesterPubkey := alicePubB64u toy_lib\<rparr>) = ''ed25519''"
    "RequesterPubkey (demo_pair\<lparr>RequesterPubkey := alicePubB64u toy_lib\<rparr>) = alicePubB64u toy_lib"
    by (simp_all add: demo_pair_def)
  show "tsInWindow exampleTs 1777507200000000000" unfolding exampleTs_def by code_simp
qed

theorem advertised_limits_witness:
  "\<exists>h. parseHalf (published_half toy_lib ''X448'' exampleAliceDhPubB64u ''s'') = Inr h \<and> HalfDhAlg h = ''X448''
     \<and> replayWindow = 300 * Second"
proof -
  let ?h = "published_half toy_lib exampleDhAlg exampleAliceDhPubB64u ''s''"
  have "parseHalf ?h = Inr (?h\<lparr>pubkeyRaw := Public toy_lib (aliceKey toy_lib)\<rparr>)" "HalfDhAlg ?h \<noteq> []"
    using published_parses [OF toy_signs, of "''s''" exampleDhAlg exampleAliceDhPubB64u]
    by (simp_all add: published_half_def exampleDhAlg_def)
  with advertised_limits [of toy_lib "()" "''own''" ?h "?h\<lparr>pubkeyRaw := Public toy_lib (aliceKey toy_lib)\<rparr>"]
  have "parseHalf (?h\<lparr>HalfDhAlg := ''X448''\<rparr>)
      = Inr ((?h\<lparr>pubkeyRaw := Public toy_lib (aliceKey toy_lib)\<rparr>)\<lparr>HalfDhAlg := ''X448''\<rparr>)" by blast
  moreover have "?h\<lparr>HalfDhAlg := ''X448''\<rparr> = published_half toy_lib ''X448'' exampleAliceDhPubB64u ''s''"
    by (simp add: published_half_def)
  moreover have "replayWindow = 300 * Second" by (simp add: replayWindow_def duration_defs)
  ultimately show ?thesis by auto
qed

end
