(* ===== verification/AeadDemo.thy ===== *)
theory AeadDemo
  imports AeadExample DiscoveryDemo
begin

text \<open>
  The encryption vector with a concrete key derivation: HKDF (RFC 5869) over HMAC-SHA-256.
\<close>

definition hmac_sha256 :: "bytes \<Rightarrow> bytes \<Rightarrow> bytes" where
  "hmac_sha256 key m =
     (let k0 = (if length key > 64 then sha256 key else key); k = k0 @ replicate (64 - length k0) 0
      in sha256 (map ((XOR) 0x5C) k @ sha256 (map ((XOR) 0x36) k @ m)))"

fun hkdf_blocks :: "bytes \<Rightarrow> bytes \<Rightarrow> bytes \<Rightarrow> byte \<Rightarrow> nat \<Rightarrow> bytes" where
  "hkdf_blocks prk info t i 0 = []"
| "hkdf_blocks prk info t i (Suc n) =
     (let t' = hmac_sha256 prk (t @ info @ [i]) in t' @ hkdf_blocks prk info t' (i + 1) n)"

definition hkdf_sha256 :: hkdf where
  "hkdf_sha256 secret salt info n =
     (if n \<le> 255 * 32 then Some (take n (hkdf_blocks (hmac_sha256 salt secret) info [] 1 ((n + 31) div 32))) else None)"

lemma length_hkdf_blocks: "length (hkdf_blocks prk info t i n) = 32 * n"
  by (induction n arbitrary: t i) (simp_all add: Let_def hmac_sha256_def)

lemma hkdf_sha256_reads: "hkdf_reads hkdf_sha256"
proof -
  have "n \<le> 32 * ((n + 31) div 32)" for n :: nat by linarith
  then show ?thesis by (simp add: hkdf_reads_def hkdf_sha256_def length_hkdf_blocks min_absorb1 min_absorb2)
qed

theorem aead_vector_opens_witness:
  "\<exists>v key nonce sealed E. computeAEADExample hkdf_sha256 toy_lib = Some v \<and> hex_DecodeString (SymKeyHex v) = Some key
     \<and> hex_DecodeString (NonceHex v) = Some nonce \<and> hex_DecodeString (CiphertextWithTagHex v) = Some sealed \<and> aes_NewCipher key = Some E
     \<and> gcm_Open E nonce sealed (to_bytes (AEAD_PathID v @ AEAD_MsgID v)) = Some (to_bytes (Plaintext v))"
  using aead_vector_opens [OF hkdf_sha256_reads, of toy_lib] by blast

theorem aead_vector_fits_mailbox_witness:
  "\<exists>v ct. computeAEADExample hkdf_sha256 toy_lib = Some v \<and> base64urlDecode (WireCiphertextB64 v) = Some ct
     \<and> hex_EncodeToString (sha256 ct) = CiphertextSHA256Hex v"
proof -
  obtain v where v: "computeAEADExample hkdf_sha256 toy_lib = Some v"
    using computed [OF hkdf_sha256_reads, of toy_lib] by blast
  from aead_vector_fits_mailbox [OF v hkdf_sha256_reads] v show ?thesis by blast
qed

end
