(* ===== verification/DocumentDemo.thy ===== *)
theory DocumentDemo
  imports AeadDemo DiscoveryJson RelayDemo
begin

text \<open>The capabilities document of a demonstration relay, with the concrete key derivation.\<close>

definition demo_doc_req :: request where
  "demo_doc_req = \<lparr>meth = ''GET'', path = discovery_Path, rawQuery = [], hdr = (\<lambda>_. []), body = [], bodyBroken = False,
     RemoteAddr = ''192.0.2.7:4711''\<rparr>"

definition demo_doc_env :: "tokens relay_env" where
  "demo_doc_env = demo_relay_env \<lparr>discovery_doc := the (discovery_body hkdf_sha256 toy_lib ''owner'')\<rparr>"

lemma demo_body: "discovery_body hkdf_sha256 toy_lib (interchangeID (relay_flags demo_doc_env)) = Some (discovery_doc demo_doc_env)"
proof -
  obtain v where "computeAEADExample hkdf_sha256 toy_lib = Some v"
    using computed [OF hkdf_sha256_reads, of toy_lib] by blast
  then show ?thesis by (simp add: demo_doc_env_def demo_relay_env_def discovery_body_def)
qed


theorem served_vector_opens_witness:
  "\<exists>t doc key nonce sealed pid mid plain k n c E. discovery_body hkdf_sha256 toy_lib ''owner'' = Some t \<and> json_parse t = Some doc
    \<and> map (\<lambda>f. json_at [''examples'', ''aead_vector'', f] doc)
        [''derived_aes256gcm_key_hex_32_bytes'', ''nonce_hex_12_bytes'', ''ciphertext_with_tag_hex'', ''path_id'', ''msg_id'', ''plaintext'']
      = map (\<lambda>s. Some (JStr s)) [key, nonce, sealed, pid, mid, plain]
    \<and> hex_DecodeString key = Some k \<and> hex_DecodeString nonce = Some n \<and> hex_DecodeString sealed = Some c
    \<and> aes_NewCipher k = Some E \<and> gcm_Open E n c (to_bytes (pid @ mid)) = Some (to_bytes plain)"
  by (rule served_vector_opens [OF hkdf_sha256_reads])

end
