(* ===== verification/CommandDemo.thy ===== *)
theory CommandDemo
  imports CommandLine DocumentDemo
begin

text \<open>The relay started from a command line.\<close>

definition demo_linked :: "(bytes, tokens) linked" where
  "demo_linked = \<lparr>linkVersion = Version, float_frac = (\<lambda>f k unit. f * unit div 10 ^ k), hkdf_lib = hkdf_sha256,
     example_lib = toy_lib, verify_lib = toy_ed, rates = token_bucket, schema_sql = [], is_canceled = (\<lambda>_. False)\<rparr>"

definition demo_settings :: "(bool \<times> setting) list" where
  "demo_settings = [(False, SetId ''owner''), (True, SetEnvelopeMaxAge (36 * Hour)), (True, SetOwnerSecret ''s3cret'')]"

lemma demo_frac: "exact_frac (float_frac demo_linked)"
  by (auto simp: exact_frac_def demo_linked_def dvd_def)

lemma demo_command_serves:
  "\<exists>p. interchange demo_linked [Tick, Done] (\<lambda>_. demo_world) (command_line demo_settings) = Inr p"
proof -
  obtain v where v: "computeAEADExample hkdf_sha256 toy_lib = Some v"
    using computed [OF hkdf_sha256_reads, of toy_lib] by blast
  have ddl: "run (run_ddl wrap ss) demo_world = (Some None, demo_world)" for wrap ss
    by (induction wrap ss rule: run_ddl.induct) (simp_all add: run_bind run_exec exec_world_def demo_world_def)
  have "parse_flags (command_flags (float_frac demo_linked)) (command_line demo_settings) default_options = Inr (configured demo_settings, [])"
    by (rule command_line_parsed [OF demo_frac]) (simp add: demo_settings_def in_range_def duration_defs minDuration_def maxDuration_def)
  then show ?thesis
    by (simp add: interchange_def serve_options_def configured_def demo_settings_def default_options_def Let_def demo_linked_def
        discovery_body_def v relay_main_def command_env_def flags.truncate_def relay_open_def OpenSQLite_def SQLite_CreateSchema_def
        run_bind ddl)
qed

theorem command_line_configures_witness:
  "\<exists>p. interchange demo_linked [Tick, Done] (\<lambda>_. demo_world) (command_line demo_settings) = Inr p
     \<and> relay_main (\<lambda>_. False) [] (served_env p) [Tick, Done] demo_world = Inr (served p)
     \<and> relay_flags (served_env p) = \<lparr>interchangeID = ''owner'', sweepInterval = Hour, envelopeMaxAge = 36 * Hour, ownerSecret = ''s3cret''\<rparr>"
proof -
  obtain p where p: "interchange demo_linked [Tick, Done] (\<lambda>_. demo_world) (command_line demo_settings) = Inr p"
    using demo_command_serves by blast
  have "list_all (\<lambda>js. in_range (snd js)) demo_settings"
    by (simp add: demo_settings_def in_range_def duration_defs minDuration_def maxDuration_def)
  from command_line_configures [OF demo_frac this refl refl, of "[Tick, Done]" "\<lambda>_. demo_world"] p
  show ?thesis by (auto simp: configured_def demo_settings_def default_options_def demo_linked_def)
qed

end
