(* ===== verification/InspectDemo.thy ===== *)
theory InspectDemo
  imports DbInspect MailboxDemo
begin

text \<open>The dump of a database that holds the envelope of the mailbox example.\<close>

definition demo_dump :: db where
  "demo_dump = \<lparr>envelopes = [\<lparr>e_msg_id = EnvMsgID demo_env, e_path_id = demo_path, e_direction = AToB,
       e_received_at = ''2026-06-15T12:00:00Z'', e_ciphertext = EnvCiphertext demo_env, e_signature = sig_A,
       e_outer_json = canonicalJSON demo_env\<rparr>], pair_requests = [], pairs = [pair_to_row demo_pair]\<rparr>"


end
