(* ===== verification/Spec2Isabelle.thy ===== *)
theory Spec2Isabelle
  imports MailboxDemo PairflowDemo GatewayDemo RelayDeliveryDemo CommandDemo InspectDemo
begin

text \<open>
  A verification development of the interchange repository: the relay between two
  paired parties (\<open>cmd/interchange\<close> with \<open>internal/mailbox\<close>, \<open>pairflow\<close>, \<open>storage\<close>,
  \<open>crypto\<close>, \<open>sweep\<close>, \<open>middleware\<close>, \<open>discovery\<close> and \<open>landing\<close>) and the gateway
  (\<open>cmd/interchange-gateway\<close> with \<open>internal/gateway\<close> and \<open>internal/edge\<close>).

  The program.  The relay has two listeners.  On the public one, behind a rate limiter
  and a panic barrier, paired parties put, list and acknowledge sealed envelopes, and
  anybody may ask to be paired and poll the answer.  On the tailnet one the owner lists,
  approves and denies pairing requests.  Both work on one SQLite database, which a
  sweeper cleans up.  The gateway routes requests by path prefix to backends and gRPC
  pillars, authenticates bearer tokens and injects the verified identity.

  Foundations.  \<open>Prelude\<close>: byte slices, theorem collections.  \<open>GoText\<close>, \<open>GoTime\<close>,
  \<open>Codec\<close>, \<open>Sha256\<close>, \<open>Json\<close>, \<open>JsonFacts\<close>, \<open>JsonIndent\<close>, \<open>Http\<close>, \<open>Net\<close>, \<open>GoFlag\<close>,
  \<open>AesGcm\<close>, \<open>P256\<close>: what the code uses of Go's standard library, executable, with 64-bit
  durations that saturate and wrap.

  Effects.  \<open>Db\<close>: the tables of \<open>schemaSQL\<close> and the effect of every SQL statement of
  \<open>sqlite.go\<close>.  \<open>Effect\<close>: a handler is a \<open>prog\<close>, the tree of its SQL statements, clock
  readings and random reads, with panics; \<open>run\<close> executes it alone in a world with
  injected statement faults, \<open>step\<close> one call at a time, so that handlers interleave.

  Components, with the definitions named as in the code:
  \<^item> \<open>Store\<close>, \<open>StoreFacts\<close>: \<open>storage.go\<close>, \<open>sqlite.go\<close>; \<open>SQLite\<close> is the record of the
    adapter's methods, \<open>db_view\<close> the abstract store it implements, and the locales
    \<open>mail_store\<close>, \<open>pair_store\<close> and \<open>retention_store\<close> are the contracts its clients use.
  \<^item> \<open>Crypto\<close>: \<open>crypto.go\<close>, with the locale \<open>verifier\<close>; \<open>ed25519.Verify\<close> is the
    argument \<open>ed\<close>.
  \<^item> \<open>Mailbox\<close>: \<open>put\<close>, \<open>get\<close>, \<open>ack\<close>, \<open>dispatch\<close>; \<open>MailboxSpec\<close> the abstract
    mailbox and its refinement, \<open>MailboxFacts\<close> time window and canonical JSON,
    \<open>MailboxProps\<close> the properties, \<open>MailboxDemo\<close> their instances.
  \<^item> \<open>Pairflow\<close>, \<open>PairflowFacts\<close>, \<open>PairflowSpec\<close>, \<open>PairflowProps\<close>, \<open>PairflowDemo\<close>: the
    pairing handlers of \<open>pairflow.go\<close> in the same arrangement.
  \<^item> \<open>Sweep\<close>: \<open>sweep.go\<close>; one cycle refines the abstract eviction and expiry.
  \<^item> \<open>Protocol\<close>: the discipline every handler's statements keep, as a weakest
    precondition over the pairs it has seen, the \<open>server\<close> of interleaved programs, and
    the invariants of its reachable states.
  \<^item> \<open>RateLimit\<close>, \<open>RateLimitFacts\<close>: \<open>middleware.go\<close>; the limiter against one private
    bucket per client.
  \<^item> \<open>Relay\<close>, \<open>RelayFacts\<close>, \<open>RelayLive\<close>, \<open>RelayDemo\<close>: \<open>cmd/interchange/main.go\<close>; the
    state of the whole relay, \<open>relay_step\<close> by event, its invariants, what the public
    listener cannot do, and that every request is answered.
  \<^item> \<open>CommandLine\<close>, \<open>CommandDemo\<close>: the flags of both commands, the version, the start-up
    log; \<open>interchange\<close> is the whole process from its arguments to the serving relay.
  \<^item> \<open>Custody\<close>, \<open>MailRules\<close>, \<open>RelayMail\<close>, \<open>RelayMailDemo\<close>: the custody of mail in runs of
    the relay.  \<open>Custody\<close> has the rules of a statement for the two tables, \<open>MailRules\<close> that
    every handler keeps them, \<open>RelayMail\<close> that what is stored was signed by a half of its pair
    and that what was answered 202 is lost only to a signed ack or to its age.
  \<^item> \<open>RelayDelivery\<close>, \<open>RelayDeliveryDemo\<close>: delivery in such runs: a page is the inbox at one
    moment between request and answer, and shows what was accepted before the request.
  \<^item> \<open>Gateway\<close>, \<open>GatewayFacts\<close>: \<open>gateway.go\<close>; \<open>Edge\<close>, \<open>EdgeFacts\<close>, \<open>EdgeConfig\<close>:
    \<open>edge.go\<close> and the handlers and parsers of \<open>cmd/interchange-gateway/main.go\<close>;
    \<open>Startup\<close> its \<open>main\<close>; \<open>GatewayDemo\<close> instances.  The locale \<open>identity_blind\<close> is the
    contract of a handler that does not look at forged identity headers.
  \<^item> \<open>Discovery\<close>, \<open>DiscoveryFacts\<close>, \<open>DiscoveryDemo\<close>: the capabilities document and its
    examples, checked against the handlers.  \<open>AeadExample\<close>, \<open>AeadDemo\<close>:
    \<open>example_aead.go\<close>, the encryption vector over P-256 and AES-256-GCM.  \<open>DiscoveryJson\<close>,
    \<open>DocumentDemo\<close>: the document as the JSON text that is served, and what a client that
    parses it finds.
  \<^item> \<open>Landing\<close>: \<open>landing.go\<close>, every line of the page, and that it loads nothing its
    content security policy forbids.
  \<^item> \<open>DbInspect\<close>, \<open>InspectDemo\<close>: \<open>cmd/db-inspect\<close>, its two dumps and its exits.

  Parameters, and what is assumed of them: Ed25519 verification and signing (\<open>signs\<close>:
  sizes, and signatures verify); \<open>golang.org/x/time/rate\<close> (\<open>refills\<close>: an idle bucket is
  full again); \<open>golang.org/x/crypto/hkdf\<close> (\<open>hkdf_reads\<close>: it yields as many bytes as RFC 5869
  allows); the driver's UNIQUE message (\<open>healthy\<close>: it is recognised); herald's token
  library, \<open>url.Parse\<close>, the dialling of pillars and the generated gRPC handlers
  (\<open>platform\<close>).  Floating-point numbers are not modelled: the product in
  \<open>time.ParseDuration\<close> is an argument (\<open>exact_frac\<close>: exact where all numbers in it are small
  integers), and so is the printing of a decoded number in \<open>db-inspect\<close> (\<open>num\<close>; the relay
  stores none).  Theorems about complete answers assume \<open>healthy\<close> worlds
  and times in the wire format's range; the invariants of \<open>Protocol\<close> and \<open>Relay\<close> assume
  neither and hold under arbitrary statement faults, clocks and random bytes.

  Bounds.  No definition needs fuel: recursion is structural or has a measure.  A
  schedule of the relay is a list of events, or an infinite sequence for the liveness
  theorem, whose only assumption is that it keeps calling the request's handler.

  Not modelled.  Sockets, the HTTP grammar, request cancellation (a cancelled context is
  a statement fault), the log lines apart from the sweeper's and the relay's start-up log,
  the text of usage messages, the time limits of a shutdown, connection upgrades of the
  reverse proxy, and the artwork file, which no code reads.

  Plan.  The usage text; the recover barrier's log line; the gateway's log lines; the
  composition of gateway and relay when one of its routes leads to the relay.
\<close>

end
